(* ===== verification/Prelude.thy ===== *)
theory Prelude
  imports Main "HOL-Library.Word"
begin

text \<open>
  Shared vocabulary of the development: the byte and string types, the error type of
  \<^verbatim>\<open>src/src/error.rs\<close>, the fixed-width arithmetic the Rust sources use, the record of external
  library functions every component takes as an argument, and the generic lemmas and fact
  collections the component theories build on.

  Numbers.  An \<^verbatim>\<open>i64\<close> is an \<^typ>\<open>int\<close> and a \<^verbatim>\<open>u64\<close>/\<^verbatim>\<open>usize\<close> a \<^typ>\<open>nat\<close>; each operation that
  can leave the range is written with its wrap-around or its saturation.  The plain operators
  wrap: the release profile of \<^verbatim>\<open>Cargo.toml\<close> does not enable overflow checks.
\<close>

named_theorems wire_simps \<open>unfolding rules of the pure byte-level definitions\<close>
named_theorems write_simps \<open>what each table write does to the columns of a row\<close>
named_theorems frame_simps \<open>state components an operation leaves alone\<close>

section \<open>Bytes and strings\<close>

type_synonym byte = "8 word"
type_synonym bytes = "byte list"

text \<open>A Rust \<^verbatim>\<open>str\<close> is its UTF-8 bytes, so \<^const>\<open>length\<close> of a \<^typ>\<open>string\<close> is \<^verbatim>\<open>str::len\<close>.\<close>

definition as_bytes :: "string \<Rightarrow> bytes" where
  "as_bytes s = map (\<lambda>c. of_nat (of_char c)) s"

lemma length_as_bytes [simp]: "length (as_bytes s) = length s"
  by (simp add: as_bytes_def)

lemma as_bytes_append [simp]: "as_bytes (s @ t) = as_bytes s @ as_bytes t"
  by (simp add: as_bytes_def)

lemma byte_of_char_inject: "(of_nat (of_char c) :: byte) = of_nat (of_char d) \<longleftrightarrow> c = d"
proof
  have small: "unat (of_nat (of_char x) :: byte) = of_char x" for x :: char
    by (simp add: unat_of_nat flip: take_bit_eq_mod del: of_nat_of_char)
  assume "(of_nat (of_char c) :: byte) = of_nat (of_char d)"
  then have "unat (of_nat (of_char c) :: byte) = unat (of_nat (of_char d) :: byte)"
    by (simp only:)
  then show "c = d" by (simp only: small) simp
qed simp

lemma as_bytes_inject [simp]: "as_bytes s = as_bytes t \<longleftrightarrow> s = t"
  unfolding as_bytes_def
  by (rule inj_map_eq_map) (simp add: inj_def byte_of_char_inject)

section \<open>Errors\<close>

text \<open>\<^verbatim>\<open>AppError\<close>: every handler of the API returns one of these or its response.\<close>

datatype app_error =
    AuthFailed string
  | NotFound string
  | BadRequest string
  | Forbidden string
  | Conflict string
  | Internal string
  | TorRequired
  | RateLimited

type_synonym 'a res = "app_error + 'a"

text \<open>The HTTP response an error turns into: a status code and a JSON body.\<close>

record response =
  status :: nat
  body :: bytes

definition json_error :: bytes where
  "json_error = as_bytes ''{\"error\":\"error\"}''"

definition into_response :: "app_error \<Rightarrow> response" where
  "into_response e = \<lparr>status = 500, body = json_error\<rparr>"

definition is_ok :: "'e + 'a \<Rightarrow> bool" where
  "is_ok r = (case r of Inl _ \<Rightarrow> False | Inr _ \<Rightarrow> True)"

lemma is_ok_simps [simp]: "is_ok (Inr x)" "\<not> is_ok (Inl e)"
  by (simp_all add: is_ok_def)

lemma is_ok_iff: "is_ok r \<longleftrightarrow> (\<exists>x. r = Inr x)"
  by (cases r) simp_all

section \<open>The \<open>?\<close> operator\<close>

definition and_then :: "'e + 'a \<Rightarrow> ('a \<Rightarrow> 'e + 'b) \<Rightarrow> 'e + 'b" where
  "and_then r f = (case r of Inl e \<Rightarrow> Inl e | Inr x \<Rightarrow> f x)"

definition ok_or :: "'e \<Rightarrow> 'a option \<Rightarrow> 'e + 'a" where
  "ok_or e x = (case x of None \<Rightarrow> Inl e | Some y \<Rightarrow> Inr y)"

definition map_err :: "('e \<Rightarrow> 'f) \<Rightarrow> 'e + 'a \<Rightarrow> 'f + 'a" where
  "map_err g r = (case r of Inl e \<Rightarrow> Inl (g e) | Inr x \<Rightarrow> Inr x)"

text \<open>\<^verbatim>\<open>if !b { return Err(e) }\<close>\<close>

definition require :: "bool \<Rightarrow> 'e \<Rightarrow> 'e + unit" where
  "require b e = (if b then Inr () else Inl e)"

text \<open>The same operator where the function has changed state by then: an early return keeps it.\<close>

definition then_do :: "('e + 'a) \<times> 's \<Rightarrow> ('a \<Rightarrow> 's \<Rightarrow> ('e + 'b) \<times> 's) \<Rightarrow> ('e + 'b) \<times> 's" where
  "then_do p f = (case fst p of Inl e \<Rightarrow> (Inl e, snd p) | Inr x \<Rightarrow> f x (snd p))"

lemma and_then_simps [simp]: "and_then (Inl e) f = Inl e" "and_then (Inr x) f = f x"
  by (simp_all add: and_then_def)

lemma and_then_Inr [simp]: "and_then r f = Inr y \<longleftrightarrow> (\<exists>x. r = Inr x \<and> f x = Inr y)"
  by (cases r) simp_all

lemma and_then_Inl: "and_then r f = Inl e \<longleftrightarrow> r = Inl e \<or> (\<exists>x. r = Inr x \<and> f x = Inl e)"
  by (cases r) simp_all

lemma ok_or_simps [simp]: "ok_or e None = Inl e" "ok_or e (Some x) = Inr x"
  by (simp_all add: ok_or_def)

lemma ok_or_Inr [simp]: "ok_or e x = Inr y \<longleftrightarrow> x = Some y"
  by (cases x) simp_all

lemma map_err_simps [simp]: "map_err g (Inl e) = Inl (g e)" "map_err g (Inr x) = Inr x"
  by (simp_all add: map_err_def)

lemma map_err_Inr [simp]: "map_err g r = Inr y \<longleftrightarrow> r = Inr y"
  by (cases r) simp_all

lemma require_simps [simp]: "require True e = Inr ()" "require False e = Inl e"
  by (simp_all add: require_def)

lemma require_Inr [simp]: "require b e = Inr u \<longleftrightarrow> b"
  by (cases b) simp_all

lemma then_do_simps [simp]: "then_do (Inl e, s) f = (Inl e, s)" "then_do (Inr x, s) f = f x s"
  by (simp_all add: then_do_def)

lemma then_do_fails: "\<not> is_ok (fst p) \<Longrightarrow> \<not> is_ok (fst (then_do p f))"
  by (cases "fst p") (auto simp: then_do_def)

lemma then_do_Inr:
  "then_do p f = (Inr y, t) \<longleftrightarrow> (\<exists>x s. p = (Inr x, s) \<and> f x s = (Inr y, t))"
  by (cases p; cases "fst p") auto

text \<open>\<^verbatim>\<open>for x in xs { body?; }\<close>\<close>

fun for_each :: "('a \<Rightarrow> 's \<Rightarrow> ('e + unit) \<times> 's) \<Rightarrow> 'a list \<Rightarrow> 's \<Rightarrow> ('e + unit) \<times> 's" where
  "for_each f [] s = (Inr (), s)"
| "for_each f (x # xs) s = then_do (f x s) (\<lambda>_. for_each f xs)"

text \<open>\<^verbatim>\<open>let _ = p;\<close>: the result is dropped, the effect stays.\<close>

definition ignore :: "('e + 'a) \<times> 's \<Rightarrow> ('e + unit) \<times> 's" where
  "ignore p = (Inr (), snd p)"

lemma ignore_simps [simp]: "fst (ignore p) = Inr ()" "snd (ignore p) = snd p"
  by (simp_all add: ignore_def)

text \<open>A state component neither part changes is unchanged by the whole.\<close>

lemma then_do_frame:
  assumes "g (snd p) = v" "\<And>x s. g s = v \<Longrightarrow> g (snd (f x s)) = v"
  shows "g (snd (then_do p f)) = v"
  using assms by (auto simp: then_do_def split: sum.splits)

section \<open>Fixed-width arithmetic\<close>

definition i64_min :: int where "i64_min = - (2 ^ 63)"
definition i64_max :: int where "i64_max = 2 ^ 63 - 1"
definition u64_max :: nat where "u64_max = 2 ^ 64 - 1"

definition in_i64 :: "int \<Rightarrow> bool" where
  "in_i64 x \<longleftrightarrow> i64_min \<le> x \<and> x \<le> i64_max"

definition wrap_i64 :: "int \<Rightarrow> int" where
  "wrap_i64 x = (x + 2 ^ 63) mod 2 ^ 64 - 2 ^ 63"

definition sat_i64 :: "int \<Rightarrow> int" where
  "sat_i64 x = max i64_min (min i64_max x)"

definition saturating_add_i64 :: "int \<Rightarrow> int \<Rightarrow> int" where
  "saturating_add_i64 a b = sat_i64 (a + b)"

definition saturating_mul_i64 :: "int \<Rightarrow> int \<Rightarrow> int" where
  "saturating_mul_i64 a b = sat_i64 (a * b)"

definition saturating_add_u64 :: "nat \<Rightarrow> nat \<Rightarrow> nat" where
  "saturating_add_u64 a b = min u64_max (a + b)"

definition saturating_mul_u64 :: "nat \<Rightarrow> nat \<Rightarrow> nat" where
  "saturating_mul_u64 a b = min u64_max (a * b)"

text \<open>\<^verbatim>\<open>x as i64\<close> of a \<^verbatim>\<open>u64\<close>, \<^verbatim>\<open>x as u64\<close> of an \<^verbatim>\<open>i64\<close>: reinterpretation modulo \<open>2 ^ 64\<close>.\<close>

definition u64_as_i64 :: "nat \<Rightarrow> int" where
  "u64_as_i64 n = wrap_i64 (int n)"

definition i64_as_u64 :: "int \<Rightarrow> nat" where
  "i64_as_u64 x = nat (x mod 2 ^ 64)"

text \<open>Rust's \<^verbatim>\<open>/\<close> truncates towards zero.\<close>

definition trunc_div :: "int \<Rightarrow> int \<Rightarrow> int" where
  "trunc_div a b = sgn a * sgn b * (\<bar>a\<bar> div \<bar>b\<bar>)"

lemmas i64_defs = i64_min_def i64_max_def in_i64_def wrap_i64_def sat_i64_def

lemma wrap_i64_id: "in_i64 x \<Longrightarrow> wrap_i64 x = x"
  by (simp add: i64_defs)

lemma wrap_i64_below:
  assumes "x < - (2 ^ 63)" "- (2 ^ 63) - 2 ^ 64 \<le> x"
  shows "wrap_i64 x = x + 2 ^ 64"
proof -
  have "(x + 2 ^ 63) mod 2 ^ 64 = (x + 2 ^ 63 + 2 ^ 64) mod 2 ^ 64"
    by (simp only: mod_add_self2)
  also have "\<dots> = x + 2 ^ 63 + 2 ^ 64"
    using assms by (intro mod_pos_pos_trivial) simp_all
  finally show ?thesis by (simp add: wrap_i64_def)
qed

lemma wrap_i64_range: "in_i64 (wrap_i64 x)"
proof -
  have "0 \<le> (x + 2 ^ 63) mod 2 ^ 64" "(x + 2 ^ 63) mod 2 ^ 64 < 2 ^ 64"
    by simp_all
  then show ?thesis
    by (simp add: i64_defs)
qed

lemma sat_i64_range [simp]: "in_i64 (sat_i64 x)"
  by (simp add: i64_defs)

lemma sat_i64_id: "in_i64 x \<Longrightarrow> sat_i64 x = x"
  by (simp add: i64_defs)

lemma trunc_div_nonneg: "0 \<le> a \<Longrightarrow> 0 < b \<Longrightarrow> trunc_div a b = a div b"
  by (cases "a = 0") (simp_all add: trunc_div_def)

lemma trunc_div_neg: "a < 0 \<Longrightarrow> 0 < b \<Longrightarrow> trunc_div a b = - (- a div b)"
  by (simp add: trunc_div_def)

lemma u64_as_i64_inject:
  assumes "m \<le> u64_max" "n \<le> u64_max" "u64_as_i64 m = u64_as_i64 n"
  shows "m = n"
proof -
  have "(2 ^ 64 :: int) dvd (int m + 2 ^ 63) - (int n + 2 ^ 63)"
    using assms(3) unfolding u64_as_i64_def wrap_i64_def mod_eq_dvd_iff [symmetric] by simp
  then have "(2 ^ 64 :: int) dvd int m - int n" by simp
  then have "int m mod 2 ^ 64 = int n mod 2 ^ 64"
    by (simp only: mod_eq_dvd_iff)
  moreover have "int m < 2 ^ 64" "int n < 2 ^ 64"
    using assms(1,2) by (simp_all add: u64_max_def)
  ultimately show ?thesis by simp
qed

section \<open>Constant-time comparison\<close>

text \<open>
  \<^verbatim>\<open>constant_time_compare\<close> of \<^verbatim>\<open>crypto/zk.rs\<close>: a length check, then \<^verbatim>\<open>ct_eq\<close>, which folds the
  XOR of the bytes with OR and compares with zero.
\<close>

unbundle bit_operations_syntax

primrec ct_fold :: "(byte \<times> byte) list \<Rightarrow> byte" where
  "ct_fold [] = 0"
| "ct_fold (p # ps) = (fst p XOR snd p) OR ct_fold ps"

definition constant_time_compare :: "bytes \<Rightarrow> bytes \<Rightarrow> bool" where
  "constant_time_compare a b = (if length a \<noteq> length b then False else ct_fold (zip a b) = 0)"

lemma word_xor_eq_0: "(x XOR y = 0) = (x = (y :: byte))"
proof
  assume "x XOR y = 0"
  then have "(x XOR y) XOR y = y" by simp
  then show "x = y" by (simp add: xor.assoc)
qed simp

lemma word_or_eq_0: "(x OR y = 0) = (x = 0 \<and> y = (0 :: byte))"
  by (simp add: or_eq_0_iff)

lemma ct_fold_zip: "length a = length b \<Longrightarrow> (ct_fold (zip a b) = 0) = (a = b)"
  by (induction a b rule: list_induct2) (simp_all add: word_xor_eq_0 word_or_eq_0)

lemma constant_time_compare_iff [simp]: "constant_time_compare a b \<longleftrightarrow> a = b"
  by (auto simp: constant_time_compare_def ct_fold_zip)

end
