(* ===== verification/Rust_Std.thy ===== *)
theory Rust_Std
  imports Prelude
begin

text \<open>
  The parts of Rust's standard library on strings and integers that the sources call:
  \<^verbatim>\<open>str::trim\<close>, \<^verbatim>\<open>split\<close>, \<^verbatim>\<open>contains\<close>, \<^verbatim>\<open>starts_with\<close>, \<^verbatim>\<open>strip_prefix\<close>, \<^verbatim>\<open>parse::<u64>\<close>,
  \<^verbatim>\<open>parse::<i32>\<close>, \<^verbatim>\<open>to_string\<close> of integers, slicing at a byte index and \<^verbatim>\<open>chars().nth\<close>.
  Strings are UTF-8 byte sequences.
\<close>

section \<open>Options\<close>

definition unwrap_or :: "'a option \<Rightarrow> 'a \<Rightarrow> 'a" where
  "unwrap_or x y = (case x of Some v \<Rightarrow> v | None \<Rightarrow> y)"

lemma unwrap_or_simps [simp]: "unwrap_or None y = y" "unwrap_or (Some x) y = x"
  by (simp_all add: unwrap_or_def)

section \<open>Searching, splitting and trimming\<close>

definition contains_char :: "char \<Rightarrow> string \<Rightarrow> bool" where
  "contains_char c s = List.member s c"

definition starts_with :: "string \<Rightarrow> string \<Rightarrow> bool" where
  "starts_with p s = (take (length p) s = p)"

fun contains_str :: "string \<Rightarrow> string \<Rightarrow> bool" where
  "contains_str p [] = (p = [])"
| "contains_str p (c # cs) = (starts_with p (c # cs) \<or> contains_str p cs)"

definition strip_prefix :: "string \<Rightarrow> string \<Rightarrow> string option" where
  "strip_prefix p s = (if starts_with p s then Some (drop (length p) s) else None)"

text \<open>\<^verbatim>\<open>split\<close> by a predicate on characters; a string without a separator is one part.\<close>

fun split_on :: "(char \<Rightarrow> bool) \<Rightarrow> string \<Rightarrow> string list" where
  "split_on p [] = [[]]"
| "split_on p (c # cs) =
     (if p c then [] # split_on p cs
      else (case split_on p cs of [] \<Rightarrow> [[c]] | w # ws \<Rightarrow> (c # w) # ws))"

text \<open>The UTF-8 encodings of the characters with the Unicode property White_Space.\<close>

definition utf8_bytes :: "nat list \<Rightarrow> string" where
  "utf8_bytes ns = map char_of ns"

definition whitespace :: "string list" where
  "whitespace = map utf8_bytes
     ([[9], [10], [11], [12], [13], [32], [194, 133], [194, 160], [225, 154, 128]]
      @ map (\<lambda>i. [226, 128, i]) [128..<139]
      @ [[226, 128, 168], [226, 128, 169], [226, 128, 175], [226, 129, 159], [227, 128, 128]])"

fun strip_any :: "string list \<Rightarrow> string \<Rightarrow> string option" where
  "strip_any [] s = None"
| "strip_any (w # ws) s =
     (if w \<noteq> [] \<and> starts_with w s then Some (drop (length w) s) else strip_any ws s)"

lemma strip_any_shorter: "strip_any ws s = Some t \<Longrightarrow> length t < length s"
  by (induction ws s rule: strip_any.induct)
     (auto simp: starts_with_def intro!: diff_less split: if_splits)

function trim_start_by :: "string list \<Rightarrow> string \<Rightarrow> string" where
  "trim_start_by ws s = (case strip_any ws s of None \<Rightarrow> s | Some t \<Rightarrow> trim_start_by ws t)"
  by pat_completeness auto
termination
  by (relation "measure (\<lambda>(ws, s). length s)") (auto dest: strip_any_shorter)

declare trim_start_by.simps [simp del]

definition trim :: "string \<Rightarrow> string" where
  "trim s = rev (trim_start_by (map rev whitespace) (rev (trim_start_by whitespace s)))"

section \<open>Parsing and printing integers\<close>

definition is_digit :: "char \<Rightarrow> bool" where
  "is_digit c \<longleftrightarrow> 48 \<le> (of_char c :: nat) \<and> (of_char c :: nat) \<le> 57"

definition digit_val :: "char \<Rightarrow> nat" where
  "digit_val c = of_char c - 48"

definition digit_char :: "nat \<Rightarrow> char" where
  "digit_char d = char_of (48 + d)"

definition digits_val :: "string \<Rightarrow> nat" where
  "digits_val s = foldl (\<lambda>a c. 10 * a + digit_val c) 0 s"

definition all_digits :: "string \<Rightarrow> bool" where
  "all_digits s \<longleftrightarrow> s \<noteq> [] \<and> list_all is_digit s"

definition parse_u64 :: "string \<Rightarrow> nat option" where
  "parse_u64 s =
     (let t = (case s of [] \<Rightarrow> [] | c # cs \<Rightarrow> if c = CHR ''+'' then cs else s)
      in if all_digits t \<and> digits_val t \<le> u64_max then Some (digits_val t) else None)"

definition parse_i32 :: "string \<Rightarrow> int option" where
  "parse_i32 s =
     (let (neg, t) = (case s of [] \<Rightarrow> (False, [])
                      | c # cs \<Rightarrow> if c = CHR ''+'' then (False, cs)
                                 else if c = CHR ''-'' then (True, cs) else (False, s));
          v = (if neg then - int (digits_val t) else int (digits_val t))
      in if all_digits t \<and> - (2 ^ 31) \<le> v \<and> v < 2 ^ 31 then Some v else None)"

fun dec :: "nat \<Rightarrow> string" where
  "dec n = (if n < 10 then [digit_char n] else dec (n div 10) @ [digit_char (n mod 10)])"

declare dec.simps [simp del]

definition dec_int :: "int \<Rightarrow> string" where
  "dec_int i = (if i < 0 then CHR ''-'' # dec (nat (- i)) else dec (nat i))"

lemma digit_val_char: "d < 10 \<Longrightarrow> digit_val (digit_char d) = d"
  by (simp add: digit_val_def digit_char_def)

lemma is_digit_char: "d < 10 \<Longrightarrow> is_digit (digit_char d)"
  by (simp add: is_digit_def digit_char_def)

lemma digits_val_snoc: "digits_val (s @ [c]) = 10 * digits_val s + digit_val c"
  by (simp add: digits_val_def)

lemma digits_val_dec [simp]: "digits_val (dec n) = n"
proof (induction n rule: dec.induct)
  case (1 n)
  show ?case
  proof (cases "n < 10")
    case True
    then show ?thesis by (subst dec.simps) (simp add: digits_val_def digit_val_char)
  next
    case False
    then show ?thesis
      using "1.IH" by (subst dec.simps) (simp add: digits_val_snoc digit_val_char)
  qed
qed

lemma all_digits_dec [simp]: "all_digits (dec n)"
proof (induction n rule: dec.induct)
  case (1 n)
  then show ?case
    by (subst dec.simps) (auto simp: all_digits_def is_digit_char)
qed

lemma dec_inject [simp]: "dec m = dec n \<longleftrightarrow> m = n"
  by (metis digits_val_dec)

lemma parse_u64_dec: "n \<le> u64_max \<Longrightarrow> parse_u64 (dec n) = Some n"
proof -
  assume le: "n \<le> u64_max"
  obtain c cs where d: "dec n = c # cs"
    using all_digits_dec [of n] by (cases "dec n") (auto simp: all_digits_def)
  have "is_digit c"
    using all_digits_dec [of n] by (simp add: d all_digits_def)
  then have "c \<noteq> CHR ''+''"
    by (auto simp: is_digit_def)
  then show ?thesis
    using le all_digits_dec [of n] digits_val_dec [of n]
    by (simp add: parse_u64_def d)
qed

lemma parse_u64_bound: "parse_u64 s = Some n \<Longrightarrow> n \<le> u64_max"
  by (auto simp: parse_u64_def Let_def split: if_splits)

section \<open>Little-endian bytes\<close>

fun le_bytes :: "nat \<Rightarrow> nat \<Rightarrow> bytes" where
  "le_bytes 0 n = []"
| "le_bytes (Suc k) n = of_nat (n mod 256) # le_bytes k (n div 256)"

definition u64_le_bytes :: "nat \<Rightarrow> bytes" where
  "u64_le_bytes n = le_bytes 8 n"

fun le_value :: "bytes \<Rightarrow> nat" where
  "le_value [] = 0"
| "le_value (b # bs) = unat b + 256 * le_value bs"

lemma length_le_bytes [simp]: "length (le_bytes k n) = k"
  by (induction k arbitrary: n) simp_all

lemma length_u64_le_bytes [simp]: "length (u64_le_bytes n) = 8"
  by (simp add: u64_le_bytes_def)

lemma le_value_bytes: "n < 256 ^ k \<Longrightarrow> le_value (le_bytes k n) = n"
proof (induction k arbitrary: n)
  case (Suc k)
  have "unat (of_nat (n mod 256) :: byte) = n mod 256" by (simp add: unat_of_nat)
  moreover have "n div 256 < 256 ^ k" using Suc.prems by (simp add: less_mult_imp_div_less mult.commute)
  ultimately show ?case using Suc.IH by simp
qed simp

lemma u64_le_bytes_inject:
  assumes "m \<le> u64_max" "n \<le> u64_max" "u64_le_bytes m = u64_le_bytes n"
  shows "m = n"
proof -
  have small: "k < 256 ^ 8" if "k \<le> u64_max" for k :: nat
  proof -
    have "(256::nat) ^ 8 = (2 ^ 8) ^ 8" by (rule arg_cong [where f = "\<lambda>x. x ^ 8"]) simp
    also have "\<dots> = 2 ^ 64" by (simp only: flip: power_mult) simp
    finally have "u64_max < 256 ^ 8"
      unfolding u64_max_def by (metis diff_less zero_less_numeral zero_less_one zero_less_power)
    with that show ?thesis by (rule order.strict_trans1)
  qed
  have "le_value (u64_le_bytes m) = m" "le_value (u64_le_bytes n) = n"
    unfolding u64_le_bytes_def
    by (rule le_value_bytes [OF small [OF assms(1)]], rule le_value_bytes [OF small [OF assms(2)]])
  then show ?thesis
    using arg_cong [OF assms(3), of le_value] by metis
qed

section \<open>Characters and slices\<close>

text \<open>
  \<^verbatim>\<open>chars()\<close> cuts a string before every byte that is not a UTF-8 continuation byte; \<^verbatim>\<open>&s[..n]\<close>
  panics (\<^const>\<open>None\<close>) when \<open>n\<close> is past the end or inside a character.
\<close>

definition is_continuation :: "char \<Rightarrow> bool" where
  "is_continuation c \<longleftrightarrow> 128 \<le> (of_char c :: nat) \<and> (of_char c :: nat) < 192"

fun chars :: "string \<Rightarrow> string list" where
  "chars [] = []"
| "chars (c # cs) =
     (case chars cs of
        [] \<Rightarrow> [[c]]
      | w # ws \<Rightarrow> (case w of d # _ \<Rightarrow> if is_continuation d then (c # w) # ws else [c] # w # ws
                 | [] \<Rightarrow> [c] # ws))"

definition slice_to :: "nat \<Rightarrow> string \<Rightarrow> string option" where
  "slice_to n s =
     (if n > length s then None
      else if n < length s \<and> is_continuation (s ! n) then None
      else Some (take n s))"

definition is_ascii :: "string \<Rightarrow> bool" where
  "is_ascii s = list_all (\<lambda>c. (of_char c :: nat) < 128) s"

text \<open>A key \<^verbatim>\<open>format!("{}:{}", a, b)\<close> determines its parts when the first has no colon.\<close>

definition colon_key :: "string \<Rightarrow> string \<Rightarrow> string" where
  "colon_key a b = a @ '':'' @ b"

lemma colon_key_inject:
  assumes "CHR '':'' \<notin> set a" "CHR '':'' \<notin> set a'"
  shows "colon_key a b = colon_key a' b' \<longleftrightarrow> a = a' \<and> b = b'"
proof
  assume eq: "colon_key a b = colon_key a' b'"
  have cut: "takeWhile (\<lambda>c. c \<noteq> CHR '':'') (colon_key x y) = x" if "CHR '':'' \<notin> set x" for x y
    using that by (simp add: colon_key_def takeWhile_append)
  have "a = a'"
    using cut [OF assms(1), of b] cut [OF assms(2), of b'] eq by simp
  with eq show "a = a' \<and> b = b'"
    by (simp add: colon_key_def)
qed simp

end
