(* ===== verification/Models.thy ===== *)
theory Models
  imports Rust_Std
begin

text \<open>
  The data types of \<^verbatim>\<open>src/src/db/models.rs\<close>: the rows of the three tables and the plaintext
  structures the worker finds inside decrypted blobs, with the order state machine
  \<^verbatim>\<open>OrderData::state_transitions\<close>.
\<close>

section \<open>Table rows\<close>

record notification_tracker =
  tx_hash :: bytes
  nt_order_id :: bytes
  nt_buyer_pubkey :: bytes
  processed_at :: int

record order =
  o_id :: bytes
  encrypted_order_blob :: bytes
  o_day_bucket :: int
  expiry_bucket :: "int option"
  o_version :: int
  has_dispute :: int
  client_encrypted_blob :: "bytes option"
  dispute_client_blob :: "bytes option"
  chat_encrypted_blob :: "bytes option"

record listing =
  l_id :: bytes
  encrypted_listing_blob :: bytes
  l_day_bucket :: int
  search_token :: "bytes option"
  l_status :: string
  l_currency :: string
  l_version :: int

section \<open>Plaintext inside the blobs\<close>

record dispute_evidence_entry =
  ev_id :: string
  submitted_by :: string
  encrypted_content :: bytes
  content_type :: string
  ev_created_at :: int

record dispute_data =
  dd_id :: string
  opened_by :: string
  reason :: string
  resolution :: "string option"
  resolved_by :: "string option"
  resolved_at :: "int option"
  dd_created_at :: int
  evidence :: "dispute_evidence_entry list"

record chat_message_data =
  cm_id :: bytes
  sender_pubkey_hash :: bytes
  encrypted_body :: bytes
  cm_created_at :: int
  cm_expires_at :: int

record order_data =
  listing_id :: bytes
  buyer_pubkey_hash :: bytes
  seller_pubkey_hash :: bytes
  buyer_pubkey :: "string option"
  seller_pubkey :: "string option"
  order_state :: string
  currency :: string
  escrow_address :: "string option"
  escrow_amount :: "string option"
  time_lock_seconds :: int
  created_at :: int
  funded_at :: "int option"
  shipped_at :: "int option"
  confirmed_at :: "int option"
  released_at :: "int option"
  refunded_at :: "int option"
  expires_at :: "int option"
  disputed_at :: "int option"
  dispute_id :: "string option"
  owner_pubkey :: "string option"
  fee_percent :: "int option"
  fee_address :: "string option"
  dispute :: "dispute_data option"
  chat_messages :: "chat_message_data list"
  settlement_txid :: "string option"

record listing_data =
  ld_seller_pubkey_hash :: bytes
  ld_seller_pubkey :: "string option"
  encrypted_data :: bytes
  encrypted_search :: "bytes option"
  ld_currency :: string
  price_amount :: string
  ld_status :: string
  ld_created_at :: int
  ld_expires_at :: "int option"
  updated_at :: int

section \<open>The order state machine\<close>

definition transitions_of :: "string \<Rightarrow> string list" where
  "transitions_of s =
     (if s = ''pending'' then [''cancelled'', ''funded'']
      else if s = ''funded'' then [''shipped'', ''disputed'']
      else if s = ''shipped'' then [''confirmed'', ''disputed'']
      else if s = ''confirmed'' then [''released'']
      else if s = ''disputed'' then [''released'', ''refunded'']
      else [])"

definition state_transitions :: "order_data \<Rightarrow> string list" where
  "state_transitions d = transitions_of (order_state d)"

definition can_transition_to :: "order_data \<Rightarrow> string \<Rightarrow> bool" where
  "can_transition_to d new = List.member (state_transitions d) new"

text \<open>Reachability in the state machine, as an inductive relation over state names.\<close>

inductive order_path :: "string \<Rightarrow> string \<Rightarrow> bool" where
  stay: "order_path s s"
| step: "order_path s t \<Longrightarrow> List.member (transitions_of t) u \<Longrightarrow> order_path s u"

definition terminal_states :: "string list" where
  "terminal_states = [''cancelled'', ''released'', ''refunded'']"

definition known_states :: "string list" where
  "known_states = [''pending'', ''funded'', ''shipped'', ''confirmed'', ''disputed'',
                   ''cancelled'', ''released'', ''refunded'']"

lemma can_transition_iff [simp]:
  "can_transition_to d new \<longleftrightarrow> new \<in> set (transitions_of (order_state d))"
  by (simp add: can_transition_to_def state_transitions_def)

lemma transitions_known: "t \<in> set (transitions_of s) \<Longrightarrow> t \<in> set known_states"
  by (auto simp: transitions_of_def known_states_def split: if_splits)

lemma terminal_no_transition: "s \<in> set terminal_states \<Longrightarrow> transitions_of s = []"
  by (auto simp: transitions_of_def terminal_states_def)

lemma order_path_terminal: "order_path s t \<Longrightarrow> s \<in> set terminal_states \<Longrightarrow> t = s"
  by (induction rule: order_path.induct) (auto simp: terminal_no_transition)

lemma order_path_trans: "order_path t u \<Longrightarrow> order_path s t \<Longrightarrow> order_path s u"
  by (induction rule: order_path.induct) (auto intro: order_path.intros)

text \<open>A rank that every transition raises: the machine has no cycle.\<close>

definition state_rank :: "string \<Rightarrow> nat" where
  "state_rank s =
     (if s = ''pending'' then 0 else if s = ''funded'' then 1 else if s = ''shipped'' then 2
      else if s = ''confirmed'' \<or> s = ''disputed'' then 3 else 4)"

lemma transition_rank: "t \<in> set (transitions_of s) \<Longrightarrow> state_rank s < state_rank t"
  by (auto simp: transitions_of_def state_rank_def split: if_splits)

lemma order_path_rank: "order_path s t \<Longrightarrow> state_rank s \<le> state_rank t"
  by (induction rule: order_path.induct) (auto dest: transition_rank)

lemma order_path_antisym: "order_path s t \<Longrightarrow> order_path t s \<Longrightarrow> s = t"
proof (induction rule: order_path.cases)
  case (step s' t' u')
  then have "state_rank u' \<le> state_rank s'" "state_rank s' \<le> state_rank t'"
    by (auto dest: order_path_rank)
  with step show ?case by (auto dest: transition_rank)
qed simp

end
