(* ===== verification/External.thy ===== *)
theory External
  imports Models
begin

text \<open>
  Code outside the repository, as parameters: one record of the library functions the sources
  call (hex, base64, hashes, HMAC, the AEAD cipher, X25519, Ed25519, big-endian conversion of big
  integers, JSON and CBOR serialisation), and one record of what a request meets at run time (the
  clock, fresh random values, database errors).  Nothing is assumed of them here; the documented
  laws a property needs are the named predicates below, used as hypotheses.
\<close>

section \<open>Library functions\<close>

text \<open>The CBOR values the sources build (\<^verbatim>\<open>ciborium::value::Value\<close>).\<close>

datatype cbor_value =
    CborInteger int
  | CborBytes bytes
  | CborMap "(cbor_value \<times> cbor_value) list"

record ext =
  hex_encode :: "bytes \<Rightarrow> string"
  hex_decode :: "string \<Rightarrow> bytes option"
  b64_encode :: "bytes \<Rightarrow> string"
  b64_decode :: "string \<Rightarrow> string + bytes"  \<comment> \<open>\<open>Inl\<close>: the decode error's text\<close>
  sha256 :: "bytes \<Rightarrow> bytes"
  blake3 :: "bytes \<Rightarrow> bytes"
  hmac_sha256 :: "bytes \<Rightarrow> bytes \<Rightarrow> bytes option"  \<comment> \<open>\<open>None\<close>: \<open>new_from_slice\<close> refuses the key\<close>
  aead_encrypt :: "bytes \<Rightarrow> bytes \<Rightarrow> bytes \<Rightarrow> bytes option"  \<comment> \<open>key, nonce, plaintext\<close>
  aead_decrypt :: "bytes \<Rightarrow> bytes \<Rightarrow> bytes \<Rightarrow> bytes option"  \<comment> \<open>key, nonce, ciphertext\<close>
  x25519_public :: "bytes \<Rightarrow> bytes"
  x25519_dh :: "bytes \<Rightarrow> bytes \<Rightarrow> bytes"  \<comment> \<open>secret key, public key\<close>
  hkdf_sha256 :: "bytes \<Rightarrow> bytes \<Rightarrow> bytes option"  \<comment> \<open>input key material, info\<close>
  ed_public_ok :: "bytes \<Rightarrow> bool"  \<comment> \<open>\<open>VerifyingKey::from_bytes\<close> succeeds\<close>
  ed_verify :: "bytes \<Rightarrow> bytes \<Rightarrow> bytes \<Rightarrow> bool"  \<comment> \<open>public key, message, signature\<close>
  ed_sign :: "bytes \<Rightarrow> bytes \<Rightarrow> bytes"  \<comment> \<open>secret key, message\<close>
  from_bytes_be :: "bytes \<Rightarrow> nat"
  to_bytes_be :: "nat \<Rightarrow> bytes"
  extended_gcd :: "int \<Rightarrow> int \<Rightarrow> int \<times> int \<times> int"  \<comment> \<open>gcd and Bezout coefficients\<close>
  cbor_write :: "cbor_value \<Rightarrow> bytes option"  \<comment> \<open>\<open>ciborium::into_writer\<close> into a vector\<close>
  order_to_json :: "order_data \<Rightarrow> bytes option"  \<comment> \<open>\<open>serde_json::to_vec\<close>\<close>
  order_from_json :: "bytes \<Rightarrow> string + order_data"  \<comment> \<open>\<open>serde_json::from_slice\<close>\<close>
  listing_to_json :: "listing_data \<Rightarrow> bytes option"
  listing_from_json :: "bytes \<Rightarrow> string + listing_data"
  hex_error :: "string \<Rightarrow> string"  \<comment> \<open>the text of a failed \<open>hex::decode\<close>\<close>
  uuid_to_string :: "bytes \<Rightarrow> string"  \<comment> \<open>\<open>Uuid::to_string\<close>\<close>
  rsa_public_der :: "nat \<Rightarrow> nat \<Rightarrow> string + bytes"  \<comment> \<open>PKCS#1 DER of modulus and exponent\<close>
  unique_violation :: string  \<comment> \<open>SQLite's text for a duplicate primary key\<close>

section \<open>A request's environment\<close>

text \<open>
  \<open>unix_time\<close> is the clock when it is read, \<open>random_id\<close> the fresh UUID bytes, \<open>db_fault k\<close> the
  error of the handler's \<open>k\<close>-th SQL statement (counted from 0), if that statement fails.
\<close>

record env =
  unix_time :: int
  random_id :: bytes
  db_fault :: "nat \<Rightarrow> string option"

definition no_faults :: "env \<Rightarrow> bool" where
  "no_faults E \<longleftrightarrow> db_fault E = (\<lambda>_. None)"

lemma no_faultsD [simp]: "no_faults E \<Longrightarrow> db_fault E k = None"
  by (simp add: no_faults_def)

definition db_error :: "string \<Rightarrow> app_error" where
  "db_error e = Internal (''DB error: '' @ e)"

section \<open>Documented laws of the libraries\<close>

definition hex_ok :: "ext \<Rightarrow> bool" where
  "hex_ok L \<longleftrightarrow> (\<forall>b. hex_decode L (hex_encode L b) = Some b)
     \<and> (\<forall>s b. hex_decode L s = Some b \<longrightarrow> CHR '':'' \<notin> set s \<and> length s = 2 * length b)"

definition b64_ok :: "ext \<Rightarrow> bool" where
  "b64_ok L \<longleftrightarrow> (\<forall>b. b64_decode L (b64_encode L b) = Inr b)"

definition aead_ok :: "ext \<Rightarrow> bool" where
  "aead_ok L \<longleftrightarrow> (\<forall>k n p c. aead_encrypt L k n p = Some c \<longrightarrow>
      aead_decrypt L k n c = Some p \<and> length c = length p + 16)"

definition x25519_ok :: "ext \<Rightarrow> bool" where
  "x25519_ok L \<longleftrightarrow> (\<forall>a b. x25519_dh L a (x25519_public L b) = x25519_dh L b (x25519_public L a))
     \<and> (\<forall>a. length (x25519_public L a) = 32)"

definition ed_ok :: "ext \<Rightarrow> (bytes \<Rightarrow> bytes) \<Rightarrow> bool" where
  "ed_ok L pub \<longleftrightarrow> (\<forall>sk m. ed_public_ok L (pub sk) \<and> ed_verify L (pub sk) m (ed_sign L sk m)
     \<and> length (ed_sign L sk m) = 64)"

definition be_ok :: "ext \<Rightarrow> bool" where
  "be_ok L \<longleftrightarrow> (\<forall>n. from_bytes_be L (to_bytes_be L n) = n)"

definition egcd_ok :: "ext \<Rightarrow> bool" where
  "egcd_ok L \<longleftrightarrow> (\<forall>a b g x y. 0 \<le> a \<longrightarrow> 0 \<le> b \<longrightarrow> extended_gcd L a b = (g, x, y) \<longrightarrow>
     g = gcd a b \<and> a * x + b * y = g)"

definition cbor_ok :: "ext \<Rightarrow> bool" where
  "cbor_ok L \<longleftrightarrow> (\<forall>v. cbor_write L v \<noteq> None) \<and> inj (cbor_write L)"

definition json_ok :: "ext \<Rightarrow> bool" where
  "json_ok L \<longleftrightarrow> (\<forall>d j. order_to_json L d = Some j \<longrightarrow> order_from_json L j = Inr d)
     \<and> (\<forall>d j. listing_to_json L d = Some j \<longrightarrow> listing_from_json L j = Inr d)"

lemma order_json_roundtrip: "json_ok L \<Longrightarrow> order_to_json L d = Some j \<Longrightarrow> order_from_json L j = Inr d"
  by (auto simp: json_ok_def)

lemma listing_json_roundtrip:
  "json_ok L \<Longrightarrow> listing_to_json L d = Some j \<Longrightarrow> listing_from_json L j = Inr d"
  by (auto simp: json_ok_def)

lemma hex_roundtrip [simp]: "hex_ok L \<Longrightarrow> hex_decode L (hex_encode L b) = Some b"
  by (simp add: hex_ok_def)

lemma hex_no_colon: "hex_ok L \<Longrightarrow> hex_decode L s = Some b \<Longrightarrow> CHR '':'' \<notin> set s"
  by (auto simp: hex_ok_def)

lemma hex_length: "hex_ok L \<Longrightarrow> hex_decode L s = Some b \<Longrightarrow> length s = 2 * length b"
  by (auto simp: hex_ok_def)

lemma b64_roundtrip [simp]: "b64_ok L \<Longrightarrow> b64_decode L (b64_encode L b) = Inr b"
  by (simp add: b64_ok_def)

lemma aead_roundtrip: "aead_ok L \<Longrightarrow> aead_encrypt L k n p = Some c \<Longrightarrow> aead_decrypt L k n c = Some p"
  by (auto simp: aead_ok_def)

lemma aead_length: "aead_ok L \<Longrightarrow> aead_encrypt L k n p = Some c \<Longrightarrow> length c = length p + 16"
  by (auto simp: aead_ok_def)

lemma be_roundtrip [simp]: "be_ok L \<Longrightarrow> from_bytes_be L (to_bytes_be L n) = n"
  by (simp add: be_ok_def)

section \<open>A concrete instance for witnesses\<close>

text \<open>
  Executable stand-ins that satisfy the laws: hexadecimal digits, the identity in place of base64
  (byte by byte as characters), a cipher that appends its 16-byte tag, a commutative toy group
  for X25519, and signatures that carry a 64-byte pattern.  They show the hypotheses can hold
  together; no claim about the program rests on them.
\<close>

definition char_of_byte :: "byte \<Rightarrow> char" where
  "char_of_byte b = char_of (unat b)"

definition nibble_char :: "nat \<Rightarrow> char" where
  "nibble_char n = (if n < 10 then char_of (48 + n) else char_of (87 + n))"

definition nibble_val :: "char \<Rightarrow> nat option" where
  "nibble_val c = (let n = (of_char c :: nat) in
     if 48 \<le> n \<and> n \<le> 57 then Some (n - 48)
     else if 97 \<le> n \<and> n \<le> 102 then Some (n - 87)
     else if 65 \<le> n \<and> n \<le> 70 then Some (n - 55) else None)"

definition demo_hex :: "bytes \<Rightarrow> string" where
  "demo_hex bs = concat (map (\<lambda>b. [nibble_char (unat b div 16), nibble_char (unat b mod 16)]) bs)"

fun demo_unhex :: "string \<Rightarrow> bytes option" where
  "demo_unhex [] = Some []"
| "demo_unhex [c] = None"
| "demo_unhex (c # d # cs) =
     (case (nibble_val c, nibble_val d, demo_unhex cs) of
        (Some h, Some l, Some bs) \<Rightarrow> Some (of_nat (16 * h + l) # bs)
      | _ \<Rightarrow> None)"

fun demo_from_be :: "bytes \<Rightarrow> nat \<Rightarrow> nat" where
  "demo_from_be [] a = a"
| "demo_from_be (b # bs) a = demo_from_be bs (256 * a + unat b)"

fun demo_to_be :: "nat \<Rightarrow> bytes" where
  "demo_to_be n = (if n = 0 then [] else demo_to_be (n div 256) @ [of_nat (n mod 256)])"

declare demo_to_be.simps [simp del]

fun demo_nat :: "nat \<Rightarrow> bytes" where
  "demo_nat 0 = [0]"
| "demo_nat (Suc n) = 1 # demo_nat n"

definition demo_int :: "int \<Rightarrow> bytes" where
  "demo_int i = (if i < 0 then 1 # demo_nat (nat (- i)) else 0 # demo_nat (nat i))"

fun demo_cbor :: "cbor_value \<Rightarrow> bytes" where
  "demo_cbor (CborInteger i) = 0 # demo_int i"
| "demo_cbor (CborBytes b) = 1 # demo_nat (length b) @ b"
| "demo_cbor (CborMap []) = [2, 0]"
| "demo_cbor (CborMap (kv # kvs)) =
     2 # 1 # demo_cbor (fst kv) @ demo_cbor (snd kv) @ demo_cbor (CborMap kvs)"

text \<open>JSON as the position in a list of known values.\<close>

definition demo_to_json :: "'a list \<Rightarrow> 'a \<Rightarrow> bytes option" where
  "demo_to_json ds d = map_option (\<lambda>i. replicate i 0) (find (\<lambda>i. ds ! i = d) [0..<length ds])"

definition demo_from_json :: "'a list \<Rightarrow> bytes \<Rightarrow> string + 'a" where
  "demo_from_json ds j = (if length j < length ds then Inr (ds ! length j) else Inl ''unknown'')"

definition demo_ext :: ext where
  "demo_ext = \<lparr>
     hex_encode = demo_hex, hex_decode = demo_unhex,
     b64_encode = map char_of_byte, b64_decode = (\<lambda>s. Inr (as_bytes s)),
     sha256 = (\<lambda>m. replicate 31 0 @ [of_nat (length m)]),
     blake3 = (\<lambda>m. replicate 32 (of_nat (length m))),
     hmac_sha256 = (\<lambda>k m. Some (replicate 32 (of_nat (length k + length m)))),
     aead_encrypt = (\<lambda>k n p. Some (p @ replicate 16 7)),
     aead_decrypt = (\<lambda>k n c. if length c < 16 \<or> drop (length c - 16) c \<noteq> replicate 16 7 then None
                              else Some (take (length c - 16) c)),
     x25519_public = (\<lambda>a. replicate 32 (of_nat (length a))),
     x25519_dh = (\<lambda>a b. replicate 32 0),
     hkdf_sha256 = (\<lambda>ikm info. Some (replicate 32 1)),
     ed_public_ok = (\<lambda>pk. True),
     ed_verify = (\<lambda>pk m s. s = replicate 64 9),
     ed_sign = (\<lambda>sk m. replicate 64 9),
     from_bytes_be = (\<lambda>bs. demo_from_be bs 0), to_bytes_be = demo_to_be,
     extended_gcd = (\<lambda>a b. (gcd a b, fst (bezw (nat a) (nat b)), snd (bezw (nat a) (nat b)))),
     cbor_write = (\<lambda>v. Some (demo_cbor v)),
     order_to_json = demo_to_json [], order_from_json = demo_from_json [],
     listing_to_json = demo_to_json [], listing_from_json = demo_from_json [],
     hex_error = (\<lambda>s. ''Invalid character''), uuid_to_string = demo_hex,
     rsa_public_der = (\<lambda>n e. Inr (demo_to_be n @ demo_to_be e)),
     unique_violation = ''UNIQUE constraint failed''\<rparr>"

lemma demo_ext_sel:
  "hex_encode demo_ext = demo_hex"
  "hex_decode demo_ext = demo_unhex"
  "b64_encode demo_ext = map char_of_byte"
  "b64_decode demo_ext = (\<lambda>s. Inr (as_bytes s))"
  "sha256 demo_ext = (\<lambda>m. replicate 31 0 @ [of_nat (length m)])"
  "blake3 demo_ext = (\<lambda>m. replicate 32 (of_nat (length m)))"
  "hmac_sha256 demo_ext = (\<lambda>k m. Some (replicate 32 (of_nat (length k + length m))))"
  "aead_encrypt demo_ext = (\<lambda>k n p. Some (p @ replicate 16 7))"
  "aead_decrypt demo_ext = (\<lambda>k n c. if length c < 16 \<or> drop (length c - 16) c \<noteq> replicate 16 7 then None else Some (take (length c - 16) c))"
  "x25519_public demo_ext = (\<lambda>a. replicate 32 (of_nat (length a)))"
  "x25519_dh demo_ext = (\<lambda>a b. replicate 32 0)"
  "hkdf_sha256 demo_ext = (\<lambda>ikm info. Some (replicate 32 1))"
  "ed_public_ok demo_ext = (\<lambda>pk. True)"
  "ed_verify demo_ext = (\<lambda>pk m s. s = replicate 64 9)"
  "ed_sign demo_ext = (\<lambda>sk m. replicate 64 9)"
  "from_bytes_be demo_ext = (\<lambda>bs. demo_from_be bs 0)"
  "to_bytes_be demo_ext = demo_to_be"
  "extended_gcd demo_ext = (\<lambda>a b. (gcd a b, fst (bezw (nat a) (nat b)), snd (bezw (nat a) (nat b))))"
  "cbor_write demo_ext = (\<lambda>v. Some (demo_cbor v))"
  "order_to_json demo_ext = demo_to_json []"
  "order_from_json demo_ext = demo_from_json []"
  "listing_to_json demo_ext = demo_to_json []"
  "listing_from_json demo_ext = demo_from_json []"
  "hex_error demo_ext = (\<lambda>s. ''Invalid character'')"
  "uuid_to_string demo_ext = demo_hex"
  "rsa_public_der demo_ext = (\<lambda>n e. Inr (demo_to_be n @ demo_to_be e))"
  "unique_violation demo_ext = ''UNIQUE constraint failed''"
  by (simp_all add: demo_ext_def)

lemma nibble_val_char: "n < 16 \<Longrightarrow> nibble_val (nibble_char n) = Some n"
  by (simp add: nibble_val_def nibble_char_def Let_def)

lemma demo_unhex_hex: "demo_unhex (demo_hex bs) = Some bs"
proof (induction bs)
  case Nil
  then show ?case by (simp add: demo_hex_def)
next
  case (Cons b bs)
  have lt: "unat b < 256" using unsigned_less [of b] by simp
  have "unat b div 16 < 16" using lt by simp
  moreover have "(of_nat (16 * (unat b div 16) + unat b mod 16) :: byte) = b"
    by (simp only: mult_div_mod_eq) simp
  ultimately show ?case
    using Cons.IH by (simp add: demo_hex_def nibble_val_char del: of_nat_add of_nat_mult)
qed

lemma demo_unhex_Some:
  "demo_unhex s = Some b \<Longrightarrow> CHR '':'' \<notin> set s \<and> length s = 2 * length b"
  by (induction s arbitrary: b rule: demo_unhex.induct)
     (auto simp: nibble_val_def Let_def split: option.splits if_splits)

lemma demo_hex_ok: "hex_ok demo_ext"
  using demo_unhex_Some by (simp add: hex_ok_def demo_ext_def demo_unhex_hex)

lemma demo_b64_ok: "b64_ok demo_ext"
proof -
  have "as_bytes (map char_of_byte b) = b" for b
  proof (induction b)
    case (Cons x b)
    have "unat x < 256" using unsigned_less [of x] by simp
    with Cons show ?case by (simp add: as_bytes_def char_of_byte_def)
  qed (simp add: as_bytes_def)
  then show ?thesis by (simp add: b64_ok_def demo_ext_def)
qed

lemma demo_aead_ok: "aead_ok demo_ext"
  by (simp add: aead_ok_def demo_ext_def)

lemma demo_x25519_ok: "x25519_ok demo_ext"
  by (simp add: x25519_ok_def demo_ext_def)

lemma demo_ed_ok: "ed_ok demo_ext (\<lambda>_. replicate 32 0)"
  by (simp add: ed_ok_def demo_ext_def)

lemma demo_from_be_snoc: "demo_from_be (bs @ [b]) a = 256 * demo_from_be bs a + unat b"
  by (induction bs arbitrary: a) simp_all

lemma demo_be_ok: "be_ok demo_ext"
proof -
  have "demo_from_be (demo_to_be n) 0 = n" for n
  proof (induction n rule: demo_to_be.induct)
    case (1 n)
    have "unat (of_nat (n mod 256) :: byte) = n mod 256"
      by (simp add: unat_of_nat)
    with 1 show ?case
      by (subst demo_to_be.simps) (simp add: demo_from_be_snoc)
  qed
  then show ?thesis by (simp add: be_ok_def demo_ext_def)
qed

lemma demo_egcd_ok: "egcd_ok demo_ext"
proof -
  have "a * fst (bezw (nat a) (nat b)) + b * snd (bezw (nat a) (nat b)) = gcd a b"
    if "0 \<le> a" "0 \<le> b" for a b :: int
    using bezw_aux [of "nat a" "nat b"] that by (simp add: gcd_int_def mult.commute)
  then show ?thesis
    by (simp add: egcd_ok_def demo_ext_def prod_eq_iff)
qed

lemma demo_nat_prefix: "demo_nat m @ xs = demo_nat n @ ys \<longleftrightarrow> m = n \<and> xs = ys"
proof (induction m arbitrary: n)
  case 0
  then show ?case by (cases n) auto
next
  case (Suc m)
  then show ?case by (cases n) auto
qed

lemma demo_int_prefix: "demo_int i @ xs = demo_int j @ ys \<longleftrightarrow> i = j \<and> xs = ys"
  by (auto simp: demo_int_def demo_nat_prefix)

lemma demo_cbor_prefix: "demo_cbor v @ xs = demo_cbor w @ ys \<longleftrightarrow> v = w \<and> xs = ys"
proof (induction v arbitrary: w xs ys rule: demo_cbor.induct)
  case (1 i)
  then show ?case by (cases w rule: demo_cbor.cases) (auto simp: demo_int_prefix)
next
  case (2 b)
  have "demo_nat (length b) @ b @ xs = demo_nat (length c) @ c @ ys \<longleftrightarrow> b = c \<and> xs = ys" for c
    by (auto simp: demo_nat_prefix)
  then show ?case by (cases w rule: demo_cbor.cases) auto
next
  case 3
  then show ?case by (cases w rule: demo_cbor.cases) auto
next
  case (4 kv kvs)
  then show ?case by (cases w rule: demo_cbor.cases) (auto simp: prod_eq_iff)
qed

lemma demo_cbor_ok: "cbor_ok demo_ext"
proof -
  have "demo_cbor v = demo_cbor w \<Longrightarrow> v = w" for v w
    using demo_cbor_prefix [of v "[]" w "[]"] by simp
  then show ?thesis by (auto simp: cbor_ok_def demo_ext_def inj_def)
qed

lemma demo_json_roundtrip: "demo_to_json ds d = Some j \<Longrightarrow> demo_from_json ds j = Inr d"
  by (auto simp: demo_to_json_def demo_from_json_def find_Some_iff)

lemma demo_json_ok: "json_ok (demo_ext\<lparr>order_to_json := demo_to_json ds, order_from_json := demo_from_json ds,
    listing_to_json := demo_to_json ls, listing_from_json := demo_from_json ls\<rparr>)"
  by (simp add: json_ok_def demo_json_roundtrip)

end
