(* ===== verification/Table.thy ===== *)
theory Table
  imports External
begin

text \<open>
  Tables as lists of rows in insertion order, and the SQL statements the sources issue on them.
  Every UPDATE of an order or a listing row is the optimistic
  \<^verbatim>\<open>UPDATE t SET ..., version = version + 1 WHERE id = ? AND version = ?\<close>; its laws are proved once,
  in the locale \<open>versioned_table\<close>, and interpreted for both tables.
\<close>

section \<open>Statements on a keyed table\<close>

definition select_by :: "('r \<Rightarrow> 'k) \<Rightarrow> 'k \<Rightarrow> 'r list \<Rightarrow> 'r option" where
  "select_by key i rows = find (\<lambda>r. key r = i) rows"

text \<open>\<^verbatim>\<open>INSERT\<close>: \<^const>\<open>None\<close> when the primary key is taken.\<close>

definition insert_row :: "('r \<Rightarrow> 'k) \<Rightarrow> 'r \<Rightarrow> 'r list \<Rightarrow> 'r list option" where
  "insert_row key r rows = (if key r \<in> set (map key rows) then None else Some (rows @ [r]))"

text \<open>The conditional UPDATE, with the number of rows it affected.\<close>

definition cas_update ::
    "('r \<Rightarrow> 'k) \<Rightarrow> ('r \<Rightarrow> int) \<Rightarrow> ('w \<Rightarrow> 'r \<Rightarrow> 'r) \<Rightarrow> 'w \<Rightarrow> 'k \<Rightarrow> int \<Rightarrow> 'r list \<Rightarrow> 'r list \<times> nat" where
  "cas_update key ver app w i v rows =
     (map (\<lambda>r. if key r = i \<and> ver r = v then app w r else r) rows,
      length (filter (\<lambda>r. key r = i \<and> ver r = v) rows))"

lemma select_by_Some: "select_by key i rows = Some r \<Longrightarrow> r \<in> set rows \<and> key r = i"
  by (auto simp: select_by_def find_Some_iff)

lemma select_by_None: "select_by key i rows = None \<longleftrightarrow> i \<notin> key ` set rows"
  by (auto simp: select_by_def find_None_iff)

lemma select_by_eq:
  "distinct (map key rows) \<Longrightarrow> r \<in> set rows \<Longrightarrow> key r = i \<Longrightarrow> select_by key i rows = Some r"
  by (induction rows) (auto simp: select_by_def)

lemma select_by_append:
  "select_by key i (rows @ rows') =
     (case select_by key i rows of Some r \<Rightarrow> Some r | None \<Rightarrow> select_by key i rows')"
  by (induction rows) (auto simp: select_by_def)

lemma insert_row_Some:
  "insert_row key r rows = Some rows' \<longleftrightarrow> key r \<notin> key ` set rows \<and> rows' = rows @ [r]"
  by (auto simp: insert_row_def)

lemma insert_row_distinct:
  "insert_row key r rows = Some rows' \<Longrightarrow> distinct (map key rows) \<Longrightarrow> distinct (map key rows')"
  by (auto simp: insert_row_Some)

lemma select_inserted:
  assumes "insert_row key r rows = Some rows'"
  shows "select_by key (key r) rows' = Some r"
proof -
  have "key r \<notin> key ` set rows" "rows' = rows @ [r]" using assms by (auto simp: insert_row_Some)
  moreover from this(1) have "select_by key (key r) rows = None" by (simp add: select_by_None)
  ultimately show ?thesis by (simp add: select_by_append) (simp add: select_by_def)
qed

section \<open>Evolution of a versioned table\<close>

text \<open>
  What every statement of the program promises about a table: rows are never removed, a row's
  version never decreases, and a row whose version is unchanged is unchanged.  The last clause is
  what makes the version check a sound lost-update guard.
\<close>

definition evolves :: "('r \<Rightarrow> 'k) \<Rightarrow> ('r \<Rightarrow> int) \<Rightarrow> 'r list \<Rightarrow> 'r list \<Rightarrow> bool" where
  "evolves key ver rows rows' \<longleftrightarrow>
     (\<forall>i r. select_by key i rows = Some r \<longrightarrow>
        (\<exists>r'. select_by key i rows' = Some r' \<and> ver r \<le> ver r' \<and> (ver r' = ver r \<longrightarrow> r' = r)))"

lemma evolves_refl [simp, intro]: "evolves key ver rows rows"
  by (auto simp: evolves_def)

lemma evolves_trans:
  assumes "evolves key ver a b" "evolves key ver b c"
  shows "evolves key ver a c"
  unfolding evolves_def
proof (intro allI impI)
  fix i r
  assume "select_by key i a = Some r"
  with assms(1) obtain r1 where r1: "select_by key i b = Some r1" "ver r \<le> ver r1"
    "ver r1 = ver r \<longrightarrow> r1 = r"
    by (auto simp: evolves_def)
  with assms(2) obtain r2 where "select_by key i c = Some r2" "ver r1 \<le> ver r2"
    "ver r2 = ver r1 \<longrightarrow> r2 = r1"
    by (auto simp: evolves_def)
  with r1 show "\<exists>r'. select_by key i c = Some r' \<and> ver r \<le> ver r' \<and> (ver r' = ver r \<longrightarrow> r' = r)"
    by auto
qed

lemma evolves_insert: "insert_row key r rows = Some rows' \<Longrightarrow> evolves key ver rows rows'"
  by (auto simp: evolves_def insert_row_Some select_by_append split: option.splits)

lemma evolvesD:
  assumes "evolves key ver rows rows'" "select_by key i rows = Some r"
  obtains r' where "select_by key i rows' = Some r'" "ver r \<le> ver r'" "ver r' = ver r \<Longrightarrow> r' = r"
  using assms by (auto simp: evolves_def)

section \<open>The interface of a versioned table\<close>

locale versioned_table =
  fixes key :: "'r \<Rightarrow> 'k" and ver :: "'r \<Rightarrow> int" and app :: "'w \<Rightarrow> 'r \<Rightarrow> 'r"
  assumes key_app: "key (app w r) = key r"
    and ver_app: "ver (app w r) = ver r + 1"
begin

lemma keys_cas: "map key (fst (cas_update key ver app w i v rows)) = map key rows"
  by (induction rows) (auto simp: cas_update_def key_app)

lemma length_cas: "length (fst (cas_update key ver app w i v rows)) = length rows"
  by (simp add: cas_update_def)

lemma select_cas:
  "select_by key j (fst (cas_update key ver app w i v rows)) =
     map_option (\<lambda>r. if key r = i \<and> ver r = v then app w r else r) (select_by key j rows)"
  by (induction rows) (auto simp: cas_update_def select_by_def key_app)

lemma select_cas_other:
  "j \<noteq> i \<Longrightarrow> select_by key j (fst (cas_update key ver app w i v rows)) = select_by key j rows"
  by (cases "select_by key j rows") (auto simp: select_cas dest: select_by_Some)

lemma affected_0_iff:
  "snd (cas_update key ver app w i v rows) = 0 \<longleftrightarrow> (\<forall>r\<in>set rows. \<not> (key r = i \<and> ver r = v))"
  by (auto simp: cas_update_def filter_empty_conv)

lemma affected_0_unchanged:
  "snd (cas_update key ver app w i v rows) = 0 \<Longrightarrow> fst (cas_update key ver app w i v rows) = rows"
  unfolding affected_0_iff by (simp only: cas_update_def fst_conv) (rule map_idI, auto)

lemma affected_le_1:
  "distinct (map key rows) \<Longrightarrow> snd (cas_update key ver app w i v rows) \<le> 1"
proof (induction rows)
  case (Cons r rows)
  show ?case
  proof (cases "key r = i \<and> ver r = v")
    case True
    then have "filter (\<lambda>r. key r = i \<and> ver r = v) rows = []"
      using Cons.prems True by (auto simp: filter_empty_conv image_iff)
    then show ?thesis by (simp add: cas_update_def)
  next
    case False
    with Cons show ?thesis by (auto simp: cas_update_def)
  qed
qed (simp add: cas_update_def)

lemma affected_pos:
  assumes "distinct (map key rows)"
  shows "snd (cas_update key ver app w i v rows) > 0 \<longleftrightarrow>
     (\<exists>r. select_by key i rows = Some r \<and> ver r = v)"
proof -
  have "(\<exists>r\<in>set rows. key r = i \<and> ver r = v) \<longleftrightarrow>
      (\<exists>r. select_by key i rows = Some r \<and> ver r = v)"
    using assms by (blast intro: select_by_eq dest: select_by_Some)
  then show ?thesis
    using affected_0_iff [of w i v rows] by (metis gr0I less_numeral_extra(3))
qed

lemma cas_success:
  assumes "distinct (map key rows)" "snd (cas_update key ver app w i v rows) > 0"
  obtains r where "select_by key i rows = Some r" "ver r = v"
    "select_by key i (fst (cas_update key ver app w i v rows)) = Some (app w r)"
    "ver (app w r) = v + 1"
proof -
  from assms obtain r where r: "select_by key i rows = Some r" "ver r = v"
    by (auto simp: affected_pos)
  then have "select_by key i (fst (cas_update key ver app w i v rows)) = Some (app w r)"
    by (auto simp: select_cas dest: select_by_Some)
  with r show thesis by (intro that) (auto simp: ver_app)
qed

lemma evolves_cas: "evolves key ver rows (fst (cas_update key ver app w i v rows))"
  by (auto simp: evolves_def select_cas ver_app)

text \<open>
  No lost update: a writer that read row \<open>r\<close> before, and whose conditional UPDATE affects a row
  after any evolution of the table, updates exactly the row it read.
\<close>

lemma no_lost_update:
  assumes read: "select_by key i rows = Some r"
    and ev: "evolves key ver rows rows'"
    and dist: "distinct (map key rows')"
    and hit: "snd (cas_update key ver app w i (ver r) rows') > 0"
  shows "select_by key i rows' = Some r"
    and "select_by key i (fst (cas_update key ver app w i (ver r) rows')) = Some (app w r)"
proof -
  from ev read obtain r' where r': "select_by key i rows' = Some r'" "ver r' = ver r \<Longrightarrow> r' = r"
    by (auto simp: evolves_def)
  from dist hit have "ver r' = ver r"
    using r'(1) by (auto simp: affected_pos)
  with r' show "select_by key i rows' = Some r" by simp
  then show "select_by key i (fst (cas_update key ver app w i (ver r) rows')) = Some (app w r)"
    by (auto simp: select_cas dest: select_by_Some)
qed

text \<open>Of two writers that read the same version, at most one commits.\<close>

lemma one_winner:
  assumes "distinct (map key rows)"
    and "snd (cas_update key ver app w i v rows) > 0"
    and "evolves key ver (fst (cas_update key ver app w i v rows)) rows'"
    and "distinct (map key rows')"
  shows "snd (cas_update key ver app w' i v rows') = 0"
proof -
  from assms(1,2) obtain r where "select_by key i (fst (cas_update key ver app w i v rows)) = Some (app w r)"
    "ver (app w r) = v + 1"
    by (rule cas_success)
  with assms(3) obtain r' where "select_by key i rows' = Some r'" "v + 1 \<le> ver r'"
    by (auto elim: evolvesD)
  with assms(4) have "\<not> snd (cas_update key ver app w' i v rows') > 0"
    by (auto simp: affected_pos)
  then show ?thesis by simp
qed

end

section \<open>The orders table\<close>

text \<open>
  One constructor for each \<^verbatim>\<open>SET\<close> clause of an \<^verbatim>\<open>UPDATE orders\<close> in the sources.
\<close>

datatype order_write =
    SetOrderBlob bytes                     \<comment> \<open>\<open>update_order\<close>, \<open>mark_order_cancelled\<close>\<close>
  | SetBlobExpiry bytes "int option"       \<comment> \<open>the worker's other writes\<close>
  | OpenDispute bytes
  | UpdateDispute bytes
  | ResolveDispute bytes
  | SetChat bytes

fun order_set :: "order_write \<Rightarrow> order \<Rightarrow> order" where
  "order_set (SetOrderBlob b) r = r\<lparr>encrypted_order_blob := b\<rparr>"
| "order_set (SetBlobExpiry b e) r = r\<lparr>encrypted_order_blob := b, expiry_bucket := e\<rparr>"
| "order_set (OpenDispute b) r = r\<lparr>dispute_client_blob := Some b, has_dispute := 1\<rparr>"
| "order_set (UpdateDispute b) r = r\<lparr>dispute_client_blob := Some b\<rparr>"
| "order_set (ResolveDispute b) r = r\<lparr>dispute_client_blob := Some b, has_dispute := 0\<rparr>"
| "order_set (SetChat b) r = r\<lparr>chat_encrypted_blob := Some b\<rparr>"

definition apply_order_write :: "order_write \<Rightarrow> order \<Rightarrow> order" where
  "apply_order_write w r = (order_set w r)\<lparr>o_version := o_version r + 1\<rparr>"

type_synonym orders = "order list"

abbreviation select_order :: "bytes \<Rightarrow> orders \<Rightarrow> order option" where
  "select_order \<equiv> select_by o_id"

definition update_orders :: "order_write \<Rightarrow> bytes \<Rightarrow> int \<Rightarrow> orders \<Rightarrow> orders \<times> nat" where
  "update_orders = cas_update o_id o_version apply_order_write"

text \<open>The columns \<^verbatim>\<open>INSERT INTO orders\<close> leaves out take the defaults of the migrations.\<close>

definition new_order_row :: "bytes \<Rightarrow> bytes \<Rightarrow> int \<Rightarrow> int option \<Rightarrow> order" where
  "new_order_row i b day expiry =
     \<lparr>o_id = i, encrypted_order_blob = b, o_day_bucket = day, expiry_bucket = expiry, o_version = 1,
      has_dispute = 0, client_encrypted_blob = None, dispute_client_blob = None,
      chat_encrypted_blob = None\<rparr>"

definition insert_order :: "order \<Rightarrow> orders \<Rightarrow> orders option" where
  "insert_order = insert_row o_id"

definition orders_wf :: "orders \<Rightarrow> bool" where
  "orders_wf rows \<longleftrightarrow> distinct (map o_id rows)"

abbreviation orders_evolve :: "orders \<Rightarrow> orders \<Rightarrow> bool" where
  "orders_evolve \<equiv> evolves o_id o_version"

lemma order_set_id [simp]: "o_id (order_set w r) = o_id r"
  by (cases w) simp_all

lemma order_set_day [simp]: "o_day_bucket (order_set w r) = o_day_bucket r"
  by (cases w) simp_all

interpretation ord: versioned_table o_id o_version apply_order_write
  by unfold_locales (simp_all add: apply_order_write_def)

lemma orders_wf_update: "orders_wf rows \<Longrightarrow> orders_wf (fst (update_orders w i v rows))"
  by (simp add: orders_wf_def update_orders_def ord.keys_cas)

lemma orders_wf_insert: "insert_order r rows = Some rows' \<Longrightarrow> orders_wf rows \<Longrightarrow> orders_wf rows'"
  by (simp add: orders_wf_def insert_order_def insert_row_distinct)

lemma orders_evolve_update: "orders_evolve rows (fst (update_orders w i v rows))"
  by (simp add: update_orders_def ord.evolves_cas)

lemma orders_evolve_insert: "insert_order r rows = Some rows' \<Longrightarrow> orders_evolve rows rows'"
  by (simp add: insert_order_def evolves_insert)

section \<open>The listings table\<close>

datatype listing_write =
    SetListing bytes "bytes option" string string  \<comment> \<open>\<open>update_listing\<close>: blob, token, status, currency\<close>
  | ExpireListing bytes                            \<comment> \<open>\<open>check_listing_expiry\<close>: blob, status \<open>expired\<close>\<close>

fun listing_set :: "listing_write \<Rightarrow> listing \<Rightarrow> listing" where
  "listing_set (SetListing b t s c) r =
     r\<lparr>encrypted_listing_blob := b, search_token := t, l_status := s, l_currency := c\<rparr>"
| "listing_set (ExpireListing b) r = r\<lparr>encrypted_listing_blob := b, l_status := ''expired''\<rparr>"

definition apply_listing_write :: "listing_write \<Rightarrow> listing \<Rightarrow> listing" where
  "apply_listing_write w r = (listing_set w r)\<lparr>l_version := l_version r + 1\<rparr>"

type_synonym listings = "listing list"

abbreviation select_listing :: "bytes \<Rightarrow> listings \<Rightarrow> listing option" where
  "select_listing \<equiv> select_by l_id"

definition update_listings :: "listing_write \<Rightarrow> bytes \<Rightarrow> int \<Rightarrow> listings \<Rightarrow> listings \<times> nat" where
  "update_listings = cas_update l_id l_version apply_listing_write"

definition insert_listing :: "listing \<Rightarrow> listings \<Rightarrow> listings option" where
  "insert_listing = insert_row l_id"

definition listings_wf :: "listings \<Rightarrow> bool" where
  "listings_wf rows \<longleftrightarrow> distinct (map l_id rows)"

abbreviation listings_evolve :: "listings \<Rightarrow> listings \<Rightarrow> bool" where
  "listings_evolve \<equiv> evolves l_id l_version"

lemma listing_set_id [simp]: "l_id (listing_set w r) = l_id r"
  by (cases w) simp_all

interpretation lst: versioned_table l_id l_version apply_listing_write
  by unfold_locales (simp_all add: apply_listing_write_def)

lemma listings_wf_update: "listings_wf rows \<Longrightarrow> listings_wf (fst (update_listings w i v rows))"
  by (simp add: listings_wf_def update_listings_def lst.keys_cas)

lemma listings_wf_insert:
  "insert_listing r rows = Some rows' \<Longrightarrow> listings_wf rows \<Longrightarrow> listings_wf rows'"
  by (simp add: listings_wf_def insert_listing_def insert_row_distinct)

lemma listings_evolve_update: "listings_evolve rows (fst (update_listings w i v rows))"
  by (simp add: update_listings_def lst.evolves_cas)

lemma listings_evolve_insert: "insert_listing r rows = Some rows' \<Longrightarrow> listings_evolve rows rows'"
  by (simp add: insert_listing_def evolves_insert)

end
