(* ===== verification/Zk.thy ===== *)
theory Zk
  imports Table
begin

text \<open>
  \<^verbatim>\<open>src/src/crypto/zk.rs\<close>: the key-encryption key, encrypted blobs, search tokens, and the
  6-hour timestamp buckets every stored time is rounded to.
\<close>

section \<open>Timestamp buckets\<close>

definition bucket_secs :: int where
  "bucket_secs = 21600"

definition floor_timestamp_6h :: "int \<Rightarrow> int" where
  "floor_timestamp_6h ts = trunc_div ts 21600 * 21600"

lemma floor_6h_nonneg: "0 \<le> ts \<Longrightarrow> floor_timestamp_6h ts = ts div 21600 * 21600"
  by (simp add: floor_timestamp_6h_def trunc_div_nonneg)

lemma floor_6h_neg: "ts < 0 \<Longrightarrow> floor_timestamp_6h ts = - (- ts div 21600 * 21600)"
  by (simp add: floor_timestamp_6h_def trunc_div_neg)

lemma floor_6h_multiple: "21600 dvd floor_timestamp_6h ts"
  by (simp add: floor_timestamp_6h_def)

lemma div_mult_bounds: "x div 21600 * 21600 \<le> x \<and> x < x div 21600 * 21600 + (21600::int)"
  using div_mult_mod_eq [of x 21600] pos_mod_bound [of 21600 x] pos_mod_sign [of 21600 x]
  by linarith

lemma floor_6h_bounds:
  "0 \<le> ts \<Longrightarrow> floor_timestamp_6h ts \<le> ts \<and> ts < floor_timestamp_6h ts + 21600"
  by (simp only: floor_6h_nonneg div_mult_bounds simp_thms)

lemma floor_6h_bounds_neg:
  "ts < 0 \<Longrightarrow> ts \<le> floor_timestamp_6h ts \<and> floor_timestamp_6h ts - 21600 < ts"
  using div_mult_bounds [of "- ts"] by (simp only: floor_6h_neg) linarith

lemma floor_6h_nonneg_result: "0 \<le> ts \<Longrightarrow> 0 \<le> floor_timestamp_6h ts"
  by (simp add: floor_6h_nonneg)

lemma floor_6h_mono:
  assumes "s \<le> t"
  shows "floor_timestamp_6h s \<le> floor_timestamp_6h t"
proof (cases "0 \<le> s")
  case True
  with assms show ?thesis
    by (simp add: floor_6h_nonneg zdiv_mono1)
next
  case False
  show ?thesis
  proof (cases "0 \<le> t")
    case True
    then have "0 \<le> floor_timestamp_6h t" by (rule floor_6h_nonneg_result)
    moreover have "floor_timestamp_6h s \<le> 0"
      using False by (simp add: floor_6h_neg pos_imp_zdiv_nonneg_iff)
    ultimately show ?thesis by simp
  next
    case t: False
    with False assms show ?thesis
      by (simp add: floor_6h_neg zdiv_mono1)
  qed
qed

lemma floor_6h_idem [simp]: "floor_timestamp_6h (floor_timestamp_6h ts) = floor_timestamp_6h ts"
proof -
  have "trunc_div (q * 21600) 21600 = q" for q
    by (simp add: trunc_div_def abs_mult sgn_mult sgn_mult_abs)
  then show ?thesis by (simp add: floor_timestamp_6h_def)
qed

lemma floor_6h_in_i64: "in_i64 ts \<Longrightarrow> in_i64 (floor_timestamp_6h ts)"
proof (cases "0 \<le> ts")
  case True
  assume "in_i64 ts"
  with floor_6h_bounds [OF True] floor_6h_nonneg_result [OF True] show ?thesis
    by (simp add: in_i64_def i64_min_def i64_max_def)
next
  case False
  assume "in_i64 ts"
  moreover have "floor_timestamp_6h ts \<le> 0"
    using False by (simp add: floor_6h_neg pos_imp_zdiv_nonneg_iff)
  ultimately show ?thesis
    using False floor_6h_bounds_neg [of ts] by (simp add: in_i64_def i64_min_def i64_max_def)
qed

section \<open>Keys and encrypted blobs\<close>

datatype crypto_error = InvalidKeySize | EncryptionFailed | DecryptionFailed

record encrypted_blob =
  ciphertext :: bytes
  eb_nonce :: bytes
  eb_version :: nat

text \<open>\<^verbatim>\<open>ChaCha20Poly1305::new_from_slice\<close> accepts 32-byte keys only.\<close>

definition cipher_new :: "bytes \<Rightarrow> bytes option" where
  "cipher_new key = (if length key = 32 then Some key else None)"

definition blob_encrypt :: "ext \<Rightarrow> bytes \<Rightarrow> bytes \<Rightarrow> bytes \<Rightarrow> crypto_error + encrypted_blob" where
  "blob_encrypt L nonce plaintext kek =
     (case cipher_new kek of
        None \<Rightarrow> Inl InvalidKeySize
      | Some cipher \<Rightarrow>
         (case aead_encrypt L cipher nonce plaintext of
            None \<Rightarrow> Inl EncryptionFailed
          | Some c \<Rightarrow> Inr \<lparr>ciphertext = c, eb_nonce = nonce, eb_version = 2\<rparr>))"

definition blob_decrypt :: "ext \<Rightarrow> encrypted_blob \<Rightarrow> bytes \<Rightarrow> crypto_error + bytes" where
  "blob_decrypt L b kek =
     (case cipher_new kek of
        None \<Rightarrow> Inl InvalidKeySize
      | Some cipher \<Rightarrow>
         (case aead_decrypt L cipher (eb_nonce b) (ciphertext b) of
            None \<Rightarrow> Inl DecryptionFailed
          | Some p \<Rightarrow> Inr p))"

text \<open>The flat form \<^verbatim>\<open>nonce(12) || ciphertext\<close>.\<close>

definition encrypt_test :: "ext \<Rightarrow> bytes \<Rightarrow> bytes \<Rightarrow> bytes \<Rightarrow> crypto_error + bytes" where
  "encrypt_test L nonce pt kek =
     (case blob_encrypt L nonce pt kek of
        Inl e \<Rightarrow> Inl e
      | Inr b \<Rightarrow> Inr (eb_nonce b @ ciphertext b))"

definition decrypt_test :: "ext \<Rightarrow> bytes \<Rightarrow> bytes \<Rightarrow> crypto_error + bytes" where
  "decrypt_test L data kek =
     (if length data < 12 then Inl DecryptionFailed
      else blob_decrypt L \<lparr>ciphertext = drop 12 data, eb_nonce = take 12 data, eb_version = 2\<rparr> kek)"

section \<open>Search tokens and identifiers\<close>

definition search_token_generate :: "ext \<Rightarrow> string \<Rightarrow> bytes \<Rightarrow> bytes" where
  "search_token_generate L keyword search_key = blake3 L (as_bytes keyword @ search_key)"

definition hash_pubkey_for_id :: "ext \<Rightarrow> bytes \<Rightarrow> bytes" where
  "hash_pubkey_for_id L pubkey = blake3 L pubkey"

end
