(* ===== verification/Oblivious.thy ===== *)
theory Oblivious
  imports Zk
begin

text \<open>
  \<^verbatim>\<open>src/src/crypto/oblivious.rs\<close> and the key derivations of \<^verbatim>\<open>crypto/escrow.rs\<close>: the blobs the
  worker reads and writes.  Fresh nonces and ephemeral keys are arguments.  Feeding a MAC
  several pieces is feeding it their concatenation.
\<close>

section \<open>Derived keys\<close>

definition derive_blob_key :: "ext \<Rightarrow> bytes \<Rightarrow> bytes \<Rightarrow> bytes \<Rightarrow> bytes option" where
  "derive_blob_key L server_secret label i = hmac_sha256 L server_secret (label @ i)"

definition derive_order_key :: "ext \<Rightarrow> bytes \<Rightarrow> bytes \<Rightarrow> bytes option" where
  "derive_order_key L server_secret order_id =
     derive_blob_key L server_secret (as_bytes ''oblivious-order-v1'') order_id"

definition derive_listing_key :: "ext \<Rightarrow> bytes \<Rightarrow> bytes \<Rightarrow> bytes option" where
  "derive_listing_key L server_secret i =
     derive_blob_key L server_secret (as_bytes ''oblivious-listing-v1'') i"

text \<open>\<^verbatim>\<open>escrow::derive_domain_key\<close>; \<^const>\<open>None\<close> is its \<^verbatim>\<open>expect\<close> panicking.\<close>

definition derive_domain_key :: "ext \<Rightarrow> bytes \<Rightarrow> string \<Rightarrow> bytes option" where
  "derive_domain_key L seed domain = hmac_sha256 L seed (as_bytes ''domain:'' @ as_bytes domain)"

section \<open>Symmetric blobs: \<open>nonce (12) || ciphertext\<close>\<close>

definition encrypt_order_blob :: "ext \<Rightarrow> bytes \<Rightarrow> bytes \<Rightarrow> bytes \<Rightarrow> bytes \<Rightarrow> bytes option" where
  "encrypt_order_blob L nonce plaintext server_secret order_id =
     (case derive_order_key L server_secret order_id of
        None \<Rightarrow> None
      | Some key \<Rightarrow>
         (case cipher_new key of
            None \<Rightarrow> None
          | Some cipher \<Rightarrow>
             (case aead_encrypt L cipher nonce plaintext of
                None \<Rightarrow> None
              | Some c \<Rightarrow> Some (nonce @ c))))"

definition decrypt_order_blob :: "ext \<Rightarrow> bytes \<Rightarrow> bytes \<Rightarrow> bytes \<Rightarrow> bytes option" where
  "decrypt_order_blob L blob server_secret order_id =
     (if length blob < 13 then None
      else case derive_order_key L server_secret order_id of
        None \<Rightarrow> None
      | Some key \<Rightarrow>
         (case cipher_new key of
            None \<Rightarrow> None
          | Some cipher \<Rightarrow> aead_decrypt L cipher (take 12 blob) (drop 12 blob)))"

definition reencrypt_order_blob :: "ext \<Rightarrow> bytes \<Rightarrow> bytes \<Rightarrow> bytes \<Rightarrow> bytes \<Rightarrow> bytes \<Rightarrow> bytes option" where
  "reencrypt_order_blob L nonce old_blob new_plaintext server_secret order_id =
     (case decrypt_order_blob L old_blob server_secret order_id of
        None \<Rightarrow> None
      | Some _ \<Rightarrow> encrypt_order_blob L nonce new_plaintext server_secret order_id)"

definition encrypt_listing_blob :: "ext \<Rightarrow> bytes \<Rightarrow> bytes \<Rightarrow> bytes \<Rightarrow> bytes \<Rightarrow> bytes option" where
  "encrypt_listing_blob L nonce plaintext server_secret i =
     (case derive_listing_key L server_secret i of
        None \<Rightarrow> None
      | Some key \<Rightarrow>
         (case cipher_new key of
            None \<Rightarrow> None
          | Some cipher \<Rightarrow>
             (case aead_encrypt L cipher nonce plaintext of
                None \<Rightarrow> None
              | Some c \<Rightarrow> Some (nonce @ c))))"

definition decrypt_listing_blob :: "ext \<Rightarrow> bytes \<Rightarrow> bytes \<Rightarrow> bytes \<Rightarrow> bytes option" where
  "decrypt_listing_blob L blob server_secret i =
     (if length blob < 13 then None
      else case derive_listing_key L server_secret i of
        None \<Rightarrow> None
      | Some key \<Rightarrow>
         (case cipher_new key of
            None \<Rightarrow> None
          | Some cipher \<Rightarrow> aead_decrypt L cipher (take 12 blob) (drop 12 blob)))"

section \<open>ECDH blobs: \<open>ephemeral_pk (32) || nonce (12) || ciphertext\<close>\<close>

definition ecdh_info :: bytes where
  "ecdh_info = as_bytes ''tor-marketplace-order-key-v1''"

definition decrypt_ecdh_blob :: "ext \<Rightarrow> bytes \<Rightarrow> bytes \<Rightarrow> bytes option" where
  "decrypt_ecdh_blob L blob server_secret_key =
     (if length blob < 32 + 12 + 1 then None
      else let ephemeral_pk = take 32 blob;
               nonce = take 12 (drop 32 blob);
               c = drop 12 (drop 32 blob);
               shared = x25519_dh L server_secret_key ephemeral_pk
           in case hkdf_sha256 L shared ecdh_info of
                None \<Rightarrow> None
              | Some key \<Rightarrow>
                 (case cipher_new key of
                    None \<Rightarrow> None
                  | Some cipher \<Rightarrow> aead_decrypt L cipher nonce c))"

definition encrypt_ecdh_blob :: "ext \<Rightarrow> bytes \<Rightarrow> bytes \<Rightarrow> bytes \<Rightarrow> bytes \<Rightarrow> bytes option" where
  "encrypt_ecdh_blob L ephemeral_sk nonce plaintext recipient_pubkey =
     (let shared = x25519_dh L ephemeral_sk recipient_pubkey
      in case hkdf_sha256 L shared ecdh_info of
           None \<Rightarrow> None
         | Some key \<Rightarrow>
            (case cipher_new key of
               None \<Rightarrow> None
             | Some cipher \<Rightarrow>
                (case aead_encrypt L cipher nonce plaintext of
                   None \<Rightarrow> None
                 | Some c \<Rightarrow> Some (x25519_public L ephemeral_sk @ nonce @ c))))"

section \<open>The interface of a sealed blob\<close>

locale sealed_blob =
  fixes seal :: "ext \<Rightarrow> bytes \<Rightarrow> bytes \<Rightarrow> bytes \<Rightarrow> bytes \<Rightarrow> bytes option"
    and unseal :: "ext \<Rightarrow> bytes \<Rightarrow> bytes \<Rightarrow> bytes \<Rightarrow> bytes option"
  assumes unseal_seal:
      "aead_ok L \<Longrightarrow> length n = 12 \<Longrightarrow> seal L n p s i = Some b \<Longrightarrow> unseal L b s i = Some p"
    and unseal_short: "length b < 13 \<Longrightarrow> unseal L b s i = None"
    and seal_length:
      "aead_ok L \<Longrightarrow> length n = 12 \<Longrightarrow> seal L n p s i = Some b \<Longrightarrow> length b = length p + 28"
begin

lemma seal_inject:
  assumes "aead_ok L" "length n = 12" "length n' = 12"
    and "seal L n p s i = Some b" "seal L n' p' s i = Some b"
  shows "p = p'"
  using unseal_seal [OF assms(1,2,4)] unseal_seal [OF assms(1,3,5)] by simp

lemma sealed_not_short:
  "aead_ok L \<Longrightarrow> length n = 12 \<Longrightarrow> seal L n p s i = Some b \<Longrightarrow> 28 \<le> length b"
  using seal_length by simp

end

lemmas blob_defs = encrypt_order_blob_def decrypt_order_blob_def encrypt_listing_blob_def
  decrypt_listing_blob_def

interpretation ob: sealed_blob encrypt_order_blob decrypt_order_blob
  by unfold_locales
     (auto simp: blob_defs aead_roundtrip aead_length split: option.splits)

interpretation lb: sealed_blob encrypt_listing_blob decrypt_listing_blob
  by unfold_locales
     (auto simp: blob_defs aead_roundtrip aead_length split: option.splits)

lemma reencrypt_Some:
  "reencrypt_order_blob L n old p s i = Some b \<Longrightarrow>
     decrypt_order_blob L old s i \<noteq> None \<and> encrypt_order_blob L n p s i = Some b"
  by (auto simp: reencrypt_order_blob_def split: option.splits)

lemma ecdh_roundtrip:
  assumes "aead_ok L" "x25519_ok L" "length n = 12"
    and "encrypt_ecdh_blob L esk n p (x25519_public L sk) = Some b"
  shows "decrypt_ecdh_blob L b sk = Some p"
proof -
  have pk: "length (x25519_public L esk) = 32"
    and dh: "x25519_dh L sk (x25519_public L esk) = x25519_dh L esk (x25519_public L sk)"
    using assms(2) by (auto simp: x25519_ok_def)
  from assms(4) obtain key c where key:
    "hkdf_sha256 L (x25519_dh L esk (x25519_public L sk)) ecdh_info = Some key"
    "length key = 32" "aead_encrypt L key n p = Some c" "b = x25519_public L esk @ n @ c"
    by (auto simp: encrypt_ecdh_blob_def cipher_new_def Let_def split: option.splits if_splits)
  from key(3) have "aead_decrypt L key n c = Some p" "length c = length p + 16"
    using assms(1) by (auto simp: aead_ok_def)
  with key pk dh assms(3) show ?thesis
    by (simp add: decrypt_ecdh_blob_def cipher_new_def)
qed

end
