(* ===== verification/Transition_Sig.thy ===== *)
theory Transition_Sig
  imports Oblivious
begin

text \<open>
  \<^verbatim>\<open>src/src/crypto/transition_sig.rs\<close> and its client counterpart \<^verbatim>\<open>wasm/src/transition.rs\<close>: the
  signed payload of an order update, its encoding as a CBOR map with integer keys, signing and
  verification.
\<close>

section \<open>The payload and its encoding\<close>

definition transition_sig_version :: nat where
  "transition_sig_version = 1"

record transition_payload =
  tp_version :: nat
  tp_order_id :: bytes
  prev_version :: int
  new_blob_sha256 :: bytes
  tp_nonce :: bytes
  hour_bucket :: nat

definition transition_payload_new :: "bytes \<Rightarrow> int \<Rightarrow> bytes \<Rightarrow> bytes \<Rightarrow> nat \<Rightarrow> transition_payload" where
  "transition_payload_new oid prev hash nonce hour =
     \<lparr>tp_version = transition_sig_version, tp_order_id = oid, prev_version = prev,
      new_blob_sha256 = hash, tp_nonce = nonce, hour_bucket = hour\<rparr>"

text \<open>\<^verbatim>\<open>BTreeMap::insert\<close> on the ascending list of entries.\<close>

fun btree_insert :: "int \<Rightarrow> 'v \<Rightarrow> (int \<times> 'v) list \<Rightarrow> (int \<times> 'v) list" where
  "btree_insert k v [] = [(k, v)]"
| "btree_insert k v ((k', v') # m) =
     (if k < k' then (k, v) # (k', v') # m
      else if k = k' then (k, v) # m
      else (k', v') # btree_insert k v m)"

definition payload_map :: "nat \<Rightarrow> bytes \<Rightarrow> int \<Rightarrow> bytes \<Rightarrow> bytes \<Rightarrow> nat \<Rightarrow> cbor_value" where
  "payload_map v oid prev hash nonce hour =
     (let m = btree_insert 1 (CborInteger (int v)) [];
          m = btree_insert 2 (CborBytes oid) m;
          m = btree_insert 3 (CborInteger prev) m;
          m = btree_insert 4 (CborBytes hash) m;
          m = btree_insert 5 (CborBytes nonce) m;
          m = btree_insert 6 (CborInteger (u64_as_i64 hour)) m
      in CborMap (map (\<lambda>(k, v). (CborInteger k, v)) m))"

definition to_cbor :: "ext \<Rightarrow> transition_payload \<Rightarrow> string + bytes" where
  "to_cbor L p =
     (case cbor_write L (payload_map (tp_version p) (tp_order_id p) (prev_version p)
                           (new_blob_sha256 p) (tp_nonce p) (hour_bucket p)) of
        None \<Rightarrow> Inl ''CBOR encode''
      | Some buf \<Rightarrow> Inr buf)"

section \<open>Signing and verifying\<close>

definition sign_transition :: "ext \<Rightarrow> bytes \<Rightarrow> transition_payload \<Rightarrow> string + bytes" where
  "sign_transition L signing_key p =
     (case to_cbor L p of Inl e \<Rightarrow> Inl e | Inr cbor \<Rightarrow> Inr (ed_sign L signing_key cbor))"

definition verify_transition ::
    "ext \<Rightarrow> bytes \<Rightarrow> transition_payload \<Rightarrow> bytes \<Rightarrow> string + transition_payload" where
  "verify_transition L verifying_key p sig =
     (if \<not> ed_public_ok L verifying_key then Inl ''Invalid verifying key''
      else case to_cbor L p of
        Inl e \<Rightarrow> Inl e
      | Inr cbor \<Rightarrow>
         (if ed_verify L verifying_key cbor sig then Inr p
          else Inl ''Transition signature verification failed''))"

text \<open>The WASM client.\<close>

definition wasm_transition_to_cbor ::
    "ext \<Rightarrow> bytes \<Rightarrow> int \<Rightarrow> bytes \<Rightarrow> bytes \<Rightarrow> nat \<Rightarrow> string + bytes" where
  "wasm_transition_to_cbor L oid prev hash nonce hour =
     (if length hash \<noteq> 32 then Inl ''new_blob_sha256 must be 32 bytes''
      else case cbor_write L (payload_map 1 oid prev hash nonce hour) of
             None \<Rightarrow> Inl ''CBOR encode failed''
           | Some buf \<Rightarrow> Inr buf)"

definition wasm_sign_transition ::
    "ext \<Rightarrow> bytes \<Rightarrow> bytes \<Rightarrow> int \<Rightarrow> bytes \<Rightarrow> bytes \<Rightarrow> nat \<Rightarrow> string + bytes" where
  "wasm_sign_transition L secret_key oid prev hash nonce hour =
     (if length secret_key \<noteq> 32 then Inl ''secret_key must be 32 bytes''
      else case wasm_transition_to_cbor L oid prev hash nonce hour of
             Inl e \<Rightarrow> Inl e
           | Inr cbor \<Rightarrow> Inr (ed_sign L secret_key cbor))"

section \<open>Facts\<close>

definition payload_ok :: "transition_payload \<Rightarrow> bool" where
  "payload_ok p \<longleftrightarrow> tp_version p < 256 \<and> hour_bucket p \<le> u64_max"

lemma payload_map_eq [simp]:
  "payload_map v oid prev hash nonce hour =
     CborMap [(CborInteger 1, CborInteger (int v)), (CborInteger 2, CborBytes oid),
              (CborInteger 3, CborInteger prev), (CborInteger 4, CborBytes hash),
              (CborInteger 5, CborBytes nonce), (CborInteger 6, CborInteger (u64_as_i64 hour))]"
  by (simp add: payload_map_def)

lemma to_cbor_inject:
  assumes "cbor_ok L" "payload_ok p" "payload_ok q" "to_cbor L p = to_cbor L q"
  shows "p = q"
proof -
  let ?m = "\<lambda>p. payload_map (tp_version p) (tp_order_id p) (prev_version p) (new_blob_sha256 p)
      (tp_nonce p) (hour_bucket p)"
  have "cbor_write L (?m p) = cbor_write L (?m q)"
    using assms(1,4) by (auto simp: to_cbor_def cbor_ok_def split: option.splits)
  then have "?m p = ?m q"
    using assms(1) by (simp only: cbor_ok_def inj_eq)
  then show ?thesis
    using assms(2,3) u64_as_i64_inject by (auto simp: payload_ok_def intro!: transition_payload.equality)
qed

lemma verify_transition_Inr:
  "verify_transition L pk p sig = Inr q \<longleftrightarrow>
     q = p \<and> ed_public_ok L pk \<and> (\<exists>c. to_cbor L p = Inr c \<and> ed_verify L pk c sig)"
  by (auto simp: verify_transition_def split: sum.splits)

lemma wasm_sign_verifies:
  assumes "ed_ok L pub" "cbor_ok L" "length sk = 32" "length hash = 32"
  obtains sig where "wasm_sign_transition L sk oid prev hash nonce hour = Inr sig"
    "length sig = 64"
    "verify_transition L (pub sk) (transition_payload_new oid prev hash nonce hour) sig =
       Inr (transition_payload_new oid prev hash nonce hour)"
proof -
  obtain buf where buf: "cbor_write L (payload_map 1 oid prev hash nonce hour) = Some buf"
    using assms(2) by (metis cbor_ok_def not_None_eq)
  let ?sig = "ed_sign L sk buf"
  have "length ?sig = 64" "ed_public_ok L (pub sk)" "ed_verify L (pub sk) buf ?sig"
    using assms(1) by (auto simp: ed_ok_def)
  with buf assms(3,4) that [of ?sig] show thesis
    by (auto simp: wasm_sign_transition_def wasm_transition_to_cbor_def verify_transition_def
        to_cbor_def transition_payload_new_def transition_sig_version_def)
qed

end
