(* ===== verification/Blind_Sig.thy ===== *)
theory Blind_Sig
  imports Oblivious
begin

text \<open>
  \<^verbatim>\<open>src/src/crypto/blind_sig.rs\<close>: Chaum blind RSA signatures for administrator tokens.  Big
  integers are \<^typ>\<open>nat\<close>; random bytes are an argument; a panic is \<^const>\<open>None\<close>.
\<close>

section \<open>Keys and token messages\<close>

record rsa_public =
  pk_n :: nat
  pk_e :: nat

record rsa_private =
  sk_n :: nat
  sk_e :: nat
  sk_d :: nat

record admin_keypair =
  kp_private :: rsa_private
  kp_public :: rsa_public

definition rsa_public_from :: "rsa_private \<Rightarrow> rsa_public" where
  "rsa_public_from sk = \<lparr>pk_n = sk_n sk, pk_e = sk_e sk\<rparr>"

definition admin_action_label :: string where
  "admin_action_label = ''tor-mkt:admin:v1''"

definition compose_token_message :: "ext \<Rightarrow> string \<Rightarrow> string \<Rightarrow> bytes \<Rightarrow> nat \<Rightarrow> bytes" where
  "compose_token_message L domain action_id nonce expiry_hour =
     sha256 L (as_bytes admin_action_label @ as_bytes '':'' @ as_bytes domain @ as_bytes '':''
       @ as_bytes action_id @ as_bytes '':'' @ nonce @ as_bytes '':'' @ as_bytes (dec expiry_hour))"

section \<open>Blinding, signing, unblinding, verifying\<close>

fun bit_length :: "nat \<Rightarrow> nat" where
  "bit_length n = (if n = 0 then 0 else Suc (bit_length (n div 2)))"

declare bit_length.simps [simp del]

definition modpow :: "nat \<Rightarrow> nat \<Rightarrow> nat \<Rightarrow> nat" where
  "modpow b e n = b ^ e mod n"

text \<open>The random bytes are cut to the width of \<open>n\<close> and must not be all zero.\<close>

definition blinding_bytes :: "nat \<Rightarrow> bytes \<Rightarrow> bytes option" where
  "blinding_bytes n random =
     (let n_bits = bit_length n;
          n_bytes = (n_bits + 7) div 8;
          r_bytes = take n_bytes random;
          excess = n_bytes * 8 - n_bits
      in case r_bytes of
           [] \<Rightarrow> None
         | b # bs \<Rightarrow>
            (let r = (b AND drop_bit excess 255) # bs
             in Some (if list_all (\<lambda>b. b = 0) r then r[n_bytes - 1 := 1] else r)))"

definition blind_message :: "ext \<Rightarrow> bytes \<Rightarrow> bytes \<Rightarrow> rsa_public \<Rightarrow> (bytes \<times> bytes) option" where
  "blind_message L random message_hash pk =
     (case blinding_bytes (pk_n pk) random of
        None \<Rightarrow> None
      | Some r_bytes \<Rightarrow>
         (let m = from_bytes_be L message_hash;
              r = from_bytes_be L r_bytes;
              r_e = modpow r (pk_e pk) (pk_n pk);
              blinded = m * r_e mod pk_n pk
          in Some (to_bytes_be L blinded, to_bytes_be L r)))"

definition sign_blinded :: "ext \<Rightarrow> bytes \<Rightarrow> rsa_private \<Rightarrow> bytes" where
  "sign_blinded L blinded sk = to_bytes_be L (modpow (from_bytes_be L blinded) (sk_d sk) (sk_n sk))"

definition modinv :: "ext \<Rightarrow> nat \<Rightarrow> nat \<Rightarrow> nat option" where
  "modinv L a m =
     (let (g, x, y) = extended_gcd L (int a) (int m)
      in if g \<noteq> 1 then None
         else if x < 0 then Some (m - nat (- x) mod m)
         else Some (nat x mod m))"

definition unblind_signature :: "ext \<Rightarrow> bytes \<Rightarrow> bytes \<Rightarrow> rsa_public \<Rightarrow> bytes option" where
  "unblind_signature L blinded_sig blinding_factor pk =
     (let s' = from_bytes_be L blinded_sig;
          r = from_bytes_be L blinding_factor
      in case modinv L r (pk_n pk) of
           None \<Rightarrow> None
         | Some r_inv \<Rightarrow> Some (to_bytes_be L (s' * r_inv mod pk_n pk)))"

definition verify_token :: "ext \<Rightarrow> bytes \<Rightarrow> bytes \<Rightarrow> rsa_public \<Rightarrow> bool" where
  "verify_token L message_hash signature pk =
     (let sig = from_bytes_be L signature;
          m = from_bytes_be L message_hash
      in if pk_n pk \<le> sig then False
         else modpow sig (pk_e pk) (pk_n pk) = m)"

section \<open>The signature is recovered\<close>

text \<open>The documented relation between the exponents of an RSA key.\<close>

definition rsa_pair :: "rsa_private \<Rightarrow> bool" where
  "rsa_pair sk \<longleftrightarrow> 1 < sk_n sk \<and> (\<forall>x. x ^ (sk_e sk * sk_d sk) mod sk_n sk = x mod sk_n sk)"

lemma modinv_correct:
  assumes "egcd_ok L" "coprime a m" "1 < m"
  obtains i where "modinv L a m = Some i" "a * i mod m = 1"
proof -
  obtain g x y where gxy: "extended_gcd L (int a) (int m) = (g, x, y)"
    by (cases "extended_gcd L (int a) (int m)") auto
  then have g: "g = gcd (int a) (int m)" and bez: "int a * x + int m * y = g"
    using assms(1) [unfolded egcd_ok_def, rule_format, of "int a" "int m" g x y] by simp_all
  have g1: "g = 1"
    using g assms(2) by simp
  have inv: "int a * i mod int m = 1" if "i mod int m = x mod int m" for i
  proof -
    have "int a * i mod int m = (int a * x + int m * y) mod int m"
      by (metis mod_mult_right_eq mod_mult_self2 that)
    also have "\<dots> = 1 mod int m" using bez g1 by simp
    finally show ?thesis using assms(3) by simp
  qed
  have nat_inv: "a * i mod m = 1" if "int i mod int m = x mod int m" for i
  proof -
    have "int (a * i mod m) = 1" using inv [OF that] by (simp add: zmod_int)
    then show ?thesis by simp
  qed
  show thesis
  proof (cases "x < 0")
    case True
    let ?i = "m - nat (- x) mod m"
    have "nat (- x) mod m \<le> m" using assms(3) by (simp add: less_imp_le)
    then have "int ?i = int m - (- x) mod int m"
      using True by (simp add: of_nat_diff zmod_int)
    then have "int ?i mod int m = x mod int m"
      by (simp add: mod_minus_eq)
    from nat_inv [OF this] that [of ?i] True gxy g1 show thesis
      by (simp add: modinv_def)
  next
    case False
    then have "int (nat x mod m) mod int m = x mod int m"
      by (simp add: zmod_int)
    from nat_inv [OF this] that [of "nat x mod m"] False gxy g1 show thesis
      by (simp add: modinv_def)
  qed
qed

lemma blind_algebra:
  fixes n :: nat
  assumes pair: "\<And>x. x ^ (e * d) mod n = x mod n" and inv: "r * i mod n = 1"
  shows "(((m * (r ^ e mod n) mod n) ^ d mod n) * i mod n) ^ e mod n = m mod n"
proof -
  have "((m * (r ^ e mod n) mod n) ^ d mod n) = (m * r ^ e) ^ d mod n"
    by (metis mod_mult_right_eq power_mod)
  also have "\<dots> = m ^ d * r ^ (e * d) mod n"
    by (simp add: power_mult_distrib power_mult)
  also have "\<dots> = m ^ d * r mod n"
    by (metis mod_mult_right_eq pair)
  finally have "((m * (r ^ e mod n) mod n) ^ d mod n) * i mod n = m ^ d * r * i mod n"
    by (metis mod_mult_left_eq)
  also have "\<dots> = m ^ d * (r * i mod n) mod n"
    by (simp add: mult.assoc mod_mult_right_eq)
  also have "\<dots> = m ^ d mod n"
    by (simp add: inv)
  finally have "(((m * (r ^ e mod n) mod n) ^ d mod n) * i mod n) ^ e mod n = (m ^ d mod n) ^ e mod n"
    by simp
  also have "\<dots> = m ^ (e * d) mod n"
    by (simp add: power_mod mult.commute flip: power_mult)
  finally show ?thesis by (simp add: pair)
qed

lemma blind_roundtrip:
  assumes "be_ok L" "egcd_ok L" "rsa_pair sk"
    and "from_bytes_be L h < sk_n sk"
    and "blind_message L random h (rsa_public_from sk) = Some (blinded, factor)"
    and "coprime (from_bytes_be L factor) (sk_n sk)"
  obtains sig where "unblind_signature L (sign_blinded L blinded sk) factor (rsa_public_from sk) = Some sig"
    "verify_token L h sig (rsa_public_from sk)"
proof -
  let ?n = "sk_n sk" and ?m = "from_bytes_be L h" and ?r = "from_bytes_be L factor"
  have n: "1 < ?n" and pair: "\<And>x. x ^ (sk_e sk * sk_d sk) mod ?n = x mod ?n"
    using assms(3) by (auto simp: rsa_pair_def)
  obtain i where i: "modinv L ?r ?n = Some i" "?r * i mod ?n = 1"
    using assms(2,6) n by (rule modinv_correct)
  have b: "from_bytes_be L blinded = ?m * (?r ^ sk_e sk mod ?n) mod ?n"
    using assms(1,5)
    by (auto simp: blind_message_def rsa_public_from_def modpow_def Let_def split: option.splits)
  let ?sig = "(from_bytes_be L blinded ^ sk_d sk mod ?n) * i mod ?n"
  have "?sig ^ sk_e sk mod ?n = ?m"
    using blind_algebra [OF pair i(2), of ?m] assms(4) by (simp add: b)
  moreover have "?sig < ?n" using n by simp
  ultimately show thesis
    using i that [of "to_bytes_be L ?sig"] assms(1)
    by (simp add: unblind_signature_def sign_blinded_def verify_token_def rsa_public_from_def modpow_def)
qed

end
