(* ===== verification/Config.thy ===== *)
theory Config
  imports Rust_Std
begin

text \<open>
  \<^verbatim>\<open>src/src/config.rs\<close>: the configuration, its defaults, loading with the environment overrides,
  and the network name.  Reading files and parsing TOML are parameters; paths are strings; the two
  floating-point limits, which nothing reads, are kept as their literals.
\<close>

section \<open>Data\<close>

datatype database_config = Sqlite string | Postgres string

record server_config =
  listen_addr :: string
  data_dir :: string
  server_secret :: string
  rate_limit_per_minute :: nat
  default_lock_days :: nat

record tor_config =
  tor_enabled :: bool
  tor_service_dir :: string
  tor_port :: nat
  tor_onion_address :: "string option"
  tor_socks5_addr :: string
  tor_socks5_pool_size :: nat

record monero_config =
  wallet_rpc_url :: string
  wallet_rpc_user :: "string option"
  wallet_rpc_password :: "string option"
  xmr_confirmations_required :: nat

record bitcoin_config =
  btc_rpc_url :: string
  btc_rpc_user :: "string option"
  btc_rpc_password :: "string option"
  btc_confirmations_required :: nat
  btc_wallet_name :: string
  btc_address_type :: string
  btc_network_name :: string

record security_config =
  max_order_value_xmr :: string
  max_order_value_btc :: string
  kek_rotation_days :: nat
  kek_hex :: "string option"
  kek_version :: nat
  last_kek_rotation :: "int option"
  btc_min_payment_sats :: nat
  master_seed_hex :: "string option"
  worker_key_hex :: "string option"
  admin_privkey_hex :: "string option"
  admin_pubkey_hex :: "string option"
  worker_payment_pubkey_hex :: "string option"

record escrow_config =
  escrow_fee_percent :: nat
  fee_address_btc :: "string option"
  fee_address_xmr :: "string option"

record config =
  cfg_database :: database_config
  cfg_server :: server_config
  cfg_tor :: tor_config
  cfg_monero :: monero_config
  cfg_bitcoin :: bitcoin_config
  cfg_security :: security_config
  cfg_escrow :: escrow_config

section \<open>Defaults\<close>

definition default_database_config :: database_config where
  "default_database_config = Sqlite ''data/marketplace.db''"

definition default_server_config :: server_config where
  "default_server_config =
     \<lparr>listen_addr = ''127.0.0.1:9080'', data_dir = ''data'', server_secret = [],
      rate_limit_per_minute = 30, default_lock_days = 7\<rparr>"

definition default_socks5_addr :: string where "default_socks5_addr = ''127.0.0.1:9050''"
definition default_socks5_pool_size :: nat where "default_socks5_pool_size = 8"

definition default_tor_config :: tor_config where
  "default_tor_config =
     \<lparr>tor_enabled = True, tor_service_dir = ''data/tor'', tor_port = 80, tor_onion_address = None,
      tor_socks5_addr = default_socks5_addr, tor_socks5_pool_size = default_socks5_pool_size\<rparr>"

definition default_monero_config :: monero_config where
  "default_monero_config =
     \<lparr>wallet_rpc_url = ''http://127.0.0.1:18089/json_rpc'', wallet_rpc_user = None,
      wallet_rpc_password = None, xmr_confirmations_required = 10\<rparr>"

definition default_btc_network :: string where "default_btc_network = ''mainnet''"

definition default_bitcoin_config :: bitcoin_config where
  "default_bitcoin_config =
     \<lparr>btc_rpc_url = ''http://127.0.0.1:8332'', btc_rpc_user = None, btc_rpc_password = None,
      btc_confirmations_required = 6, btc_wallet_name = ''tor-marketplace'',
      btc_address_type = ''p2sh-segwit'', btc_network_name = default_btc_network\<rparr>"

definition default_security_config :: security_config where
  "default_security_config =
     \<lparr>max_order_value_xmr = ''100.0'', max_order_value_btc = ''1.0'', kek_rotation_days = 30,
      kek_hex = None, kek_version = 1, last_kek_rotation = None, btc_min_payment_sats = 546,
      master_seed_hex = None, worker_key_hex = None, admin_privkey_hex = None, admin_pubkey_hex = None,
      worker_payment_pubkey_hex = None\<rparr>"

definition default_escrow_config :: escrow_config where
  "default_escrow_config = \<lparr>escrow_fee_percent = 4, fee_address_btc = None, fee_address_xmr = None\<rparr>"

definition default_config :: config where
  "default_config =
     \<lparr>cfg_database = default_database_config, cfg_server = default_server_config,
      cfg_tor = default_tor_config, cfg_monero = default_monero_config,
      cfg_bitcoin = default_bitcoin_config, cfg_security = default_security_config,
      cfg_escrow = default_escrow_config\<rparr>"

section \<open>The Bitcoin network\<close>

datatype btc_network = Bitcoin | Testnet | Signet | Regtest

text \<open>
  \<^verbatim>\<open>to_lowercase\<close>; the only non-ASCII characters with an ASCII lower case become \<open>k\<close>, which no
  network name has.
\<close>

definition to_lower :: "string \<Rightarrow> string" where
  "to_lower s = map (\<lambda>c. let n = (of_char c :: nat) in if 65 \<le> n \<and> n \<le> 90 then char_of (n + 32) else c) s"

definition configured_network :: "bitcoin_config \<Rightarrow> string + btc_network" where
  "configured_network B =
     (let s = to_lower (btc_network_name B)
      in if s = ''mainnet'' then Inr Bitcoin
         else if s = ''testnet'' then Inr Testnet
         else if s = ''signet'' then Inr Signet
         else if s = ''regtest'' then Inr Regtest
         else Inl (''Invalid bitcoin.network '' @ btc_network_name B))"

section \<open>Loading\<close>

text \<open>
  What a process finds outside: the environment variables, the file system (\<open>Inl\<close>: a read error)
  and the TOML parser.
\<close>

record outside =
  env_var :: "string \<Rightarrow> string option"
  file_exists :: "string \<Rightarrow> bool"
  read_file :: "string \<Rightarrow> string + string"
  toml_parse :: "string \<Rightarrow> string + config"

definition override :: "outside \<Rightarrow> string \<Rightarrow> (string \<Rightarrow> config \<Rightarrow> config) \<Rightarrow> config \<Rightarrow> config" where
  "override X name upd c = (case env_var X name of Some v \<Rightarrow> upd v c | None \<Rightarrow> c)"

definition apply_env_overrides :: "outside \<Rightarrow> config \<Rightarrow> config" where
  "apply_env_overrides X c =
     (let c = override X ''LISTEN_ADDR'' (\<lambda>v c. c\<lparr>cfg_server := (cfg_server c)\<lparr>listen_addr := v\<rparr>\<rparr>) c;
          c = override X ''DB_PATH'' (\<lambda>v c. c\<lparr>cfg_database := Sqlite v\<rparr>) c;
          c = override X ''DATABASE_URL'' (\<lambda>v c. c\<lparr>cfg_database := Postgres v\<rparr>) c;
          c = override X ''MONERO_RPC_URL'' (\<lambda>v c. c\<lparr>cfg_monero := (cfg_monero c)\<lparr>wallet_rpc_url := v\<rparr>\<rparr>) c;
          c = override X ''BITCOIN_RPC_URL'' (\<lambda>v c. c\<lparr>cfg_bitcoin := (cfg_bitcoin c)\<lparr>btc_rpc_url := v\<rparr>\<rparr>) c
      in override X ''SERVER_SECRET'' (\<lambda>v c. c\<lparr>cfg_server := (cfg_server c)\<lparr>server_secret := v\<rparr>\<rparr>) c)"

definition config_path :: "outside \<Rightarrow> string" where
  "config_path X = unwrap_or (env_var X ''CONFIG_PATH'') ''config.toml''"

definition load_config :: "outside \<Rightarrow> string + config" where
  "load_config X =
     (if file_exists X (config_path X)
      then and_then (read_file X (config_path X)) (\<lambda>data.
           and_then (toml_parse X data) (\<lambda>c. Inr (apply_env_overrides X c)))
      else Inr default_config)"

definition db_path :: "config \<Rightarrow> string option" where
  "db_path c = (case cfg_database c of Sqlite p \<Rightarrow> Some p | Postgres _ \<Rightarrow> None)"

definition db_url :: "config \<Rightarrow> string option" where
  "db_url c = (case cfg_database c of Sqlite _ \<Rightarrow> None | Postgres u \<Rightarrow> Some u)"

section \<open>Startup checks\<close>

text \<open>The checks \<^verbatim>\<open>main.rs\<close> and \<^verbatim>\<open>bin/worker.rs\<close> make before they open anything.\<close>

definition production :: "outside \<Rightarrow> bool" where
  "production X \<longleftrightarrow> env_var X ''RUST_ENV'' = Some ''production''"

definition no_tor_in_production :: string where
  "no_tor_in_production =
     ''tor.enabled = false with RUST_ENV=production. Tor hidden service is required in production.''"

definition api_startup_checks :: "outside \<Rightarrow> config \<Rightarrow> string + unit" where
  "api_startup_checks X c =
     and_then (require (server_secret (cfg_server c) \<noteq> []) ''SERVER_SECRET must be set via env or config file'') (\<lambda>_.
     and_then (require (\<not> length (server_secret (cfg_server c)) < 32) ''SERVER_SECRET must be at least 32 characters'') (\<lambda>_.
     and_then (require (listen_addr (cfg_server c) \<noteq> []) ''listen_addr must not be empty'') (\<lambda>_.
     and_then (require (rate_limit_per_minute (cfg_server c) \<noteq> 0) ''rate_limit_per_minute must be > 0'') (\<lambda>_.
     and_then (require (wallet_rpc_url (cfg_monero c) \<noteq> []) ''monero.wallet_rpc_url must not be empty'') (\<lambda>_.
     and_then (require (btc_rpc_url (cfg_bitcoin c) \<noteq> []) ''bitcoin.rpc_url must not be empty'') (\<lambda>_.
     and_then (require (kek_rotation_days (cfg_security c) \<noteq> 0) ''kek_rotation_days must be > 0'') (\<lambda>_.
       require (\<not> (\<not> tor_enabled (cfg_tor c) \<and> production X)) no_tor_in_production)))))))"

definition worker_startup_checks :: "outside \<Rightarrow> config \<Rightarrow> string + unit" where
  "worker_startup_checks X c =
     and_then (require (wallet_rpc_url (cfg_monero c) \<noteq> []) ''monero.wallet_rpc_url must not be empty'') (\<lambda>_.
     and_then (require (btc_rpc_url (cfg_bitcoin c) \<noteq> []) ''bitcoin.rpc_url must not be empty'') (\<lambda>_.
       require (\<not> (\<not> tor_enabled (cfg_tor c) \<and> production X)) no_tor_in_production))"

definition api_startup :: "outside \<Rightarrow> string + config" where
  "api_startup X = and_then (load_config X) (\<lambda>c. and_then (api_startup_checks X c) (\<lambda>_. Inr c))"

text \<open>
  The API process starts only with a server secret of at least 32 bytes, which the environment
  overrides when it sets one; but the environment is read only on top of a configuration file, so
  without the file the process refuses to start whatever \<open>SERVER_SECRET\<close> says.
\<close>

theorem api_startup_secret:
  "(case api_startup X of
      Inl _ \<Rightarrow> True
    | Inr c \<Rightarrow> 32 \<le> length (server_secret (cfg_server c))
        \<and> (case env_var X ''SERVER_SECRET'' of Some v \<Rightarrow> server_secret (cfg_server c) = v | None \<Rightarrow> True)
        \<and> (if production X then tor_enabled (cfg_tor c) else True)
        \<and> file_exists X (config_path X))
   \<and> (if file_exists X (config_path X) then True
      else api_startup X = Inl ''SERVER_SECRET must be set via env or config file'')"
proof (cases "file_exists X (config_path X)")
  case False
  then show ?thesis
    by (simp add: api_startup_def load_config_def api_startup_checks_def default_config_def default_server_config_def)
next
  case True
  have secret: "server_secret (cfg_server (apply_env_overrides X c)) = v" if "env_var X ''SERVER_SECRET'' = Some v" for c v
    using that by (simp add: apply_env_overrides_def override_def Let_def)
  show ?thesis
  proof (cases "api_startup X")
    case (Inr c)
    then obtain c0 where "c = apply_env_overrides X c0" "api_startup_checks X c = Inr ()"
      using True by (auto simp: api_startup_def load_config_def)
    with Inr True secret show ?thesis
      by (auto simp: api_startup_checks_def split: option.split)
  qed (use True in simp)
qed

end
