(* ===== verification/Api.thy ===== *)
theory Api
  imports Transition_Sig Blind_Sig Config
begin

text \<open>
  The API process: the parts of \<^verbatim>\<open>AppState\<close> and of the configuration its handlers read
  (\<^verbatim>\<open>gateway/state.rs\<close>, \<^verbatim>\<open>config.rs\<close>), the state they change (the database tables, the
  in-process nonce caches), and the two interfaces every service is written against: a replay
  cache and an operation on the orders table.
\<close>

section \<open>Configuration and process state\<close>

record app =
  app_server :: server_config
  app_worker_key :: "bytes option"
  app_admin_keypair :: "admin_keypair option"

record api_state =
  db_orders :: orders
  db_listings :: listings
  order_create_nonces :: "string set"
  order_update_nonces :: "string set"
  listing_create_nonces :: "string set"
  listing_update_nonces :: "string set"
  dispute_nonces :: "string set"
  admin_token_nonces :: "string set"
  chat_nonces :: "string set"
  kek_file :: "string option"  \<comment> \<open>contents of \<open>data_dir/kek.hex\<close>\<close>

definition empty_api :: api_state where
  "empty_api =
     \<lparr>db_orders = [], db_listings = [], order_create_nonces = {}, order_update_nonces = {},
      listing_create_nonces = {}, listing_update_nonces = {}, dispute_nonces = {},
      admin_token_nonces = {}, chat_nonces = {}, kek_file = None\<rparr>"

section \<open>Replay caches\<close>

text \<open>\<^verbatim>\<open>HashSet::insert\<close>: whether the key was absent, and the set with it.\<close>

definition replay_insert :: "'k \<Rightarrow> 'k set \<Rightarrow> bool \<times> 'k set" where
  "replay_insert k s = (k \<notin> s, insert k s)"

text \<open>A sequence of operations: their results and the final state.\<close>

fun run_ops :: "('i \<Rightarrow> 's \<Rightarrow> 'r \<times> 's) \<Rightarrow> 'i list \<Rightarrow> 's \<Rightarrow> 'r list \<times> 's" where
  "run_ops op [] s = ([], s)"
| "run_ops op (x # xs) s =
     (let (r, s1) = op x s; (rs, s2) = run_ops op xs s1 in (r # rs, s2))"

lemma run_ops_Cons [simp]:
  "fst (run_ops op (x # xs) s) = fst (op x s) # fst (run_ops op xs (snd (op x s)))"
  "snd (run_ops op (x # xs) s) = snd (run_ops op xs (snd (op x s)))"
  by (simp_all add: split_beta Let_def)

declare run_ops.simps(2) [simp del]

lemma length_run_ops [simp]: "length (fst (run_ops op xs s)) = length xs"
  by (induction xs arbitrary: s) simp_all

text \<open>
  An operation that succeeds at most once for each key: success needs a key not seen before and
  records it, and no call forgets a key.
\<close>

locale single_use =
  fixes op :: "'i \<Rightarrow> 's \<Rightarrow> 'r \<times> 's" and ok :: "'r \<Rightarrow> bool"
    and key :: "'i \<Rightarrow> 'k" and seen :: "'s \<Rightarrow> 'k set"
  assumes ok_fresh: "ok (fst (op x s)) \<Longrightarrow> key x \<notin> seen s"
    and ok_burns: "ok (fst (op x s)) \<Longrightarrow> key x \<in> seen (snd (op x s))"
    and seen_mono: "seen s \<subseteq> seen (snd (op x s))"
begin

lemma run_seen_mono: "seen s \<subseteq> seen (snd (run_ops op xs s))"
  by (induction xs arbitrary: s) (use seen_mono in \<open>auto, blast\<close>)

lemma seen_rejected:
  "key (xs ! j) \<in> seen s \<Longrightarrow> j < length xs \<Longrightarrow> \<not> ok (fst (run_ops op xs s) ! j)"
proof (induction xs arbitrary: s j)
  case (Cons x xs)
  then show ?case
    using ok_fresh seen_mono [of s x] by (cases j) (auto dest: subsetD)
qed simp

text \<open>Whatever the order of the calls, at most one call with a key succeeds.\<close>

lemma accepted_once:
  assumes "i < j" "j < length xs" "key (xs ! i) = key (xs ! j)" "ok (fst (run_ops op xs s) ! i)"
  shows "\<not> ok (fst (run_ops op xs s) ! j)"
  using assms
proof (induction xs arbitrary: s i j)
  case (Cons x xs)
  then obtain j' where j: "j = Suc j'" by (cases j) auto
  show ?case
  proof (cases i)
    case 0
    with Cons.prems j have "key (xs ! j') \<in> seen (snd (op x s))"
      using ok_burns [of x s] by simp
    with Cons.prems j show ?thesis by (simp add: seen_rejected)
  next
    case (Suc i')
    with Cons j show ?thesis by simp
  qed
qed simp

end

locale replay_cache =
  fixes check :: "'i \<Rightarrow> 's \<Rightarrow> bool \<times> 's" and key :: "'i \<Rightarrow> 'k" and seen :: "'s \<Rightarrow> 'k set"
  assumes check_fresh: "fst (check x s) \<longleftrightarrow> key x \<notin> seen s"
    and check_seen: "seen (snd (check x s)) = insert (key x) (seen s)"
begin

lemma run_seen: "seen (snd (run_ops check xs s)) = key ` set xs \<union> seen s"
  by (induction xs arbitrary: s) (auto simp: check_seen)

end

sublocale replay_cache \<subseteq> once: single_use check "\<lambda>b. b" key seen
  by unfold_locales (auto simp: check_fresh check_seen)

interpretation hash_set: replay_cache replay_insert "\<lambda>k. k" "\<lambda>s. s"
  by unfold_locales (simp_all add: replay_insert_def)

section \<open>Operations on a table\<close>

text \<open>
  The contract of a service operation on a versioned table: it keeps the primary key unique, the
  table evolves (no row lost, versions only grow, a row with an unchanged version is unchanged),
  and an operation that returns an error leaves the table as it was.
\<close>

locale table_service =
  fixes op :: "'i \<Rightarrow> 's \<Rightarrow> 'r res \<times> 's" and tbl :: "'s \<Rightarrow> 't list"
    and key :: "'t \<Rightarrow> 'k" and ver :: "'t \<Rightarrow> int"
  assumes op_wf: "distinct (map key (tbl s)) \<Longrightarrow> distinct (map key (tbl (snd (op i s))))"
    and op_evolves: "evolves key ver (tbl s) (tbl (snd (op i s)))"
    and op_error: "\<not> is_ok (fst (op i s)) \<Longrightarrow> tbl (snd (op i s)) = tbl s"
begin

abbreviation run :: "'i list \<Rightarrow> 's \<Rightarrow> 's" where
  "run xs s \<equiv> snd (run_ops op xs s)"

lemma run_wf: "distinct (map key (tbl s)) \<Longrightarrow> distinct (map key (tbl (run xs s)))"
  by (induction xs arbitrary: s) (simp_all add: op_wf)

lemma run_evolves: "evolves key ver (tbl s) (tbl (run xs s))"
  by (induction xs arbitrary: s) (auto intro: evolves_trans op_evolves)

lemma run_keeps_row:
  assumes "select_by key i (tbl s) = Some r"
  obtains r' where "select_by key i (tbl (run xs s)) = Some r'" "ver r \<le> ver r'"
    "ver r' = ver r \<Longrightarrow> r' = r"
  using evolvesD [OF run_evolves assms] by blast

end

locale order_service = table_service op tbl o_id o_version
  for op :: "'i \<Rightarrow> 's \<Rightarrow> 'r res \<times> 's" and tbl :: "'s \<Rightarrow> orders"
begin

lemma run_orders_wf: "orders_wf (tbl s) \<Longrightarrow> orders_wf (tbl (run xs s))"
  by (simp add: orders_wf_def run_wf)

end

lemma order_serviceI:
  assumes "\<And>i s. orders_wf (tbl s) \<Longrightarrow> orders_wf (tbl (snd (op i s)))"
    and "\<And>i s. orders_evolve (tbl s) (tbl (snd (op i s)))"
    and "\<And>i s. \<not> is_ok (fst (op i s)) \<Longrightarrow> tbl (snd (op i s)) = tbl s"
  shows "order_service op tbl"
  by unfold_locales (use assms in \<open>simp_all add: orders_wf_def\<close>)

section \<open>The two phases of an optimistic write\<close>

text \<open>
  A handler reads a row's version, checks the request, and then issues the conditional UPDATE.
  Other requests and the worker may run between the two, so they are two definitions: the read
  phase ends in an \<open>order_cas\<close>, which \<open>commit_order\<close> executes as the handler's statement \<open>k\<close>.
\<close>

record order_cas =
  cas_id :: bytes
  cas_version :: int
  cas_write :: order_write

definition order_conflict :: app_error where
  "order_conflict = Conflict ''Order was modified by another request''"

definition commit_orders :: "env \<Rightarrow> nat \<Rightarrow> order_cas \<Rightarrow> orders \<Rightarrow> unit res \<times> orders" where
  "commit_orders E k c rows =
     (case db_fault E k of
        Some e \<Rightarrow> (Inl (db_error e), rows)
      | None \<Rightarrow>
         (let (rows', affected) = update_orders (cas_write c) (cas_id c) (cas_version c) rows
          in if affected = 0 then (Inl order_conflict, rows') else (Inr (), rows')))"

definition commit_order :: "env \<Rightarrow> nat \<Rightarrow> order_cas \<Rightarrow> api_state \<Rightarrow> unit res \<times> api_state" where
  "commit_order E k c st =
     (let (r, rows) = commit_orders E k c (db_orders st) in (r, st\<lparr>db_orders := rows\<rparr>))"

lemma commit_orders_wf: "orders_wf rows \<Longrightarrow> orders_wf (snd (commit_orders E k c rows))"
  by (auto simp: commit_orders_def Let_def split_beta orders_wf_update split: option.splits)

lemma commit_orders_evolves: "orders_evolve rows (snd (commit_orders E k c rows))"
  by (auto simp: commit_orders_def Let_def split_beta orders_evolve_update split: option.splits)

lemma commit_orders_error: "\<not> is_ok (fst (commit_orders E k c rows)) \<Longrightarrow> snd (commit_orders E k c rows) = rows"
  by (auto simp: commit_orders_def Let_def split_beta update_orders_def ord.affected_0_unchanged
      split: option.splits if_splits)

lemma commit_order_frame [simp]:
  "fst (commit_order E k c st) = fst (commit_orders E k c (db_orders st))"
  "snd (commit_order E k c st) = st\<lparr>db_orders := snd (commit_orders E k c (db_orders st))\<rparr>"
  by (simp_all add: commit_order_def split_beta)

lemma commit_orders_ok_iff:
  assumes "orders_wf rows"
  shows "is_ok (fst (commit_orders E k c rows)) \<longleftrightarrow>
     db_fault E k = None \<and> (\<exists>r. select_order (cas_id c) rows = Some r \<and> o_version r = cas_version c)"
proof -
  let ?n = "snd (update_orders (cas_write c) (cas_id c) (cas_version c) rows)"
  have "?n > 0 \<longleftrightarrow> (\<exists>r. select_order (cas_id c) rows = Some r \<and> o_version r = cas_version c)"
    using assms unfolding orders_wf_def update_orders_def by (rule ord.affected_pos)
  moreover have "is_ok (fst (commit_orders E k c rows)) \<longleftrightarrow> db_fault E k = None \<and> ?n > 0"
    by (auto simp: commit_orders_def Let_def split_beta split: option.splits)
  ultimately show ?thesis by simp
qed

lemma commit_orders_row:
  assumes "db_fault E k = None" "select_order (cas_id c) rows = Some r" "o_version r = cas_version c"
    "orders_wf rows"
  shows "select_order (cas_id c) (snd (commit_orders E k c rows)) = Some (apply_order_write (cas_write c) r)"
  using assms select_by_Some [OF assms(2)]
  by (simp add: commit_orders_def Let_def split_beta update_orders_def ord.select_cas)

lemma commit_orders_other:
  "i \<noteq> cas_id c \<Longrightarrow> select_order i (snd (commit_orders E k c rows)) = select_order i rows"
  by (simp add: commit_orders_def Let_def split_beta update_orders_def ord.select_cas_other
      split: option.splits)

section \<open>Statements of a handler\<close>

lemmas orders_frame = then_do_frame [where g = db_orders]
lemmas listings_frame = then_do_frame [where g = db_listings]

definition fetch_order :: "env \<Rightarrow> nat \<Rightarrow> bytes \<Rightarrow> api_state \<Rightarrow> order option res" where
  "fetch_order E k i st =
     (case db_fault E k of
        Some e \<Rightarrow> Inl (db_error e)
      | None \<Rightarrow> Inr (select_order i (db_orders st)))"

definition fetch_listing :: "env \<Rightarrow> nat \<Rightarrow> bytes \<Rightarrow> api_state \<Rightarrow> listing option res" where
  "fetch_listing E k i st =
     (case db_fault E k of
        Some e \<Rightarrow> Inl (db_error e)
      | None \<Rightarrow> Inr (select_listing i (db_listings st)))"

text \<open>Seconds since the epoch as an unsigned number (the clock is assumed past 1970).\<close>

definition unix_secs :: "env \<Rightarrow> nat" where
  "unix_secs E = nat (unix_time E)"

lemma fetch_order_Inr [simp]:
  "fetch_order E k i st = Inr x \<longleftrightarrow> db_fault E k = None \<and> x = select_order i (db_orders st)"
  by (auto simp: fetch_order_def split: option.splits)

lemma fetch_listing_Inr [simp]:
  "fetch_listing E k i st = Inr x \<longleftrightarrow> db_fault E k = None \<and> x = select_listing i (db_listings st)"
  by (auto simp: fetch_listing_def split: option.splits)

text \<open>
  A handler that reads, checks and then commits: \<open>p\<close> is the outcome of its read phase, the
  conditional UPDATE is its statement \<open>k\<close>, the response is the one prepared before it.
\<close>

definition optimistic :: "env \<Rightarrow> nat \<Rightarrow> (order_cas \<times> 'r) res \<times> api_state \<Rightarrow> 'r res \<times> api_state" where
  "optimistic E k p =
     then_do p (\<lambda>(c, resp) st1. then_do (commit_order E k c st1) (\<lambda>_ st2. (Inr resp, st2)))"

lemma optimistic_orders:
  "db_orders (snd (optimistic E k p)) =
     (case fst p of Inl e \<Rightarrow> db_orders (snd p)
      | Inr (c, resp) \<Rightarrow> snd (commit_orders E k c (db_orders (snd p))))"
  by (auto simp: optimistic_def then_do_def commit_order_def split: sum.splits prod.splits)

lemma optimistic_Inr:
  "fst (optimistic E k p) = Inr resp \<longleftrightarrow>
     (\<exists>c st1. p = (Inr (c, resp), st1) \<and> is_ok (fst (commit_orders E k c (db_orders st1))))"
proof -
  obtain r st1 where p: "p = (r, st1)" by (cases p)
  show ?thesis
  proof (cases r)
    case (Inr cr)
    obtain c resp' where "cr = (c, resp')" by (cases cr)
    with p Inr show ?thesis
      by (cases "fst (commit_orders E k c (db_orders st1))")
         (auto simp: optimistic_def then_do_def)
  qed (simp add: p optimistic_def)
qed

lemma optimistic_contract:
  assumes "db_orders (snd p) = rows"
  shows "orders_wf rows \<Longrightarrow> orders_wf (db_orders (snd (optimistic E k p)))"
    and "orders_evolve rows (db_orders (snd (optimistic E k p)))"
    and "\<not> is_ok (fst (optimistic E k p)) \<Longrightarrow> db_orders (snd (optimistic E k p)) = rows"
proof -
  show "orders_wf rows \<Longrightarrow> orders_wf (db_orders (snd (optimistic E k p)))"
    using assms by (auto simp: optimistic_orders commit_orders_wf split: sum.splits)
  show "orders_evolve rows (db_orders (snd (optimistic E k p)))"
    using assms by (auto simp: optimistic_orders commit_orders_evolves split: sum.splits)
  show "db_orders (snd (optimistic E k p)) = rows" if "\<not> is_ok (fst (optimistic E k p))"
  proof (cases "fst p")
    case (Inr cr)
    obtain c resp where cr: "cr = (c, resp)" by (cases cr)
    have "\<not> is_ok (fst (commit_orders E k c (db_orders (snd p))))"
    proof
      assume "is_ok (fst (commit_orders E k c (db_orders (snd p))))"
      then have "fst (optimistic E k p) = Inr resp"
        using Inr cr by (subst optimistic_Inr) (auto simp: prod_eq_iff)
      with that show False by simp
    qed
    with Inr cr assms show ?thesis by (simp add: optimistic_orders commit_orders_error)
  qed (simp add: optimistic_orders assms)
qed

lemma optimistic_success:
  assumes "optimistic E k p = (Inr resp, st')" "orders_wf (db_orders (snd p))"
  obtains c st1 r where "p = (Inr (c, resp), st1)" "db_fault E k = None"
    "select_order (cas_id c) (db_orders st1) = Some r" "o_version r = cas_version c"
    "st' = st1\<lparr>db_orders := snd (commit_orders E k c (db_orders st1))\<rparr>"
    "select_order (cas_id c) (db_orders st') = Some (apply_order_write (cas_write c) r)"
    "\<And>j. j \<noteq> cas_id c \<Longrightarrow> select_order j (db_orders st') = select_order j (db_orders st1)"
proof -
  from assms(1) obtain c st1 where p: "p = (Inr (c, resp), st1)"
    and ok: "is_ok (fst (commit_orders E k c (db_orders st1)))"
    using optimistic_Inr [of E k p resp] by auto
  with assms(2) obtain r where r: "db_fault E k = None"
    "select_order (cas_id c) (db_orders st1) = Some r" "o_version r = cas_version c"
    by (auto simp: commit_orders_ok_iff)
  have st': "st' = st1\<lparr>db_orders := snd (commit_orders E k c (db_orders st1))\<rparr>"
    using assms(1) ok by (auto simp: p optimistic_def then_do_def is_ok_iff)
  show thesis
    using that [OF p r st'] r assms(2)
    by (simp add: st' p commit_orders_row commit_orders_other)
qed

lemma optimistic_ok:
  assumes "p = (Inr (c, resp), st1)" "orders_wf (db_orders st1)" "db_fault E k = None"
    "select_order (cas_id c) (db_orders st1) = Some r" "o_version r = cas_version c"
  shows "fst (optimistic E k p) = Inr resp"
  using assms by (subst optimistic_Inr) (auto simp: commit_orders_ok_iff)

section \<open>Optimistic writes of listings\<close>

record listing_cas =
  lcas_id :: bytes
  lcas_version :: int
  lcas_write :: listing_write

definition listing_conflict :: app_error where
  "listing_conflict = Conflict ''Listing was modified by another request''"

definition commit_listing :: "env \<Rightarrow> nat \<Rightarrow> listing_cas \<Rightarrow> api_state \<Rightarrow> unit res \<times> api_state" where
  "commit_listing E k c st =
     (case db_fault E k of
        Some e \<Rightarrow> (Inl (db_error e), st)
      | None \<Rightarrow>
         (let (rows, affected) = update_listings (lcas_write c) (lcas_id c) (lcas_version c) (db_listings st);
              st = st\<lparr>db_listings := rows\<rparr>
          in if affected = 0 then (Inl listing_conflict, st) else (Inr (), st)))"

lemma commit_listing_contract:
  "listings_wf (db_listings st) \<Longrightarrow> listings_wf (db_listings (snd (commit_listing E k c st)))"
  "listings_evolve (db_listings st) (db_listings (snd (commit_listing E k c st)))"
  "\<not> is_ok (fst (commit_listing E k c st)) \<Longrightarrow> db_listings (snd (commit_listing E k c st)) = db_listings st"
  "db_orders (snd (commit_listing E k c st)) = db_orders st"
  by (auto simp: commit_listing_def Let_def split_beta listings_wf_def lst.keys_cas lst.evolves_cas
      update_listings_def lst.affected_0_unchanged split: option.splits if_splits)

lemma commit_listing_ok:
  assumes "listings_wf (db_listings st)"
  shows "is_ok (fst (commit_listing E k c st)) \<longleftrightarrow> db_fault E k = None
     \<and> (\<exists>r. select_listing (lcas_id c) (db_listings st) = Some r \<and> l_version r = lcas_version c)"
proof -
  let ?n = "snd (update_listings (lcas_write c) (lcas_id c) (lcas_version c) (db_listings st))"
  have "?n > 0 \<longleftrightarrow> (\<exists>r. select_listing (lcas_id c) (db_listings st) = Some r \<and> l_version r = lcas_version c)"
    using assms unfolding listings_wf_def update_listings_def by (rule lst.affected_pos)
  moreover have "is_ok (fst (commit_listing E k c st)) \<longleftrightarrow> db_fault E k = None \<and> ?n > 0"
    by (auto simp: commit_listing_def Let_def split_beta split: option.splits)
  ultimately show ?thesis by simp
qed

lemma commit_listing_select:
  assumes "db_fault E k = None"
  shows "select_listing j (db_listings (snd (commit_listing E k c st))) =
     map_option (\<lambda>r. if l_id r = lcas_id c \<and> l_version r = lcas_version c
                     then apply_listing_write (lcas_write c) r else r)
       (select_listing j (db_listings st))"
  using assms by (auto simp: commit_listing_def Let_def split_beta update_listings_def lst.select_cas)

end
