(* ===== verification/Orders.thy ===== *)
theory Orders
  imports Api
begin

text \<open>
  \<^verbatim>\<open>src/src/services/orders.rs\<close>: creating, reading and updating orders.  Blobs are opaque; an
  update must carry an Ed25519 signature over the order, its version, the hash of the new blob,
  the nonce and the hour.  \<open>update_order\<close> is its read phase followed by the conditional UPDATE.
\<close>

section \<open>Requests and responses\<close>

record create_order_request =
  co_blob :: string
  co_time_lock_days :: "nat option"
  co_nonce :: string

record update_order_request =
  uo_blob :: string
  uo_signature :: string
  uo_nonce :: string
  uo_hour_bucket :: nat

record order_response =
  or_id :: string
  or_blob :: "string option"
  or_day_bucket :: int
  or_expiry_bucket :: "int option"
  or_version :: int
  or_has_dispute :: bool

definition max_order_blob_bytes :: nat where
  "max_order_blob_bytes = 256 * 1024"

section \<open>Replay caches\<close>

definition check_create_nonce_replay :: "string \<Rightarrow> api_state \<Rightarrow> bool \<times> api_state" where
  "check_create_nonce_replay nonce st =
     (let (fresh, s) = replay_insert nonce (order_create_nonces st)
      in (fresh, st\<lparr>order_create_nonces := s\<rparr>))"

definition check_update_nonce_replay :: "string \<times> string \<Rightarrow> api_state \<Rightarrow> bool \<times> api_state" where
  "check_update_nonce_replay k st =
     (let (fresh, s) = replay_insert (colon_key (fst k) (snd k)) (order_update_nonces st)
      in (fresh, st\<lparr>order_update_nonces := s\<rparr>))"

section \<open>Handlers\<close>

definition check_order_blob :: "ext \<Rightarrow> string \<Rightarrow> bytes res" where
  "check_order_blob L s =
     and_then (map_err (\<lambda>e. BadRequest (''Invalid client_encrypted_blob base64: '' @ e)) (b64_decode L s))
       (\<lambda>blob. if blob = [] then Inl (BadRequest ''client_encrypted_blob is empty'')
               else if length blob > max_order_blob_bytes
               then Inl (BadRequest ''client_encrypted_blob too large'')
               else Inr blob)"

definition order_expiry :: "nat \<Rightarrow> int \<Rightarrow> int" where
  "order_expiry lock_days now =
     floor_timestamp_6h (saturating_add_i64 now (saturating_mul_i64 (u64_as_i64 lock_days) 86400))"

definition create_order ::
    "ext \<Rightarrow> app \<Rightarrow> env \<Rightarrow> create_order_request \<Rightarrow> api_state \<Rightarrow> order_response res \<times> api_state" where
  "create_order L A E req st =
     then_do (check_order_blob L (co_blob req), st) (\<lambda>blob st.
       (case check_create_nonce_replay (co_nonce req) st of
          (False, st) \<Rightarrow> (Inl (Conflict ''Create-order nonce already used''), st)
        | (True, st) \<Rightarrow>
           (let now = floor_timestamp_6h (unix_time E);
                lock_days = (case co_time_lock_days req of
                               Some d \<Rightarrow> d | None \<Rightarrow> default_lock_days (app_server A));
                expiry = order_expiry lock_days now;
                oid = random_id E
            in case db_fault E 0 of
                 Some e \<Rightarrow> (Inl (db_error e), st)
               | None \<Rightarrow>
                  (case insert_order (new_order_row oid blob now (Some expiry)) (db_orders st) of
                     None \<Rightarrow> (Inl (db_error (unique_violation L)), st)
                   | Some rows \<Rightarrow>
                      (Inr \<lparr>or_id = hex_encode L oid, or_blob = Some (co_blob req),
                            or_day_bucket = now, or_expiry_bucket = Some expiry,
                            or_version = 1, or_has_dispute = False\<rparr>,
                       st\<lparr>db_orders := rows\<rparr>)))))"

definition get_order :: "ext \<Rightarrow> env \<Rightarrow> string \<Rightarrow> api_state \<Rightarrow> order_response res" where
  "get_order L E i st =
     and_then (ok_or (BadRequest ''Invalid order_id'') (hex_decode L i)) (\<lambda>id_bytes.
     and_then (fetch_order E 0 id_bytes st) (\<lambda>row.
     and_then (ok_or (NotFound ''Order not found'') row) (\<lambda>r.
       Inr \<lparr>or_id = i, or_blob = Some (b64_encode L (encrypted_order_blob r)),
            or_day_bucket = o_day_bucket r, or_expiry_bucket = expiry_bucket r,
            or_version = o_version r, or_has_dispute = (has_dispute r \<noteq> 0)\<rparr>)))"

text \<open>The transition the signature must cover.\<close>

definition update_payload :: "ext \<Rightarrow> bytes \<Rightarrow> int \<Rightarrow> bytes \<Rightarrow> bytes \<Rightarrow> nat \<Rightarrow> transition_payload" where
  "update_payload L oid v blob nonce hour = transition_payload_new oid v (sha256 L blob) nonce hour"

definition check_update_signature ::
    "ext \<Rightarrow> bytes \<Rightarrow> bytes \<Rightarrow> int \<Rightarrow> bytes \<Rightarrow> update_order_request \<Rightarrow> unit res" where
  "check_update_signature L pubkey oid v blob req =
     and_then (ok_or (BadRequest ''Invalid nonce hex'') (hex_decode L (uo_nonce req))) (\<lambda>nonce_bytes.
     and_then (ok_or (BadRequest ''Invalid transition_signature hex'')
                 (hex_decode L (uo_signature req))) (\<lambda>sig_bytes.
     if length sig_bytes \<noteq> 64 then Inl (BadRequest ''Transition signature must be 64 bytes'')
     else and_then
       (map_err (\<lambda>e. AuthFailed (''Transition signature invalid: '' @ e))
          (verify_transition L pubkey
             (update_payload L oid v blob nonce_bytes (uo_hour_bucket req)) sig_bytes))
       (\<lambda>_. Inr ())))"

definition update_order_read ::
    "ext \<Rightarrow> env \<Rightarrow> bytes \<Rightarrow> string \<Rightarrow> update_order_request \<Rightarrow> api_state
       \<Rightarrow> (order_cas \<times> order_response) res \<times> api_state" where
  "update_order_read L E pubkey i req st =
     then_do (ok_or (BadRequest ''Invalid order_id'') (hex_decode L i), st) (\<lambda>id_bytes st.
     then_do (check_order_blob L (uo_blob req), st) (\<lambda>blob st.
       (case check_update_nonce_replay (i, uo_nonce req) st of
          (False, st) \<Rightarrow> (Inl (Conflict ''Update-order nonce already used''), st)
        | (True, st) \<Rightarrow>
           (and_then (fetch_order E 0 id_bytes st) (\<lambda>current.
            and_then (ok_or (NotFound ''Order not found'') current) (\<lambda>r.
            and_then (check_update_signature L pubkey id_bytes (o_version r) blob req) (\<lambda>_.
              Inr (\<lparr>cas_id = id_bytes, cas_version = o_version r, cas_write = SetOrderBlob blob\<rparr>,
                   \<lparr>or_id = i, or_blob = Some (uo_blob req), or_day_bucket = o_day_bucket r,
                    or_expiry_bucket = expiry_bucket r, or_version = wrap_i64 (o_version r + 1),
                    or_has_dispute = False\<rparr>)))), st))))"

definition update_order ::
    "ext \<Rightarrow> env \<Rightarrow> bytes \<Rightarrow> string \<Rightarrow> update_order_request \<Rightarrow> api_state
       \<Rightarrow> order_response res \<times> api_state" where
  "update_order L E pubkey i req st = optimistic E 1 (update_order_read L E pubkey i req st)"

section \<open>What the handlers change\<close>

lemma check_create_nonce_frame [simp]:
  "db_orders (snd (check_create_nonce_replay n st)) = db_orders st"
  "db_listings (snd (check_create_nonce_replay n st)) = db_listings st"
  by (simp_all add: check_create_nonce_replay_def replay_insert_def)

lemma check_update_nonce_frame [simp]:
  "db_orders (snd (check_update_nonce_replay k st)) = db_orders st"
  "db_listings (snd (check_update_nonce_replay k st)) = db_listings st"
  by (simp_all add: check_update_nonce_replay_def replay_insert_def)

lemma update_order_read_orders [simp]:
  "db_orders (snd (update_order_read L E pk i req st)) = db_orders st"
  unfolding update_order_read_def
  by (intro orders_frame) (auto simp: check_update_nonce_replay_def replay_insert_def split: bool.split)

lemma create_order_bad_blob:
  "check_order_blob L (co_blob req) = Inl e \<Longrightarrow> create_order L A E req st = (Inl e, st)"
  by (simp add: create_order_def)

lemma create_order_replayed:
  "check_order_blob L (co_blob req) = Inr blob \<Longrightarrow> co_nonce req \<in> order_create_nonces st \<Longrightarrow>
     create_order L A E req st = (Inl (Conflict ''Create-order nonce already used''), st)"
  by (simp add: create_order_def check_create_nonce_replay_def replay_insert_def insert_absorb)

definition created_row :: "app \<Rightarrow> env \<Rightarrow> create_order_request \<Rightarrow> bytes \<Rightarrow> order" where
  "created_row A E req blob =
     new_order_row (random_id E) blob (floor_timestamp_6h (unix_time E))
       (Some (order_expiry (case co_time_lock_days req of
                              Some d \<Rightarrow> d | None \<Rightarrow> default_lock_days (app_server A))
               (floor_timestamp_6h (unix_time E))))"

definition created_response :: "ext \<Rightarrow> create_order_request \<Rightarrow> order \<Rightarrow> order_response" where
  "created_response L req r =
     \<lparr>or_id = hex_encode L (o_id r), or_blob = Some (co_blob req), or_day_bucket = o_day_bucket r,
      or_expiry_bucket = expiry_bucket r, or_version = o_version r,
      or_has_dispute = (has_dispute r \<noteq> 0)\<rparr>"

lemma create_order_fresh:
  assumes "check_order_blob L (co_blob req) = Inr blob" "co_nonce req \<notin> order_create_nonces st"
  shows "create_order L A E req st =
     (let st1 = st\<lparr>order_create_nonces := insert (co_nonce req) (order_create_nonces st)\<rparr>;
          row = created_row A E req blob
      in case db_fault E 0 of
           Some e \<Rightarrow> (Inl (db_error e), st1)
         | None \<Rightarrow>
            (case insert_order row (db_orders st) of
               None \<Rightarrow> (Inl (db_error (unique_violation L)), st1)
             | Some rows \<Rightarrow> (Inr (created_response L req row), st1\<lparr>db_orders := rows\<rparr>)))"
  using assms
  by (simp add: create_order_def check_create_nonce_replay_def replay_insert_def created_row_def
      created_response_def new_order_row_def Let_def split: option.split)

lemma create_order_cases:
  obtains (failed) e where "fst (create_order L A E req st) = Inl e"
      "db_orders (snd (create_order L A E req st)) = db_orders st"
  | (stored) blob rows where "check_order_blob L (co_blob req) = Inr blob"
      "co_nonce req \<notin> order_create_nonces st" "db_fault E 0 = None"
      "insert_order (created_row A E req blob) (db_orders st) = Some rows"
      "create_order L A E req st =
         (Inr (created_response L req (created_row A E req blob)),
          st\<lparr>order_create_nonces := insert (co_nonce req) (order_create_nonces st), db_orders := rows\<rparr>)"
proof (cases "check_order_blob L (co_blob req)")
  case (Inl e)
  then show ?thesis by (intro failed) (simp_all add: create_order_bad_blob)
next
  case blob: (Inr blob)
  show ?thesis
  proof (cases "co_nonce req \<in> order_create_nonces st")
    case True
    with blob show ?thesis by (intro failed) (simp_all add: create_order_replayed)
  next
    case False
    note eq = create_order_fresh [OF blob this]
    show ?thesis
    proof (cases "db_fault E 0")
      case (Some e)
      with eq show ?thesis by (intro failed) (simp_all add: Let_def)
    next
      case None
      show ?thesis
      proof (cases "insert_order (created_row A E req blob) (db_orders st)")
        case (Some rows)
        with None eq show ?thesis by (intro stored [OF blob False]) (simp_all add: Let_def)
      next
        assume none: "insert_order (created_row A E req blob) (db_orders st) = None"
        with None eq show ?thesis by (intro failed) (simp_all add: Let_def)
      qed
    qed
  qed
qed

interpretation create_svc: order_service "\<lambda>(E, req). create_order L A E req" db_orders
proof (rule order_serviceI)
  fix s :: api_state and i :: "env \<times> create_order_request"
  obtain E req where i: "i = (E, req)" by (cases i)
  show "orders_wf (db_orders s) \<Longrightarrow>
      orders_wf (db_orders (snd ((\<lambda>(E, req). create_order L A E req) i s)))"
    by (cases rule: create_order_cases [of L A E req s]) (auto simp: i intro: orders_wf_insert)
  show "orders_evolve (db_orders s) (db_orders (snd ((\<lambda>(E, req). create_order L A E req) i s)))"
    by (cases rule: create_order_cases [of L A E req s]) (auto simp: i orders_evolve_insert)
  show "\<not> is_ok (fst ((\<lambda>(E, req). create_order L A E req) i s)) \<Longrightarrow>
      db_orders (snd ((\<lambda>(E, req). create_order L A E req) i s)) = db_orders s"
    by (cases rule: create_order_cases [of L A E req s]) (auto simp: i)
qed

interpretation update_svc: order_service "\<lambda>(E, pk, i, req). update_order L E pk i req" db_orders
  by (rule order_serviceI)
     (auto simp: update_order_def optimistic_contract [OF update_order_read_orders])

section \<open>When an update is accepted, and what it does\<close>

lemma check_order_blob_Inr:
  "check_order_blob L s = Inr blob \<longleftrightarrow>
     b64_decode L s = Inr blob \<and> blob \<noteq> [] \<and> length blob \<le> max_order_blob_bytes"
  by (cases "b64_decode L s") (auto simp: check_order_blob_def)

lemma check_update_signature_Inr:
  "check_update_signature L pk oid v blob req = Inr u \<longleftrightarrow>
     (\<exists>nonce sig. hex_decode L (uo_nonce req) = Some nonce \<and> hex_decode L (uo_signature req) = Some sig
        \<and> length sig = 64
        \<and> is_ok (verify_transition L pk (update_payload L oid v blob nonce (uo_hour_bucket req)) sig))"
  by (auto simp: check_update_signature_def is_ok_iff)

definition update_checks ::
    "ext \<Rightarrow> env \<Rightarrow> bytes \<Rightarrow> string \<Rightarrow> update_order_request \<Rightarrow> api_state \<Rightarrow> bytes \<Rightarrow> bytes \<Rightarrow> order \<Rightarrow> bool"
where
  "update_checks L E pk i req st oid blob r \<longleftrightarrow>
     hex_decode L i = Some oid \<and> check_order_blob L (uo_blob req) = Inr blob
     \<and> colon_key i (uo_nonce req) \<notin> order_update_nonces st \<and> db_fault E 0 = None
     \<and> select_order oid (db_orders st) = Some r
     \<and> check_update_signature L pk oid (o_version r) blob req = Inr ()"

lemma update_order_read_Inr:
  "update_order_read L E pk i req st = (Inr (c, resp), st1) \<longleftrightarrow>
     (\<exists>oid blob r. update_checks L E pk i req st oid blob r
        \<and> c = \<lparr>cas_id = oid, cas_version = o_version r, cas_write = SetOrderBlob blob\<rparr>
        \<and> resp = \<lparr>or_id = i, or_blob = Some (uo_blob req), or_day_bucket = o_day_bucket r,
             or_expiry_bucket = expiry_bucket r, or_version = wrap_i64 (o_version r + 1),
             or_has_dispute = False\<rparr>
        \<and> st1 = st\<lparr>order_update_nonces := insert (colon_key i (uo_nonce req)) (order_update_nonces st)\<rparr>)"
  (is "?lhs \<longleftrightarrow> ?rhs")
proof -
  have step: "(case check_update_nonce_replay (i, uo_nonce req) st of
      (False, s) \<Rightarrow> (Inl (Conflict ''Update-order nonce already used''), s) | (True, s) \<Rightarrow> f s)
    = (if colon_key i (uo_nonce req) \<in> order_update_nonces st
       then (Inl (Conflict ''Update-order nonce already used''), st)
       else f (st\<lparr>order_update_nonces := insert (colon_key i (uo_nonce req)) (order_update_nonces st)\<rparr>))" for f
    by (simp add: check_update_nonce_replay_def replay_insert_def insert_absorb)
  show ?thesis
    unfolding update_order_read_def update_checks_def
    by (cases "hex_decode L i"; cases "check_order_blob L (uo_blob req)")
       (auto simp: step)
qed

lemma update_order_ok_iff:
  assumes "orders_wf (db_orders st)"
  shows "is_ok (fst (update_order L E pk i req st)) \<longleftrightarrow>
     db_fault E 1 = None \<and> (\<exists>oid blob r. update_checks L E pk i req st oid blob r)"
proof
  assume "is_ok (fst (update_order L E pk i req st))"
  then obtain resp st' where "optimistic E 1 (update_order_read L E pk i req st) = (Inr resp, st')"
    by (auto simp: update_order_def is_ok_iff prod_eq_iff)
  then show "db_fault E 1 = None \<and> (\<exists>oid blob r. update_checks L E pk i req st oid blob r)"
    by (rule optimistic_success) (auto simp: assms update_order_read_Inr)
next
  assume "db_fault E 1 = None \<and> (\<exists>oid blob r. update_checks L E pk i req st oid blob r)"
  then obtain oid blob r where no: "db_fault E 1 = None" and chk: "update_checks L E pk i req st oid blob r"
    by blast
  then obtain resp where "update_order_read L E pk i req st =
      (Inr (\<lparr>cas_id = oid, cas_version = o_version r, cas_write = SetOrderBlob blob\<rparr>, resp),
       st\<lparr>order_update_nonces := insert (colon_key i (uo_nonce req)) (order_update_nonces st)\<rparr>)"
    by (auto simp: update_order_read_Inr)
  from optimistic_ok [OF this _ no] show "is_ok (fst (update_order L E pk i req st))"
    using assms chk by (simp add: update_order_def update_checks_def is_ok_iff)
qed

lemma update_order_success:
  assumes "orders_wf (db_orders st)" "update_order L E pk i req st = (Inr resp, st')"
  obtains oid blob r where "update_checks L E pk i req st oid blob r"
    "select_order oid (db_orders st') = Some (r\<lparr>encrypted_order_blob := blob, o_version := o_version r + 1\<rparr>)"
    "\<And>j. j \<noteq> oid \<Longrightarrow> select_order j (db_orders st') = select_order j (db_orders st)"
    "order_update_nonces st' = insert (colon_key i (uo_nonce req)) (order_update_nonces st)"
    "or_version resp = wrap_i64 (o_version r + 1)"
proof -
  from assms(2) have "optimistic E 1 (update_order_read L E pk i req st) = (Inr resp, st')"
    by (simp add: update_order_def)
  then obtain c st1 r where read: "update_order_read L E pk i req st = (Inr (c, resp), st1)"
    and r: "select_order (cas_id c) (db_orders st1) = Some r"
    and st': "st' = st1\<lparr>db_orders := snd (commit_orders E 1 c (db_orders st1))\<rparr>"
    and sel: "select_order (cas_id c) (db_orders st') = Some (apply_order_write (cas_write c) r)"
    and oth: "\<And>j. j \<noteq> cas_id c \<Longrightarrow> select_order j (db_orders st') = select_order j (db_orders st1)"
    using assms(1) by (elim optimistic_success) auto
  from read obtain oid blob r' where chk: "update_checks L E pk i req st oid blob r'"
    and c: "c = \<lparr>cas_id = oid, cas_version = o_version r', cas_write = SetOrderBlob blob\<rparr>"
    and v: "or_version resp = wrap_i64 (o_version r' + 1)"
    and st1: "st1 = st\<lparr>order_update_nonces := insert (colon_key i (uo_nonce req)) (order_update_nonces st)\<rparr>"
    unfolding update_order_read_Inr by (elim exE conjE) simp
  have "r' = r"
    using r chk by (simp add: c st1 update_checks_def)
  with that [OF chk] sel oth v show thesis
    by (simp add: c st1 st' apply_order_write_def)
qed

section \<open>Single use of nonces\<close>

lemma commit_order_nonces [simp]:
  "order_update_nonces (snd (commit_order E k c st)) = order_update_nonces st"
  by simp

lemma update_order_nonces:
  "order_update_nonces st \<subseteq> order_update_nonces (snd (update_order L E pk i req st))"
proof -
  have "order_update_nonces st \<subseteq> order_update_nonces (snd (update_order_read L E pk i req st))"
    by (cases "hex_decode L i"; cases "check_order_blob L (uo_blob req)")
       (auto simp: update_order_read_def check_update_nonce_replay_def replay_insert_def
         split: bool.splits)
  then show ?thesis
    by (auto simp: update_order_def optimistic_def then_do_def split: sum.splits prod.splits)
qed

lemma update_order_burns:
  assumes "is_ok (fst (update_order L E pk i req st))"
  shows "colon_key i (uo_nonce req) \<notin> order_update_nonces st"
    and "colon_key i (uo_nonce req) \<in> order_update_nonces (snd (update_order L E pk i req st))"
proof -
  obtain c resp st1 where read: "update_order_read L E pk i req st = (Inr (c, resp), st1)"
    using assms by (auto simp: update_order_def is_ok_iff optimistic_Inr)
  then show "colon_key i (uo_nonce req) \<notin> order_update_nonces st"
    unfolding update_order_read_Inr by (auto simp: update_checks_def)
  from read have "colon_key i (uo_nonce req) \<in> order_update_nonces st1"
    unfolding update_order_read_Inr by auto
  then show "colon_key i (uo_nonce req) \<in> order_update_nonces (snd (update_order L E pk i req st))"
    by (simp add: update_order_def read optimistic_def then_do_def split: sum.split)
qed

interpretation update_once: single_use "\<lambda>(E, pk, i, req). update_order L E pk i req" is_ok
    "\<lambda>(E, pk, i, req). colon_key i (uo_nonce req)" order_update_nonces
  by unfold_locales (use update_order_burns update_order_nonces in \<open>auto, blast+\<close>)

lemma create_order_burns:
  assumes "is_ok (fst (create_order L A E req st))"
  shows "co_nonce req \<notin> order_create_nonces st"
    and "co_nonce req \<in> order_create_nonces (snd (create_order L A E req st))"
  using assms by (cases rule: create_order_cases [of L A E req st]; simp)+

lemma create_order_nonces:
  "order_create_nonces st \<subseteq> order_create_nonces (snd (create_order L A E req st))"
proof (cases "check_order_blob L (co_blob req)")
  case (Inr blob)
  then show ?thesis
    by (cases "co_nonce req \<in> order_create_nonces st")
       (auto simp: create_order_replayed create_order_fresh Let_def split: option.split)
qed (simp add: create_order_bad_blob)

interpretation create_once: single_use "\<lambda>(E, req). create_order L A E req" is_ok
    "\<lambda>(E, req). co_nonce req" order_create_nonces
  by unfold_locales (use create_order_burns create_order_nonces in \<open>auto, blast+\<close>)

section \<open>Properties\<close>

text \<open>An order, a database holding it, and an update of it, for the instances below.\<close>

definition sample_order :: order where
  "sample_order = new_order_row [1] [5] 21600 (Some 626400)"

definition sample_state :: api_state where
  "sample_state = empty_api\<lparr>db_orders := [sample_order]\<rparr>"

definition sample_env :: env where
  "sample_env = \<lparr>unix_time = 50000, random_id = [2], db_fault = (\<lambda>_. None)\<rparr>"

definition sample_update :: update_order_request where
  "sample_update = \<lparr>uo_blob = ''ab'', uo_signature = demo_hex (replicate 64 9), uo_nonce = ''0c'',
     uo_hour_bucket = 13\<rparr>"

lemma sample_wf: "orders_wf (db_orders sample_state)"
  by (simp add: sample_state_def orders_wf_def)

lemma sample_checks:
  "update_checks demo_ext sample_env [] ''01'' sample_update sample_state [1] [97, 98] sample_order"
proof -
  have "demo_unhex (demo_hex (replicate 64 9)) = Some (replicate 64 9)"
    by (rule demo_unhex_hex)
  then show ?thesis
    by (simp add: update_checks_def check_order_blob_Inr check_update_signature_Inr is_ok_iff
        verify_transition_Inr to_cbor_def sample_update_def sample_state_def sample_env_def empty_api_def
        demo_ext_def as_bytes_def max_order_blob_bytes_def select_by_def sample_order_def
        new_order_row_def nibble_val_def)
qed





text \<open>
  End to end: an update built the way the WASM client builds it (the transition signed with
  the requester's secret key over the current version, the fields encoded in base64 and hex) is
  accepted by the server whenever the order exists, the nonce is unused and the database answers.
\<close>

theorem client_update_accepted:
  assumes "hex_ok L" "b64_ok L" "ed_ok L pub" "cbor_ok L" "length (sha256 L blob) = 32"
    and "orders_wf (db_orders st)" "no_faults E"
    and "select_order oid (db_orders st) = Some r"
    and "length sk = 32" "0 < length blob" "length blob \<le> 262144"
    and "wasm_sign_transition L sk oid (o_version r) (sha256 L blob) nonce hour = Inr sig"
    and "colon_key (hex_encode L oid) (hex_encode L nonce) \<notin> order_update_nonces st"
  shows "is_ok (fst (update_order L E (pub sk) (hex_encode L oid)
           \<lparr>uo_blob = b64_encode L blob, uo_signature = hex_encode L sig,
            uo_nonce = hex_encode L nonce, uo_hour_bucket = hour\<rparr> st))"
proof -
  obtain sig' where "wasm_sign_transition L sk oid (o_version r) (sha256 L blob) nonce hour = Inr sig'"
    "length sig' = 64"
    "verify_transition L (pub sk) (transition_payload_new oid (o_version r) (sha256 L blob) nonce hour) sig' =
       Inr (transition_payload_new oid (o_version r) (sha256 L blob) nonce hour)"
    using assms(3,4,9,5) by (rule wasm_sign_verifies)
  then show ?thesis
    using assms
    by (simp add: update_order_ok_iff update_checks_def check_order_blob_Inr check_update_signature_Inr
        update_payload_def max_order_blob_bytes_def)
qed

lemma client_update_accepted_witness:
  "is_ok (fst (update_order demo_ext sample_env (replicate 32 0) (demo_hex [1])
     \<lparr>uo_blob = b64_encode demo_ext [7], uo_signature = demo_hex (replicate 64 9),
      uo_nonce = demo_hex [3], uo_hour_bucket = 13\<rparr> sample_state))"
proof -
  have sign: "wasm_sign_transition demo_ext (replicate 32 0) [1] 1 (sha256 demo_ext [7]) [3] 13 = Inr (replicate 64 9)"
    by (simp add: wasm_sign_transition_def wasm_transition_to_cbor_def demo_ext_def)
  show ?thesis
    using client_update_accepted [OF demo_hex_ok demo_b64_ok demo_ed_ok demo_cbor_ok, of "[7]" sample_state
        sample_env "[1]" sample_order "replicate 32 0" "[3]" 13 "replicate 64 9"] sign sample_wf
    by (simp add: demo_ext_def sample_state_def sample_env_def empty_api_def select_by_def sample_order_def
        new_order_row_def no_faults_def)
qed



text \<open>
  Whatever requests are handled in whatever order, at most one update with a given
  (order, nonce) pair is accepted.
\<close>

theorem update_nonce_single_use:
  assumes "a < b" "b < length calls"
    and "calls ! a = (E1, pk1, i, req1)" "calls ! b = (E2, pk2, i, req2)" "uo_nonce req1 = uo_nonce req2"
    and "is_ok (fst (run_ops (\<lambda>(E, pk, i, req). update_order L E pk i req) calls st) ! a)"
  shows "\<not> is_ok (fst (run_ops (\<lambda>(E, pk, i, req). update_order L E pk i req) calls st) ! b)"
  using assms by (intro update_once.accepted_once [of a]) simp_all

lemma update_nonce_single_use_witness:
  "map is_ok (fst (run_ops (\<lambda>(E, pk, i, req). update_order demo_ext E pk i req)
     [(sample_env, [], ''01'', sample_update), (sample_env, [], ''01'', sample_update)] sample_state)) =
   [True, False]"
proof -
  have "is_ok (fst (update_order demo_ext sample_env [] ''01'' sample_update sample_state))"
    using sample_checks by (auto simp: update_order_ok_iff [OF sample_wf] sample_env_def)
  then show ?thesis
    using update_nonce_single_use [of 0 1 "[(sample_env, [], ''01'', sample_update), (sample_env, [], ''01'', sample_update)]"
        sample_env "[]" "''01''" sample_update sample_env "[]" sample_update demo_ext sample_state]
    by simp
qed

end
