(* ===== verification/Disputes.thy ===== *)
theory Disputes
  imports Api
begin

text \<open>
  \<^verbatim>\<open>src/src/services/disputes.rs\<close>: opening, reading and updating a dispute on an order row, and
  its resolution by the holder of a blind-signed administrator token.  The token checks of
  \<open>resolve_dispute\<close> and of \<^verbatim>\<open>admin.rs\<close> are the same code on different contexts: one definition,
  \<open>check_admin_token\<close>.
\<close>

section \<open>Requests and responses\<close>

record open_dispute_request =
  od_order_id :: string
  od_blob :: string
  od_transition_signature :: string
  od_nonce :: string

record update_dispute_request =
  ud_blob :: string
  ud_transition_signature :: string
  ud_nonce :: string

record admin_token =
  token_signature :: "string option"
  token_message :: "string option"
  token_nonce :: "string option"
  token_expiry_hour :: "int option"

record resolve_dispute_request =
  outcome_blob :: string
  admin_signature :: string
  rd_nonce :: string
  rd_token :: admin_token

record dispute_response =
  dr_id :: string
  dr_order_id :: string
  dr_blob :: "string option"
  dr_version :: int
  dr_has_dispute :: bool

definition max_dispute_blob_bytes :: nat where
  "max_dispute_blob_bytes = 512 * 1024"

section \<open>Replay caches\<close>

definition check_dispute_nonce_replay :: "string \<times> string \<Rightarrow> api_state \<Rightarrow> bool \<times> api_state" where
  "check_dispute_nonce_replay k st =
     (let (fresh, s) = replay_insert (colon_key (fst k) (snd k)) (dispute_nonces st)
      in (fresh, st\<lparr>dispute_nonces := s\<rparr>))"

definition check_admin_token_replay :: "string \<times> string \<Rightarrow> api_state \<Rightarrow> bool \<times> api_state" where
  "check_admin_token_replay k st =
     (let (fresh, s) = replay_insert (colon_key (fst k) (snd k)) (admin_token_nonces st)
      in (fresh, st\<lparr>admin_token_nonces := s\<rparr>))"

interpretation dispute_cache: replay_cache check_dispute_nonce_replay "\<lambda>k. colon_key (fst k) (snd k)" dispute_nonces
  by unfold_locales (simp_all add: check_dispute_nonce_replay_def replay_insert_def)

interpretation admin_token_cache: replay_cache check_admin_token_replay "\<lambda>k. colon_key (fst k) (snd k)" admin_token_nonces
  by unfold_locales (simp_all add: check_admin_token_replay_def replay_insert_def)

section \<open>The administrator token\<close>

text \<open>\<^verbatim>\<open>(expiry - now_hour).abs() > 1\<close> on \<^verbatim>\<open>i64\<close>, both operations wrapping.\<close>

definition token_hour_ok :: "int \<Rightarrow> nat \<Rightarrow> bool" where
  "token_hour_ok expiry now_secs =
     (let now_hour = u64_as_i64 (now_secs div 3600)
      in \<not> wrap_i64 \<bar>wrap_i64 (expiry - now_hour)\<bar> > 1)"

text \<open>The nonce of the token in hex, when every check passes.\<close>

definition check_admin_token ::
    "ext \<Rightarrow> env \<Rightarrow> admin_keypair \<Rightarrow> string \<Rightarrow> string \<Rightarrow> admin_token \<Rightarrow> string res" where
  "check_admin_token L E kp domain action tk =
     and_then (ok_or (BadRequest ''Missing or invalid token_signature'')
                 (Option.bind (token_signature tk) (hex_decode L))) (\<lambda>sig_bytes.
     and_then (ok_or (BadRequest ''Missing or invalid token_message'')
                 (Option.bind (token_message tk) (hex_decode L))) (\<lambda>msg_bytes.
     and_then (ok_or (BadRequest ''Missing token_nonce'') (token_nonce tk)) (\<lambda>nonce_hex.
     and_then (ok_or (BadRequest ''Invalid token_nonce hex'') (hex_decode L nonce_hex)) (\<lambda>nonce_bytes.
     and_then (ok_or (BadRequest ''Missing token_expiry_hour'') (token_expiry_hour tk)) (\<lambda>expiry.
     and_then (require (length msg_bytes = 32) (BadRequest ''token_message must be 32 bytes'')) (\<lambda>_.
     and_then (require (msg_bytes = compose_token_message L domain action nonce_bytes (i64_as_u64 expiry))
                 (Forbidden ''Token message does not match request context'')) (\<lambda>_.
     and_then (require (verify_token L msg_bytes sig_bytes (kp_public kp))
                 (Forbidden ''Invalid admin token signature'')) (\<lambda>_.
     and_then (require (token_hour_ok expiry (unix_secs E))
                 (Forbidden ''Admin token expired or not yet valid'')) (\<lambda>_.
       Inr nonce_hex)))))))))"

section \<open>Handlers\<close>

definition check_dispute_blob :: "ext \<Rightarrow> string \<Rightarrow> bytes res" where
  "check_dispute_blob L s =
     and_then (map_err (\<lambda>e. BadRequest (''Invalid client_encrypted_blob base64: '' @ e)) (b64_decode L s))
       (\<lambda>blob. and_then (require (length blob \<le> max_dispute_blob_bytes) (BadRequest ''dispute blob too large''))
         (\<lambda>_. Inr blob))"

definition open_dispute_read ::
    "ext \<Rightarrow> env \<Rightarrow> open_dispute_request \<Rightarrow> api_state \<Rightarrow> (order_cas \<times> dispute_response) res \<times> api_state" where
  "open_dispute_read L E req st =
     then_do (ok_or (BadRequest ''Invalid order_id'') (hex_decode L (od_order_id req)), st) (\<lambda>oid st.
     then_do (check_dispute_blob L (od_blob req), st) (\<lambda>blob st.
       (case check_dispute_nonce_replay (od_order_id req, od_nonce req) st of
          (False, st) \<Rightarrow> (Inl (Conflict ''Dispute nonce already used''), st)
        | (True, st) \<Rightarrow>
           (and_then (fetch_order E 0 oid st) (\<lambda>current.
            and_then (ok_or (NotFound ''Order not found'') current) (\<lambda>r.
              Inr (\<lparr>cas_id = oid, cas_version = o_version r, cas_write = OpenDispute blob\<rparr>,
                   \<lparr>dr_id = uuid_to_string L (random_id E), dr_order_id = od_order_id req,
                    dr_blob = Some (od_blob req), dr_version = wrap_i64 (o_version r + 1),
                    dr_has_dispute = True\<rparr>))), st))))"

definition open_dispute ::
    "ext \<Rightarrow> env \<Rightarrow> open_dispute_request \<Rightarrow> api_state \<Rightarrow> dispute_response res \<times> api_state" where
  "open_dispute L E req st = optimistic E 1 (open_dispute_read L E req st)"

definition get_dispute :: "ext \<Rightarrow> env \<Rightarrow> string \<Rightarrow> api_state \<Rightarrow> dispute_response res" where
  "get_dispute L E i st =
     and_then (ok_or (BadRequest ''Invalid id'') (hex_decode L i)) (\<lambda>oid.
     and_then (fetch_order E 0 oid st) (\<lambda>row.
     and_then (ok_or (NotFound ''Dispute not found'') row) (\<lambda>r.
     and_then (require (has_dispute r \<noteq> 0) (NotFound ''No dispute for this order'')) (\<lambda>_.
       Inr \<lparr>dr_id = i, dr_order_id = hex_encode L oid,
            dr_blob = map_option (b64_encode L) (dispute_client_blob r),
            dr_version = o_version r, dr_has_dispute = True\<rparr>))))"

definition update_dispute_read ::
    "ext \<Rightarrow> env \<Rightarrow> string \<Rightarrow> update_dispute_request \<Rightarrow> api_state
       \<Rightarrow> (order_cas \<times> dispute_response) res \<times> api_state" where
  "update_dispute_read L E i req st =
     then_do (ok_or (BadRequest ''Invalid id'') (hex_decode L i), st) (\<lambda>oid st.
     then_do (check_dispute_blob L (ud_blob req), st) (\<lambda>blob st.
       (case check_dispute_nonce_replay (i, ud_nonce req) st of
          (False, st) \<Rightarrow> (Inl (Conflict ''Dispute nonce already used''), st)
        | (True, st) \<Rightarrow>
           (and_then (fetch_order E 0 oid st) (\<lambda>current.
            and_then (ok_or (NotFound ''Dispute not found'') current) (\<lambda>r.
              Inr (\<lparr>cas_id = oid, cas_version = o_version r, cas_write = UpdateDispute blob\<rparr>,
                   \<lparr>dr_id = i, dr_order_id = i, dr_blob = Some (ud_blob req),
                    dr_version = wrap_i64 (o_version r + 1), dr_has_dispute = True\<rparr>))), st))))"

definition update_dispute ::
    "ext \<Rightarrow> env \<Rightarrow> string \<Rightarrow> update_dispute_request \<Rightarrow> api_state \<Rightarrow> dispute_response res \<times> api_state" where
  "update_dispute L E i req st = optimistic E 1 (update_dispute_read L E i req st)"

definition check_outcome_blob :: "ext \<Rightarrow> string \<Rightarrow> bytes res" where
  "check_outcome_blob L s =
     and_then (map_err (\<lambda>e. BadRequest (''Invalid outcome_blob base64: '' @ e)) (b64_decode L s))
       (\<lambda>blob. and_then (require (length blob \<le> max_dispute_blob_bytes) (BadRequest ''outcome blob too large''))
         (\<lambda>_. Inr blob))"

definition resolve_dispute_read ::
    "ext \<Rightarrow> app \<Rightarrow> env \<Rightarrow> string \<Rightarrow> resolve_dispute_request \<Rightarrow> api_state
       \<Rightarrow> (order_cas \<times> dispute_response) res \<times> api_state" where
  "resolve_dispute_read L A E i req st =
     then_do (ok_or (Internal ''Admin keypair not configured'') (app_admin_keypair A), st) (\<lambda>kp st.
     then_do (check_admin_token L E kp ''dispute:resolve'' i (rd_token req), st) (\<lambda>nonce_hex st.
       (case check_admin_token_replay (i, nonce_hex) st of
          (False, st) \<Rightarrow> (Inl (Conflict ''Admin token nonce already used''), st)
        | (True, st) \<Rightarrow>
           (and_then (ok_or (BadRequest ''Invalid id'') (hex_decode L i)) (\<lambda>oid.
            and_then (check_outcome_blob L (outcome_blob req)) (\<lambda>outcome.
            and_then (fetch_order E 0 oid st) (\<lambda>current.
            and_then (ok_or (NotFound ''Dispute not found'') current) (\<lambda>r.
              Inr (\<lparr>cas_id = oid, cas_version = o_version r, cas_write = ResolveDispute outcome\<rparr>,
                   \<lparr>dr_id = i, dr_order_id = i, dr_blob = Some (outcome_blob req),
                    dr_version = wrap_i64 (o_version r + 1), dr_has_dispute = False\<rparr>))))), st))))"

definition resolve_dispute ::
    "ext \<Rightarrow> app \<Rightarrow> env \<Rightarrow> string \<Rightarrow> resolve_dispute_request \<Rightarrow> api_state
       \<Rightarrow> dispute_response res \<times> api_state" where
  "resolve_dispute L A E i req st = optimistic E 1 (resolve_dispute_read L A E i req st)"

section \<open>The contract of the three writers\<close>

lemma dispute_nonce_frame [simp]:
  "db_orders (snd (check_dispute_nonce_replay k st)) = db_orders st"
  "db_orders (snd (check_admin_token_replay k st)) = db_orders st"
  by (simp_all add: check_dispute_nonce_replay_def check_admin_token_replay_def replay_insert_def)

lemma open_dispute_read_orders [simp]: "db_orders (snd (open_dispute_read L E req st)) = db_orders st"
  unfolding open_dispute_read_def
  by (intro orders_frame) (auto simp: check_dispute_nonce_replay_def replay_insert_def split: bool.split)

lemma update_dispute_read_orders [simp]: "db_orders (snd (update_dispute_read L E i req st)) = db_orders st"
  unfolding update_dispute_read_def
  by (intro orders_frame) (auto simp: check_dispute_nonce_replay_def replay_insert_def split: bool.split)

lemma resolve_dispute_read_orders [simp]: "db_orders (snd (resolve_dispute_read L A E i req st)) = db_orders st"
  unfolding resolve_dispute_read_def
  by (intro orders_frame) (auto simp: check_admin_token_replay_def replay_insert_def split: bool.split)

interpretation open_dispute_svc: order_service "\<lambda>(E, req). open_dispute L E req" db_orders
  by (rule order_serviceI) (auto simp: open_dispute_def optimistic_contract [OF open_dispute_read_orders])

interpretation update_dispute_svc: order_service "\<lambda>(E, i, req). update_dispute L E i req" db_orders
  by (rule order_serviceI) (auto simp: update_dispute_def optimistic_contract [OF update_dispute_read_orders])

interpretation resolve_dispute_svc: order_service "\<lambda>(E, i, req). resolve_dispute L A E i req" db_orders
  by (rule order_serviceI) (auto simp: resolve_dispute_def optimistic_contract [OF resolve_dispute_read_orders])

section \<open>The read phases\<close>

lemma token_hour_ok_iff:
  assumes "in_i64 expiry" "now < 2 ^ 63"
  shows "token_hour_ok expiry now \<longleftrightarrow>
     \<bar>expiry - int (now div 3600)\<bar> \<le> 1 \<or> expiry = int (now div 3600) - 2 ^ 63"
proof -
  have h: "u64_as_i64 (now div 3600) = int (now div 3600)"
    using assms(2) by (simp add: u64_as_i64_def wrap_i64_id in_i64_def i64_min_def i64_max_def)
  let ?d = "expiry - int (now div 3600)"
  have "int (now div 3600) < 2 ^ 62" using assms(2) by simp
  then have d: "- (2 ^ 63) - 2 ^ 62 \<le> ?d" "?d < 2 ^ 63"
    using assms(1) by (simp_all add: in_i64_def i64_min_def i64_max_def)
  show ?thesis
  proof (cases "?d < - (2 ^ 63)")
    case True
    then have "wrap_i64 ?d = ?d + 2 ^ 64"
      using d by (intro wrap_i64_below) simp_all
    moreover have "wrap_i64 \<bar>?d + 2 ^ 64\<bar> = ?d + 2 ^ 64"
      using True d by (simp add: wrap_i64_id in_i64_def i64_min_def i64_max_def)
    ultimately show ?thesis using True d by (simp add: token_hour_ok_def h)
  next
    case False
    then have w: "wrap_i64 ?d = ?d"
      using d by (simp add: wrap_i64_id in_i64_def i64_min_def i64_max_def)
    show ?thesis
    proof (cases "?d = - (2 ^ 63)")
      case True
      then show ?thesis using w by (simp add: token_hour_ok_def h) (simp add: wrap_i64_def)
    next
      case no: False
      then have "\<bar>?d\<bar> \<le> 2 ^ 63 - 1" "- (2 ^ 63) \<le> \<bar>?d\<bar>"
        using d False by linarith+
      then have "wrap_i64 \<bar>?d\<bar> = \<bar>?d\<bar>"
        by (intro wrap_i64_id) (simp only: in_i64_def i64_min_def i64_max_def simp_thms)
      then show ?thesis using w no by (auto simp: token_hour_ok_def h)
    qed
  qed
qed

definition token_accepted :: "ext \<Rightarrow> env \<Rightarrow> admin_keypair \<Rightarrow> string \<Rightarrow> string \<Rightarrow> admin_token \<Rightarrow> string \<Rightarrow> bool" where
  "token_accepted L E kp domain action tk nonce_hex \<longleftrightarrow>
     token_nonce tk = Some nonce_hex \<and>
     (\<exists>sig_hex sig msg_hex msg nonce expiry.
        token_signature tk = Some sig_hex \<and> hex_decode L sig_hex = Some sig
        \<and> token_message tk = Some msg_hex \<and> hex_decode L msg_hex = Some msg \<and> length msg = 32
        \<and> hex_decode L nonce_hex = Some nonce \<and> token_expiry_hour tk = Some expiry
        \<and> msg = compose_token_message L domain action nonce (i64_as_u64 expiry)
        \<and> verify_token L msg sig (kp_public kp) \<and> token_hour_ok expiry (unix_secs E))"

lemma check_admin_token_Inr:
  "check_admin_token L E kp domain action tk = Inr n \<longleftrightarrow> token_accepted L E kp domain action tk n"
  by (auto simp: check_admin_token_def token_accepted_def bind_eq_Some_conv)

lemma check_dispute_blob_Inr:
  "check_dispute_blob L s = Inr b \<longleftrightarrow> b64_decode L s = Inr b \<and> length b \<le> max_dispute_blob_bytes"
  by (auto simp: check_dispute_blob_def)

lemma check_outcome_blob_Inr:
  "check_outcome_blob L s = Inr b \<longleftrightarrow> b64_decode L s = Inr b \<and> length b \<le> max_dispute_blob_bytes"
  by (auto simp: check_outcome_blob_def)

lemma check_dispute_nonce_step:
  "(case check_dispute_nonce_replay k st of (False, s) \<Rightarrow> g s | (True, s) \<Rightarrow> f s) =
     (let s = st\<lparr>dispute_nonces := insert (colon_key (fst k) (snd k)) (dispute_nonces st)\<rparr>
      in if colon_key (fst k) (snd k) \<in> dispute_nonces st then g s else f s)"
  by (cases "colon_key (fst k) (snd k) \<in> dispute_nonces st")
     (simp_all add: check_dispute_nonce_replay_def replay_insert_def)

lemma check_admin_token_step:
  "(case check_admin_token_replay k st of (False, s) \<Rightarrow> g s | (True, s) \<Rightarrow> f s) =
     (let s = st\<lparr>admin_token_nonces := insert (colon_key (fst k) (snd k)) (admin_token_nonces st)\<rparr>
      in if colon_key (fst k) (snd k) \<in> admin_token_nonces st then g s else f s)"
  by (cases "colon_key (fst k) (snd k) \<in> admin_token_nonces st")
     (simp_all add: check_admin_token_replay_def replay_insert_def)

lemma open_dispute_read_Inr:
  "open_dispute_read L E req st = (Inr (c, resp), st1) \<longleftrightarrow>
     (\<exists>oid blob r. hex_decode L (od_order_id req) = Some oid \<and> check_dispute_blob L (od_blob req) = Inr blob
        \<and> colon_key (od_order_id req) (od_nonce req) \<notin> dispute_nonces st \<and> db_fault E 0 = None
        \<and> select_order oid (db_orders st) = Some r
        \<and> c = \<lparr>cas_id = oid, cas_version = o_version r, cas_write = OpenDispute blob\<rparr>
        \<and> resp = \<lparr>dr_id = uuid_to_string L (random_id E), dr_order_id = od_order_id req,
             dr_blob = Some (od_blob req), dr_version = wrap_i64 (o_version r + 1), dr_has_dispute = True\<rparr>
        \<and> st1 = st\<lparr>dispute_nonces := insert (colon_key (od_order_id req) (od_nonce req)) (dispute_nonces st)\<rparr>)"
  unfolding open_dispute_read_def
  by (cases "hex_decode L (od_order_id req)"; cases "check_dispute_blob L (od_blob req)")
     (auto simp: check_dispute_nonce_step Let_def)

lemma resolve_dispute_read_Inr:
  "resolve_dispute_read L A E i req st = (Inr (c, resp), st1) \<longleftrightarrow>
     (\<exists>kp n oid blob r. app_admin_keypair A = Some kp
        \<and> token_accepted L E kp ''dispute:resolve'' i (rd_token req) n
        \<and> colon_key i n \<notin> admin_token_nonces st
        \<and> hex_decode L i = Some oid \<and> check_outcome_blob L (outcome_blob req) = Inr blob
        \<and> db_fault E 0 = None \<and> select_order oid (db_orders st) = Some r
        \<and> c = \<lparr>cas_id = oid, cas_version = o_version r, cas_write = ResolveDispute blob\<rparr>
        \<and> resp = \<lparr>dr_id = i, dr_order_id = i, dr_blob = Some (outcome_blob req),
             dr_version = wrap_i64 (o_version r + 1), dr_has_dispute = False\<rparr>
        \<and> st1 = st\<lparr>admin_token_nonces := insert (colon_key i n) (admin_token_nonces st)\<rparr>)"
proof (cases "app_admin_keypair A")
  case (Some kp)
  show ?thesis
  proof (cases "check_admin_token L E kp ''dispute:resolve'' i (rd_token req)")
    case (Inl e)
    then have "\<not> token_accepted L E kp ''dispute:resolve'' i (rd_token req) n" for n
      by (simp flip: check_admin_token_Inr)
    with Some Inl show ?thesis by (simp add: resolve_dispute_read_def)
  next
    case (Inr n)
    then have "token_accepted L E kp ''dispute:resolve'' i (rd_token req) m \<longleftrightarrow> m = n" for m
      by (auto simp flip: check_admin_token_Inr)
    with Some Inr show ?thesis
      by (auto simp: resolve_dispute_read_def check_admin_token_step Let_def)
  qed
qed (simp add: resolve_dispute_read_def)

lemma resolve_dispute_success:
  assumes "orders_wf (db_orders st)" "resolve_dispute L A E i req st = (Inr resp, st')"
  obtains kp n oid blob r where "app_admin_keypair A = Some kp"
    "token_accepted L E kp ''dispute:resolve'' i (rd_token req) n"
    "colon_key i n \<notin> admin_token_nonces st" "hex_decode L i = Some oid"
    "check_outcome_blob L (outcome_blob req) = Inr blob" "select_order oid (db_orders st) = Some r"
    "select_order oid (db_orders st') = Some (apply_order_write (ResolveDispute blob) r)"
    "\<And>j. j \<noteq> oid \<Longrightarrow> select_order j (db_orders st') = select_order j (db_orders st)"
    "admin_token_nonces st' = insert (colon_key i n) (admin_token_nonces st)"
    "orders_wf (db_orders st')"
proof -
  have wf: "orders_wf (db_orders st')"
    using resolve_dispute_svc.op_wf [of st L A "(E, i, req)"] assms by (simp add: orders_wf_def)
  from assms(2) have "optimistic E 1 (resolve_dispute_read L A E i req st) = (Inr resp, st')"
    by (simp add: resolve_dispute_def)
  then obtain c st1 r where read: "resolve_dispute_read L A E i req st = (Inr (c, resp), st1)"
    and r: "select_order (cas_id c) (db_orders st1) = Some r"
    and st': "st' = st1\<lparr>db_orders := snd (commit_orders E 1 c (db_orders st1))\<rparr>"
    and sel: "select_order (cas_id c) (db_orders st') = Some (apply_order_write (cas_write c) r)"
    and oth: "\<And>j. j \<noteq> cas_id c \<Longrightarrow> select_order j (db_orders st') = select_order j (db_orders st1)"
    using assms(1) by (elim optimistic_success) auto
  from read obtain kp n oid blob r' where x: "app_admin_keypair A = Some kp"
    "token_accepted L E kp ''dispute:resolve'' i (rd_token req) n" "colon_key i n \<notin> admin_token_nonces st"
    "hex_decode L i = Some oid" "check_outcome_blob L (outcome_blob req) = Inr blob"
    and r': "select_order oid (db_orders st) = Some r'"
    and c: "c = \<lparr>cas_id = oid, cas_version = o_version r', cas_write = ResolveDispute blob\<rparr>"
    and st1: "st1 = st\<lparr>admin_token_nonces := insert (colon_key i n) (admin_token_nonces st)\<rparr>"
    unfolding resolve_dispute_read_Inr by (elim exE conjE)
  have "r' = r" using r r' by (simp add: c st1)
  with that [OF x r'] sel oth wf show thesis by (simp add: c st1 st')
qed

lemma resolve_dispute_ok:
  assumes "orders_wf (db_orders st)" "app_admin_keypair A = Some kp"
    "token_accepted L E kp ''dispute:resolve'' i (rd_token req) n" "colon_key i n \<notin> admin_token_nonces st"
    "hex_decode L i = Some oid" "check_outcome_blob L (outcome_blob req) = Inr blob"
    "db_fault E 0 = None" "db_fault E 1 = None" "select_order oid (db_orders st) = Some r"
  shows "is_ok (fst (resolve_dispute L A E i req st))"
proof -
  obtain resp where "resolve_dispute_read L A E i req st =
      (Inr (\<lparr>cas_id = oid, cas_version = o_version r, cas_write = ResolveDispute blob\<rparr>, resp),
       st\<lparr>admin_token_nonces := insert (colon_key i n) (admin_token_nonces st)\<rparr>)"
    using assms by (auto simp: resolve_dispute_read_Inr)
  from optimistic_ok [OF this _ assms(8)] assms(1,9) show ?thesis
    by (simp add: resolve_dispute_def is_ok_iff)
qed

lemma open_dispute_success:
  assumes "orders_wf (db_orders st)" "open_dispute L E req st = (Inr resp, st')"
  obtains oid blob r where "hex_decode L (od_order_id req) = Some oid"
    "check_dispute_blob L (od_blob req) = Inr blob" "select_order oid (db_orders st) = Some r"
    "select_order oid (db_orders st') = Some (apply_order_write (OpenDispute blob) r)"
    "\<And>j. j \<noteq> oid \<Longrightarrow> select_order j (db_orders st') = select_order j (db_orders st)"
    "orders_wf (db_orders st')"
proof -
  have wf: "orders_wf (db_orders st')"
    using open_dispute_svc.op_wf [of st L "(E, req)"] assms by (simp add: orders_wf_def)
  from assms(2) have "optimistic E 1 (open_dispute_read L E req st) = (Inr resp, st')"
    by (simp add: open_dispute_def)
  then obtain c st1 r where read: "open_dispute_read L E req st = (Inr (c, resp), st1)"
    and r: "select_order (cas_id c) (db_orders st1) = Some r"
    and st': "st' = st1\<lparr>db_orders := snd (commit_orders E 1 c (db_orders st1))\<rparr>"
    and sel: "select_order (cas_id c) (db_orders st') = Some (apply_order_write (cas_write c) r)"
    and oth: "\<And>j. j \<noteq> cas_id c \<Longrightarrow> select_order j (db_orders st') = select_order j (db_orders st1)"
    using assms(1) by (elim optimistic_success) auto
  from read obtain oid blob r' where x: "hex_decode L (od_order_id req) = Some oid"
    "check_dispute_blob L (od_blob req) = Inr blob"
    and r': "select_order oid (db_orders st) = Some r'"
    and c: "c = \<lparr>cas_id = oid, cas_version = o_version r', cas_write = OpenDispute blob\<rparr>"
    and st1: "st1 = st\<lparr>dispute_nonces := insert (colon_key (od_order_id req) (od_nonce req)) (dispute_nonces st)\<rparr>"
    unfolding open_dispute_read_Inr by (elim exE conjE)
  have "r' = r" using r r' by (simp add: c st1)
  with that [OF x r'] sel oth wf show thesis by (simp add: c st1 st')
qed

section \<open>Properties\<close>

text \<open>An administrator's key, and a token and an order to use it on.\<close>

definition sample_kp :: admin_keypair where
  "sample_kp = \<lparr>kp_private = \<lparr>sk_n = 70, sk_e = 5, sk_d = 5\<rparr>, kp_public = \<lparr>pk_n = 70, pk_e = 5\<rparr>\<rparr>"

definition sample_app :: app where
  "sample_app = \<lparr>app_server = default_server_config, app_worker_key = None, app_admin_keypair = Some sample_kp\<rparr>"

definition disputed_order :: order where
  "disputed_order = (new_order_row [1] [5] 21600 (Some 626400))\<lparr>has_dispute := 1, dispute_client_blob := Some [8]\<rparr>"

definition disputed_state :: api_state where
  "disputed_state = empty_api\<lparr>db_orders := [disputed_order]\<rparr>"

definition noon_env :: env where
  "noon_env = \<lparr>unix_time = 36000, random_id = [2], db_fault = (\<lambda>_. None)\<rparr>"

definition sample_token :: "string \<Rightarrow> string \<Rightarrow> string \<Rightarrow> admin_token" where
  "sample_token domain action nonce =
     (let msg = compose_token_message demo_ext domain action (case demo_unhex nonce of Some b \<Rightarrow> b | None \<Rightarrow> []) 10
      in \<lparr>token_signature = Some (demo_hex (demo_to_be (demo_from_be msg 0 ^ 5 mod 70))),
          token_message = Some (demo_hex msg), token_nonce = Some nonce, token_expiry_hour = Some 10\<rparr>)"

definition sample_resolution :: resolve_dispute_request where
  "sample_resolution = \<lparr>outcome_blob = ''ok'', admin_signature = [], rd_nonce = [],
     rd_token = sample_token ''dispute:resolve'' ''01'' ''0a''\<rparr>"

lemma dec_small: "n < 10 \<Longrightarrow> dec n = [digit_char n]"
  by (simp add: dec.simps)

lemma dec_10: "dec 10 = ''10''"
  by code_simp

lemma demo_to_be_small: "0 < n \<Longrightarrow> n < 256 \<Longrightarrow> demo_to_be n = [of_nat n]"
  by (subst demo_to_be.simps, subst demo_to_be.simps) simp

lemma demo_from_be_zeros: "demo_from_be (replicate k 0 @ [b]) 0 = unat b"
  by (simp add: demo_from_be_snoc) (induction k, simp_all)

lemma sample_token_accepted:
  assumes "demo_unhex nonce = Some [x]" "length domain + length action = 17 \<or> length domain + length action = 22"
  shows "token_accepted demo_ext noon_env sample_kp domain action (sample_token domain action nonce) nonce"
proof -
  let ?msg = "compose_token_message demo_ext domain action [x] 10"
  have len: "?msg = replicate 31 0 @ [of_nat (23 + (length domain + length action))]"
    by (simp add: compose_token_message_def demo_ext_def admin_action_label_def dec_10 add_ac)
  have "demo_from_be ?msg 0 = 23 + (length domain + length action)"
    unfolding len demo_from_be_zeros using assms(2) by (elim disjE) (simp_all only:, simp_all)
  then have val: "demo_from_be ?msg 0 \<in> {40, 45}" using assms(2) by auto
  have "from_bytes_be demo_ext (demo_to_be (demo_from_be ?msg 0 ^ 5 mod 70)) = demo_from_be ?msg 0 ^ 5 mod 70"
    using be_roundtrip [OF demo_be_ok] by (simp add: demo_ext_def)
  then have "verify_token demo_ext ?msg (demo_to_be (demo_from_be ?msg 0 ^ 5 mod 70)) (kp_public sample_kp)"
    using val by (auto simp: verify_token_def sample_kp_def modpow_def demo_ext_def)
  moreover have "token_hour_ok 10 (unix_secs noon_env)"
    by (simp add: noon_env_def unix_secs_def token_hour_ok_iff in_i64_def i64_min_def i64_max_def)
  moreover have "hex_decode demo_ext (demo_hex b) = Some b" for b
    by (simp add: demo_ext_def demo_unhex_hex)
  moreover have "hex_decode demo_ext nonce = Some [x]" using assms(1) by (simp add: demo_ext_def)
  moreover have "length ?msg = 32" by (simp add: len)
  moreover have "i64_as_u64 10 = 10" by (simp add: i64_as_u64_def)
  ultimately show ?thesis
    using assms(1) by (simp add: token_accepted_def sample_token_def Let_def)
qed

lemma sample_resolution_ok:
  "is_ok (fst (resolve_dispute demo_ext sample_app noon_env ''01'' sample_resolution disputed_state))"
proof (rule resolve_dispute_ok)
  show "orders_wf (db_orders disputed_state)" by (simp add: disputed_state_def orders_wf_def)
  show "app_admin_keypair sample_app = Some sample_kp" by (simp add: sample_app_def)
  have "demo_unhex ''0a'' = Some [10]" by (simp add: nibble_val_def)
  then show "token_accepted demo_ext noon_env sample_kp ''dispute:resolve'' ''01'' (rd_token sample_resolution) ''0a''"
    using sample_token_accepted [of "''0a''" 10 "''dispute:resolve''" "''01''"]
    by (simp add: sample_resolution_def)
  show "check_outcome_blob demo_ext (outcome_blob sample_resolution) = Inr (as_bytes ''ok'')"
    by (simp add: check_outcome_blob_Inr sample_resolution_def demo_ext_def max_dispute_blob_bytes_def)
  show "select_order [1] (db_orders disputed_state) = Some disputed_order"
    by (simp add: disputed_state_def disputed_order_def select_by_def new_order_row_def)
qed (simp_all add: disputed_state_def empty_api_def demo_ext_def nibble_val_def noon_env_def)

text \<open>
  C16. A dispute is resolved only with an administrator token: the keypair is configured, the
  token's message is the hash composed for this very dispute, its nonce and its hour, the RSA
  signature on it verifies under the administrator's key, its hour is within one of the clock (or
  exactly \<open>2 ^ 63\<close> hours behind, where the subtraction wraps), and its nonce was unused and is
  burnt.  The outcome blob then replaces the dispute blob, the dispute flag is cleared, the version
  is incremented, and no other row changes.
\<close>

theorem resolve_dispute_needs_token:
  assumes "orders_wf (db_orders st)" "resolve_dispute L A E i req st = (Inr resp, st')"
    and "\<And>h. token_expiry_hour (rd_token req) = Some h \<Longrightarrow> in_i64 h" "unix_secs E < 2 ^ 63"
  shows "\<exists>kp n nonce sig expiry msg oid blob r.
     app_admin_keypair A = Some kp
     \<and> token_nonce (rd_token req) = Some n \<and> hex_decode L n = Some nonce
     \<and> token_expiry_hour (rd_token req) = Some expiry
     \<and> msg = compose_token_message L ''dispute:resolve'' i nonce (i64_as_u64 expiry)
     \<and> Option.bind (token_message (rd_token req)) (hex_decode L) = Some msg
     \<and> Option.bind (token_signature (rd_token req)) (hex_decode L) = Some sig
     \<and> verify_token L msg sig (kp_public kp)
     \<and> (\<bar>expiry - int (unix_secs E div 3600)\<bar> \<le> 1 \<or> expiry = int (unix_secs E div 3600) - 2 ^ 63)
     \<and> colon_key i n \<notin> admin_token_nonces st \<and> colon_key i n \<in> admin_token_nonces st'
     \<and> hex_decode L i = Some oid \<and> b64_decode L (outcome_blob req) = Inr blob \<and> length blob \<le> 524288
     \<and> select_order oid (db_orders st) = Some r
     \<and> select_order oid (db_orders st') =
         Some (r\<lparr>dispute_client_blob := Some blob, has_dispute := 0, o_version := o_version r + 1\<rparr>)
     \<and> (\<forall>j. j \<noteq> oid \<longrightarrow> select_order j (db_orders st') = select_order j (db_orders st))"
  using assms(1,2)
proof (rule resolve_dispute_success)
  fix kp n oid blob r
  assume x: "app_admin_keypair A = Some kp"
    "token_accepted L E kp ''dispute:resolve'' i (rd_token req) n"
    "colon_key i n \<notin> admin_token_nonces st" "hex_decode L i = Some oid"
    "check_outcome_blob L (outcome_blob req) = Inr blob" "select_order oid (db_orders st) = Some r"
    "select_order oid (db_orders st') = Some (apply_order_write (ResolveDispute blob) r)"
    "\<And>j. j \<noteq> oid \<Longrightarrow> select_order j (db_orders st') = select_order j (db_orders st)"
    "admin_token_nonces st' = insert (colon_key i n) (admin_token_nonces st)"
  from x(2) assms(3,4) obtain nonce sig expiry where t: "token_nonce (rd_token req) = Some n"
    "hex_decode L n = Some nonce" "token_expiry_hour (rd_token req) = Some expiry"
    "Option.bind (token_message (rd_token req)) (hex_decode L) =
       Some (compose_token_message L ''dispute:resolve'' i nonce (i64_as_u64 expiry))"
    "Option.bind (token_signature (rd_token req)) (hex_decode L) = Some sig"
    "verify_token L (compose_token_message L ''dispute:resolve'' i nonce (i64_as_u64 expiry)) sig (kp_public kp)"
    "\<bar>expiry - int (unix_secs E div 3600)\<bar> \<le> 1 \<or> expiry = int (unix_secs E div 3600) - 2 ^ 63"
    by (auto simp: token_accepted_def token_hour_ok_iff)
  show ?thesis
    by (intro exI conjI) (rule t x refl | use x t in \<open>simp add: check_outcome_blob_Inr max_dispute_blob_bytes_def
        apply_order_write_def\<close>)+
qed

lemma resolve_dispute_needs_token_witness:
  "\<exists>resp st'. resolve_dispute demo_ext sample_app noon_env ''01'' sample_resolution disputed_state = (Inr resp, st')
     \<and> (\<exists>oid r blob. select_order oid (db_orders st') =
          Some (r\<lparr>dispute_client_blob := Some blob, has_dispute := 0, o_version := o_version r + 1\<rparr>))"
proof -
  obtain resp st' where run:
    "resolve_dispute demo_ext sample_app noon_env ''01'' sample_resolution disputed_state = (Inr resp, st')"
    using sample_resolution_ok by (auto simp: is_ok_iff prod_eq_iff)
  have "orders_wf (db_orders disputed_state)" by (simp add: disputed_state_def orders_wf_def)
  from resolve_dispute_needs_token [OF this run] show ?thesis
    using run by (auto simp: sample_resolution_def sample_token_def Let_def noon_env_def unix_secs_def
        in_i64_def i64_min_def i64_max_def)
qed

text \<open>
  An administrator token is not single use, though its nonce is cached to make it so: the
  cache key is the hex text of the nonce while the token covers its bytes, so the same token with
  its nonce spelled in another letter case resolves the dispute again.
\<close>

theorem admin_token_reusable:
  assumes "orders_wf (db_orders st)" "no_faults E"
    and "resolve_dispute L A E i req st = (Inr resp, st')" "token_nonce (rd_token req) = Some n"
    and "hex_decode L n' = hex_decode L n" "n' \<noteq> n" "colon_key i n' \<notin> admin_token_nonces st"
  shows "is_ok (fst (resolve_dispute L A E i (req\<lparr>rd_token := (rd_token req)\<lparr>token_nonce := Some n'\<rparr>\<rparr>) st'))"
  using assms(1,3)
proof (rule resolve_dispute_success)
  fix kp m oid blob r
  assume x: "app_admin_keypair A = Some kp"
    "token_accepted L E kp ''dispute:resolve'' i (rd_token req) m" "hex_decode L i = Some oid"
    "check_outcome_blob L (outcome_blob req) = Inr blob"
    "select_order oid (db_orders st') = Some (apply_order_write (ResolveDispute blob) r)"
    "admin_token_nonces st' = insert (colon_key i m) (admin_token_nonces st)" "orders_wf (db_orders st')"
  have m: "m = n" using x(2) assms(4) by (simp add: token_accepted_def)
  have "token_accepted L E kp ''dispute:resolve'' i ((rd_token req)\<lparr>token_nonce := Some n'\<rparr>) n'"
    using x(2) assms(5) by (simp add: token_accepted_def m)
  moreover have "colon_key i n' \<notin> admin_token_nonces st'"
    using x(6) assms(6,7) by (simp add: m colon_key_def)
  ultimately show ?thesis
    using x assms(2) by (intro resolve_dispute_ok [where kp = kp and n = n' and oid = oid and blob = blob]) simp_all
qed

lemma admin_token_reusable_witness:
  "\<exists>resp st'. resolve_dispute demo_ext sample_app noon_env ''01'' sample_resolution disputed_state = (Inr resp, st')
     \<and> is_ok (fst (resolve_dispute demo_ext sample_app noon_env ''01''
         (sample_resolution\<lparr>rd_token := (rd_token sample_resolution)\<lparr>token_nonce := Some ''0A''\<rparr>\<rparr>) st'))"
proof -
  obtain resp st' where run:
    "resolve_dispute demo_ext sample_app noon_env ''01'' sample_resolution disputed_state = (Inr resp, st')"
    using sample_resolution_ok by (auto simp: is_ok_iff prod_eq_iff)
  have "orders_wf (db_orders disputed_state)" "no_faults noon_env"
    by (simp_all add: disputed_state_def orders_wf_def noon_env_def no_faults_def)
  from admin_token_reusable [OF this run, of "''0a''" "''0A''"] show ?thesis
    using run by (auto simp: sample_resolution_def sample_token_def Let_def demo_ext_def nibble_val_def
        disputed_state_def empty_api_def)
qed

text \<open>
  The life of a dispute as readers see it: right after \<open>open_dispute\<close> succeeds,
  \<open>get_dispute\<close> returns the blob that was sent with the bumped version; after a later
  \<open>resolve_dispute\<close> of the same order it answers that there is no dispute.
\<close>

theorem dispute_open_then_resolved:
  assumes "orders_wf (db_orders st)" "no_faults E'"
    and "open_dispute L E req st = (Inr resp, st1)"
    and "resolve_dispute L A E2 (od_order_id req) req2 st1 = (Inr resp2, st2)"
  shows "(\<exists>oid blob r. hex_decode L (od_order_id req) = Some oid \<and> b64_decode L (od_blob req) = Inr blob
       \<and> select_order oid (db_orders st) = Some r
       \<and> get_dispute L E' (od_order_id req) st1 =
           Inr \<lparr>dr_id = od_order_id req, dr_order_id = hex_encode L oid, dr_blob = Some (b64_encode L blob),
                dr_version = o_version r + 1, dr_has_dispute = True\<rparr>)
    \<and> get_dispute L E' (od_order_id req) st2 = Inl (NotFound ''No dispute for this order'')"
  using assms(1,3)
proof (rule open_dispute_success)
  fix oid blob r
  assume x: "hex_decode L (od_order_id req) = Some oid"
    "check_dispute_blob L (od_blob req) = Inr blob" "select_order oid (db_orders st) = Some r"
    "select_order oid (db_orders st1) = Some (apply_order_write (OpenDispute blob) r)"
    "orders_wf (db_orders st1)"
  have b: "b64_decode L (od_blob req) = Inr blob" using x(2) by (simp add: check_dispute_blob_Inr)
  have first: "get_dispute L E' (od_order_id req) st1 =
      Inr \<lparr>dr_id = od_order_id req, dr_order_id = hex_encode L oid, dr_blob = Some (b64_encode L blob),
           dr_version = o_version r + 1, dr_has_dispute = True\<rparr>"
    using x assms(2) by (simp add: get_dispute_def fetch_order_def apply_order_write_def)
  show ?thesis
    using x(5) assms(4)
  proof (rule resolve_dispute_success)
    fix blob2 r2 oid2
    assume "hex_decode L (od_order_id req) = Some oid2"
      "select_order oid2 (db_orders st2) = Some (apply_order_write (ResolveDispute blob2) r2)"
    then have "get_dispute L E' (od_order_id req) st2 = Inl (NotFound ''No dispute for this order'')"
      using assms(2) by (simp add: get_dispute_def fetch_order_def apply_order_write_def)
    with first x(1,3) b show ?thesis by blast
  qed
qed

definition sample_opening :: open_dispute_request where
  "sample_opening = \<lparr>od_order_id = ''01'', od_blob = ''why'', od_transition_signature = [], od_nonce = ''q''\<rparr>"

lemma dispute_open_then_resolved_witness:
  "\<exists>st1 st2 resp resp2. open_dispute demo_ext noon_env sample_opening disputed_state = (Inr resp, st1)
     \<and> resolve_dispute demo_ext sample_app noon_env ''01'' sample_resolution st1 = (Inr resp2, st2)
     \<and> get_dispute demo_ext noon_env ''01'' st2 = Inl (NotFound ''No dispute for this order'')"
proof -
  have wf: "orders_wf (db_orders disputed_state)" and nf: "no_faults noon_env"
    by (simp_all add: disputed_state_def orders_wf_def noon_env_def no_faults_def)
  have sel: "select_order [1] (db_orders disputed_state) = Some disputed_order"
    by (simp add: disputed_state_def disputed_order_def select_by_def new_order_row_def)
  let ?blob = "as_bytes ''why''"
  obtain resp where read: "open_dispute_read demo_ext noon_env sample_opening disputed_state =
      (Inr (\<lparr>cas_id = [1], cas_version = o_version disputed_order, cas_write = OpenDispute ?blob\<rparr>, resp),
       disputed_state\<lparr>dispute_nonces := insert ''01:q'' (dispute_nonces disputed_state)\<rparr>)"
    using sel by (auto simp: open_dispute_read_Inr sample_opening_def check_dispute_blob_Inr demo_ext_def
        nibble_val_def max_dispute_blob_bytes_def colon_key_def disputed_state_def empty_api_def noon_env_def)
  have "is_ok (fst (open_dispute demo_ext noon_env sample_opening disputed_state))"
    using optimistic_ok [OF read, of noon_env 1 disputed_order] wf sel nf by (simp add: open_dispute_def is_ok_iff)
  then obtain resp1 st1 where op: "open_dispute demo_ext noon_env sample_opening disputed_state = (Inr resp1, st1)"
    by (auto simp: is_ok_iff prod_eq_iff)
  then have st1: "admin_token_nonces st1 = {}"
    using read by (auto simp: open_dispute_def optimistic_def then_do_def disputed_state_def empty_api_def
        split: sum.splits)
  obtain r1 where r1: "orders_wf (db_orders st1)" "select_order [1] (db_orders st1) = Some r1"
    using wf op by (rule open_dispute_success) (auto simp: sample_opening_def demo_ext_def nibble_val_def)
  have "is_ok (fst (resolve_dispute demo_ext sample_app noon_env ''01'' sample_resolution st1))"
  proof (rule resolve_dispute_ok [OF r1(1)])
    show "token_accepted demo_ext noon_env sample_kp ''dispute:resolve'' ''01'' (rd_token sample_resolution) ''0a''"
      using sample_token_accepted [of "''0a''" 10 "''dispute:resolve''" "''01''"]
      by (simp add: sample_resolution_def nibble_val_def)
    show "check_outcome_blob demo_ext (outcome_blob sample_resolution) = Inr (as_bytes ''ok'')"
      by (simp add: check_outcome_blob_Inr sample_resolution_def demo_ext_def max_dispute_blob_bytes_def)
  qed (use r1 nf in \<open>simp_all add: sample_app_def st1 demo_ext_def nibble_val_def\<close>)
  then obtain resp2 st2 where res:
    "resolve_dispute demo_ext sample_app noon_env ''01'' sample_resolution st1 = (Inr resp2, st2)"
    by (auto simp: is_ok_iff prod_eq_iff)
  have "od_order_id sample_opening = ''01''" by (simp add: sample_opening_def)
  with dispute_open_then_resolved [OF wf nf op, of sample_app noon_env sample_resolution resp2 st2] op res
  show ?thesis by auto
qed

end
