(* ===== verification/Chat.thy ===== *)
theory Chat
  imports Api
begin

text \<open>
  \<^verbatim>\<open>src/src/services/chat.rs\<close>: the opaque chat blob of an order.  Here the nonce is checked after
  the order has been read.
\<close>

record send_message_request =
  sm_blob :: string
  sm_transition_signature :: string
  sm_nonce :: string

record chat_response =
  cr_order_id :: string
  cr_blob :: "string option"
  cr_version :: int

definition max_chat_blob_bytes :: nat where
  "max_chat_blob_bytes = 256 * 1024"

definition check_chat_nonce_replay :: "string \<times> string \<Rightarrow> api_state \<Rightarrow> bool \<times> api_state" where
  "check_chat_nonce_replay k st =
     (let (fresh, s) = replay_insert (colon_key (fst k) (snd k)) (chat_nonces st)
      in (fresh, st\<lparr>chat_nonces := s\<rparr>))"

interpretation chat_cache: replay_cache check_chat_nonce_replay "\<lambda>k. colon_key (fst k) (snd k)" chat_nonces
  by unfold_locales (simp_all add: check_chat_nonce_replay_def replay_insert_def)

definition get_chat :: "ext \<Rightarrow> env \<Rightarrow> string \<Rightarrow> api_state \<Rightarrow> chat_response res" where
  "get_chat L E i st =
     and_then (ok_or (BadRequest ''Invalid order_id'') (hex_decode L i)) (\<lambda>oid.
     and_then (fetch_order E 0 oid st) (\<lambda>row.
     and_then (case row of
                 Some r \<Rightarrow> and_then (fetch_order E 1 oid st)
                             (\<lambda>row'. Inr (o_version r, Option.bind row' chat_encrypted_blob))
               | None \<Rightarrow> Inr (0, None))
       (\<lambda>(version, chat_blob).
         Inr \<lparr>cr_order_id = i, cr_blob = map_option (b64_encode L) chat_blob, cr_version = version\<rparr>)))"

definition check_chat_blob :: "ext \<Rightarrow> string \<Rightarrow> bytes res" where
  "check_chat_blob L s =
     and_then (map_err (\<lambda>e. BadRequest (''Invalid chat_encrypted_blob base64: '' @ e)) (b64_decode L s))
       (\<lambda>blob. and_then (require (length blob \<le> max_chat_blob_bytes) (BadRequest ''chat_encrypted_blob too large''))
         (\<lambda>_. Inr blob))"

definition update_chat_read ::
    "ext \<Rightarrow> env \<Rightarrow> string \<Rightarrow> send_message_request \<Rightarrow> api_state
       \<Rightarrow> (order_cas \<times> chat_response) res \<times> api_state" where
  "update_chat_read L E i req st =
     then_do (ok_or (BadRequest ''Invalid order_id'') (hex_decode L i), st) (\<lambda>oid st.
     then_do (check_chat_blob L (sm_blob req), st) (\<lambda>blob st.
     then_do (fetch_order E 0 oid st, st) (\<lambda>current st.
     then_do (ok_or (NotFound ''Order not found'') current, st) (\<lambda>r st.
       (case check_chat_nonce_replay (i, sm_nonce req) st of
          (False, st) \<Rightarrow> (Inl (Conflict ''Chat nonce already used''), st)
        | (True, st) \<Rightarrow>
           (Inr (\<lparr>cas_id = oid, cas_version = o_version r, cas_write = SetChat blob\<rparr>,
                 \<lparr>cr_order_id = i, cr_blob = Some (sm_blob req), cr_version = wrap_i64 (o_version r + 1)\<rparr>),
            st))))))"

definition update_chat ::
    "ext \<Rightarrow> env \<Rightarrow> string \<Rightarrow> send_message_request \<Rightarrow> api_state \<Rightarrow> chat_response res \<times> api_state" where
  "update_chat L E i req st = optimistic E 1 (update_chat_read L E i req st)"

section \<open>Facts\<close>

lemma update_chat_read_orders [simp]: "db_orders (snd (update_chat_read L E i req st)) = db_orders st"
  unfolding update_chat_read_def
  by (intro orders_frame) (auto simp: check_chat_nonce_replay_def replay_insert_def split: bool.split)

interpretation chat_svc: order_service "\<lambda>(E, i, req). update_chat L E i req" db_orders
  by (rule order_serviceI) (auto simp: update_chat_def optimistic_contract [OF update_chat_read_orders])

lemma check_chat_blob_Inr:
  "check_chat_blob L s = Inr b \<longleftrightarrow> b64_decode L s = Inr b \<and> length b \<le> max_chat_blob_bytes"
  by (auto simp: check_chat_blob_def)

lemma check_chat_nonce_step:
  "(case check_chat_nonce_replay k st of (False, s) \<Rightarrow> g s | (True, s) \<Rightarrow> f s) =
     (let s = st\<lparr>chat_nonces := insert (colon_key (fst k) (snd k)) (chat_nonces st)\<rparr>
      in if colon_key (fst k) (snd k) \<in> chat_nonces st then g s else f s)"
  by (cases "colon_key (fst k) (snd k) \<in> chat_nonces st")
     (simp_all add: check_chat_nonce_replay_def replay_insert_def)

lemma update_chat_read_Inr:
  "update_chat_read L E i req st = (Inr (c, resp), st1) \<longleftrightarrow>
     (\<exists>oid blob r. hex_decode L i = Some oid \<and> check_chat_blob L (sm_blob req) = Inr blob
        \<and> colon_key i (sm_nonce req) \<notin> chat_nonces st \<and> db_fault E 0 = None
        \<and> select_order oid (db_orders st) = Some r
        \<and> c = \<lparr>cas_id = oid, cas_version = o_version r, cas_write = SetChat blob\<rparr>
        \<and> resp = \<lparr>cr_order_id = i, cr_blob = Some (sm_blob req), cr_version = wrap_i64 (o_version r + 1)\<rparr>
        \<and> st1 = st\<lparr>chat_nonces := insert (colon_key i (sm_nonce req)) (chat_nonces st)\<rparr>)"
  (is "?lhs \<longleftrightarrow> ?rhs")
proof (cases "hex_decode L i")
  case oid: (Some oid)
  show ?thesis
  proof (cases "check_chat_blob L (sm_blob req)")
    case blob: (Inr blob)
    show ?thesis
    proof (cases "db_fault E 0")
      case None
      then show ?thesis
        using oid blob by (cases "select_order oid (db_orders st)")
          (auto simp: update_chat_read_def fetch_order_def check_chat_nonce_step Let_def)
    qed (simp add: update_chat_read_def fetch_order_def oid blob)
  qed (simp add: update_chat_read_def oid)
qed (simp add: update_chat_read_def)

lemma update_chat_success:
  assumes "orders_wf (db_orders st)" "update_chat L E i req st = (Inr resp, st')"
  obtains oid blob r where "hex_decode L i = Some oid" "check_chat_blob L (sm_blob req) = Inr blob"
    "select_order oid (db_orders st) = Some r"
    "select_order oid (db_orders st') = Some (apply_order_write (SetChat blob) r)"
    "\<And>j. j \<noteq> oid \<Longrightarrow> select_order j (db_orders st') = select_order j (db_orders st)"
    "colon_key i (sm_nonce req) \<notin> chat_nonces st"
    "chat_nonces st' = insert (colon_key i (sm_nonce req)) (chat_nonces st)"
proof -
  from assms(2) have "optimistic E 1 (update_chat_read L E i req st) = (Inr resp, st')"
    by (simp add: update_chat_def)
  then obtain c st1 r where read: "update_chat_read L E i req st = (Inr (c, resp), st1)"
    and r: "select_order (cas_id c) (db_orders st1) = Some r"
    and st': "st' = st1\<lparr>db_orders := snd (commit_orders E 1 c (db_orders st1))\<rparr>"
    and sel: "select_order (cas_id c) (db_orders st') = Some (apply_order_write (cas_write c) r)"
    and oth: "\<And>j. j \<noteq> cas_id c \<Longrightarrow> select_order j (db_orders st') = select_order j (db_orders st1)"
    using assms(1) by (elim optimistic_success) auto
  from read obtain oid blob r' where x: "hex_decode L i = Some oid"
    "check_chat_blob L (sm_blob req) = Inr blob"
    and r': "select_order oid (db_orders st) = Some r'" and n: "colon_key i (sm_nonce req) \<notin> chat_nonces st"
    and c: "c = \<lparr>cas_id = oid, cas_version = o_version r', cas_write = SetChat blob\<rparr>"
    and st1: "st1 = st\<lparr>chat_nonces := insert (colon_key i (sm_nonce req)) (chat_nonces st)\<rparr>"
    unfolding update_chat_read_Inr by (elim exE conjE)
  have "r' = r" using r r' by (simp add: c st1)
  with that [OF x r'] sel oth n show thesis by (simp add: c st1 st')
qed

section \<open>Properties\<close>

text \<open>
  A message that was accepted is what the next reader gets: after a successful
  \<open>update_chat\<close>, \<open>get_chat\<close> returns that very blob (re-encoded) with the version the response
  named; nothing else of the order changes.  The nonce is burnt only once the order was found.
\<close>

theorem chat_write_then_read:
  assumes "orders_wf (db_orders st)" "update_chat L E i req st = (Inr resp, st')" "no_faults E'"
    and "\<And>r. r \<in> set (db_orders st) \<Longrightarrow> i64_min \<le> o_version r \<and> o_version r < i64_max"
  shows "\<exists>oid blob r. b64_decode L (sm_blob req) = Inr blob \<and> length blob \<le> 262144
    \<and> get_chat L E' i st' = Inr \<lparr>cr_order_id = i, cr_blob = Some (b64_encode L blob), cr_version = cr_version resp\<rparr>
    \<and> hex_decode L i = Some oid \<and> select_order oid (db_orders st) = Some r
    \<and> select_order oid (db_orders st') = Some (r\<lparr>chat_encrypted_blob := Some blob, o_version := o_version r + 1\<rparr>)
    \<and> colon_key i (sm_nonce req) \<notin> chat_nonces st"
  using assms(1,2)
proof (rule update_chat_success)
  fix oid blob r
  assume x: "hex_decode L i = Some oid" "check_chat_blob L (sm_blob req) = Inr blob"
    "select_order oid (db_orders st) = Some r"
    "select_order oid (db_orders st') = Some (apply_order_write (SetChat blob) r)"
    "colon_key i (sm_nonce req) \<notin> chat_nonces st"
  have "fst (update_chat L E i req st) = Inr resp" using assms(2) by simp
  then have "cr_version resp = wrap_i64 (o_version r + 1)"
    using x(1,3) unfolding update_chat_def optimistic_Inr update_chat_read_Inr by auto
  moreover have "in_i64 (o_version r + 1)"
    using assms(4) [of r] select_by_Some [OF x(3)] by (simp add: in_i64_def i64_min_def i64_max_def)
  ultimately have "cr_version resp = o_version r + 1" by (simp add: wrap_i64_id)
  then show ?thesis
    using x assms(3)
    by (intro exI [of _ oid] exI [of _ blob] exI [of _ r])
       (simp add: get_chat_def fetch_order_def apply_order_write_def check_chat_blob_Inr max_chat_blob_bytes_def)
qed

definition chat_order :: order where
  "chat_order = new_order_row [1] [5] 21600 None"

definition chat_state :: api_state where
  "chat_state = empty_api\<lparr>db_orders := [chat_order]\<rparr>"

definition chat_request :: send_message_request where
  "chat_request = \<lparr>sm_blob = ''hi'', sm_transition_signature = [], sm_nonce = ''n''\<rparr>"

lemma chat_write_then_read_witness:
  "\<exists>st' resp blob. update_chat demo_ext \<lparr>unix_time = 0, random_id = [], db_fault = (\<lambda>_. None)\<rparr> ''01'' chat_request chat_state = (Inr resp, st')
     \<and> get_chat demo_ext \<lparr>unix_time = 0, random_id = [], db_fault = (\<lambda>_. None)\<rparr> ''01'' st' =
        Inr \<lparr>cr_order_id = ''01'', cr_blob = Some (b64_encode demo_ext blob), cr_version = cr_version resp\<rparr>"
proof -
  let ?E = "\<lparr>unix_time = 0, random_id = [], db_fault = (\<lambda>_. None)\<rparr>"
  have wf: "orders_wf (db_orders chat_state)" and nf: "no_faults ?E"
    by (simp_all add: chat_state_def orders_wf_def no_faults_def)
  have sel: "select_order [1] (db_orders chat_state) = Some chat_order"
    by (simp add: chat_state_def chat_order_def select_by_def new_order_row_def)
  obtain resp where read: "update_chat_read demo_ext ?E ''01'' chat_request chat_state =
      (Inr (\<lparr>cas_id = [1], cas_version = o_version chat_order, cas_write = SetChat (as_bytes ''hi'')\<rparr>, resp),
       chat_state\<lparr>chat_nonces := insert ''01:n'' (chat_nonces chat_state)\<rparr>)"
    using sel by (auto simp: update_chat_read_Inr chat_request_def check_chat_blob_Inr demo_ext_def
        nibble_val_def max_chat_blob_bytes_def colon_key_def chat_state_def empty_api_def)
  have "is_ok (fst (update_chat demo_ext ?E ''01'' chat_request chat_state))"
    using optimistic_ok [OF read, of ?E 1 chat_order] wf sel by (simp add: update_chat_def is_ok_iff)
  then obtain resp' st' where run: "update_chat demo_ext ?E ''01'' chat_request chat_state = (Inr resp', st')"
    by (auto simp: is_ok_iff prod_eq_iff)
  from chat_write_then_read [OF wf run nf] show ?thesis
    using run by (auto simp: chat_state_def chat_order_def new_order_row_def i64_min_def i64_max_def)
qed

end
