(* ===== verification/Sealed_Orders.thy ===== *)
theory Sealed_Orders
  imports Api
begin

text \<open>
  What the background workers share: opening the sealed order of a row, sealing and writing a new
  one under the row's version (the same lines in \<^verbatim>\<open>time_lock.rs\<close>, \<^verbatim>\<open>payment_poller.rs\<close> and
  \<^verbatim>\<open>notification_scanner.rs\<close>), and the interface of a step of the order state machine.
  Errors of the workers are their texts.
\<close>

section \<open>The environment of a worker pass\<close>

text \<open>
  The clock, the fresh AEAD nonce and dispute id for each order, and the error of the statement
  that loads the rows, reads the row of an order or writes it, if it fails.
\<close>

record wenv =
  w_time :: int
  w_nonce :: "bytes \<Rightarrow> bytes"
  w_uuid :: "bytes \<Rightarrow> string"
  w_load_fault :: "string option"
  w_read_fault :: "bytes \<Rightarrow> string option"
  w_write_fault :: "bytes \<Rightarrow> string option"

definition get_worker_key :: "app \<Rightarrow> string + bytes" where
  "get_worker_key A = ok_or ''Worker key not configured - workers cannot decrypt'' (app_worker_key A)"

section \<open>Opening and writing sealed orders\<close>

definition open_order :: "ext \<Rightarrow> bytes \<Rightarrow> order \<Rightarrow> order_data option" where
  "open_order L key r =
     (case decrypt_order_blob L (encrypted_order_blob r) key (o_id r) of
        None \<Rightarrow> None
      | Some raw \<Rightarrow> (case order_from_json L raw of Inl _ \<Rightarrow> None | Inr d \<Rightarrow> Some d))"

definition seal_order :: "ext \<Rightarrow> wenv \<Rightarrow> bytes \<Rightarrow> bytes \<Rightarrow> order_data \<Rightarrow> string + bytes" where
  "seal_order L W key i d =
     and_then (ok_or ''serialization failed'' (order_to_json L d)) (\<lambda>json.
       ok_or ''Encryption failed'' (encrypt_order_blob L (w_nonce W i) json key i))"

text \<open>The conditional UPDATE of a worker; the caller decides about zero affected rows.\<close>

definition worker_update ::
    "wenv \<Rightarrow> order_write \<Rightarrow> bytes \<Rightarrow> int \<Rightarrow> orders \<Rightarrow> (string + nat) \<times> orders" where
  "worker_update W w i version rows =
     (case w_write_fault W i of
        Some e \<Rightarrow> (Inl e, rows)
      | None \<Rightarrow> (let (rows', n) = update_orders w i version rows in (Inr n, rows')))"

definition checked_update ::
    "wenv \<Rightarrow> order_write \<Rightarrow> bytes \<Rightarrow> int \<Rightarrow> orders \<Rightarrow> (string + unit) \<times> orders" where
  "checked_update W w i version rows =
     then_do (worker_update W w i version rows) (\<lambda>n rows.
       if n = 0 then (Inl ''order modified by concurrent writer'', rows) else (Inr (), rows))"

text \<open>Sealing new data and writing it with the statement \<open>w\<close>.\<close>

definition write_sealed ::
    "ext \<Rightarrow> wenv \<Rightarrow> bytes \<Rightarrow> bytes \<Rightarrow> order_data \<Rightarrow> (bytes \<Rightarrow> order_write) \<Rightarrow> int \<Rightarrow> orders
       \<Rightarrow> (string + unit) \<times> orders" where
  "write_sealed L W key i d w version rows =
     then_do (seal_order L W key i d, rows) (\<lambda>blob. checked_update W (w blob) i version)"

definition set_blob_expiry :: "order_data \<Rightarrow> bytes \<Rightarrow> order_write" where
  "set_blob_expiry d blob = SetBlobExpiry blob (map_option floor_timestamp_6h (expires_at d))"

definition write_order ::
    "ext \<Rightarrow> wenv \<Rightarrow> bytes \<Rightarrow> bytes \<Rightarrow> order_data \<Rightarrow> int \<Rightarrow> orders \<Rightarrow> (string + unit) \<times> orders" where
  "write_order L W key i d version rows = write_sealed L W key i d (set_blob_expiry d) version rows"

section \<open>Facts\<close>

lemma seal_then_open:
  assumes "aead_ok L" "json_ok L" "length (w_nonce W i) = 12" "seal_order L W key i d = Inr blob"
    and "o_id r = i" "encrypted_order_blob r = blob"
  shows "open_order L key r = Some d"
proof -
  obtain json where json: "order_to_json L d = Some json" "encrypt_order_blob L (w_nonce W i) json key i = Some blob"
    using assms(4) by (auto simp: seal_order_def)
  have "decrypt_order_blob L blob key i = Some json"
    using assms(1,3) json(2) by (rule ob.unseal_seal)
  then show ?thesis
    using assms(2,5,6) json(1) by (simp add: open_order_def order_json_roundtrip)
qed

lemma worker_update_cases:
  obtains (fault) e where "worker_update W w i v rows = (Inl e, rows)"
  | (written) "w_write_fault W i = None"
      "worker_update W w i v rows =
         (Inr (snd (update_orders w i v rows)), fst (update_orders w i v rows))"
  by (cases "w_write_fault W i") (auto simp: worker_update_def split_beta)

lemma worker_update_wf: "orders_wf rows \<Longrightarrow> orders_wf (snd (worker_update W w i v rows))"
  by (cases rule: worker_update_cases [of W w i v rows]) (simp_all add: orders_wf_update)

lemma worker_update_evolves: "orders_evolve rows (snd (worker_update W w i v rows))"
  by (cases rule: worker_update_cases [of W w i v rows]) (simp_all add: orders_evolve_update)

lemma worker_update_other:
  "j \<noteq> i \<Longrightarrow> select_order j (snd (worker_update W w i v rows)) = select_order j rows"
  by (cases rule: worker_update_cases [of W w i v rows])
     (simp_all add: update_orders_def ord.select_cas_other)

lemma checked_update_snd: "snd (checked_update W w i v rows) = snd (worker_update W w i v rows)"
  by (auto simp: checked_update_def then_do_def split: sum.split)

lemma checked_update_ok:
  assumes "orders_wf rows" "select_order i rows = Some r"
  shows "is_ok (fst (checked_update W w i v rows)) \<longleftrightarrow> w_write_fault W i = None \<and> o_version r = v"
proof -
  have "snd (update_orders w i v rows) > 0 \<longleftrightarrow> o_version r = v"
    using ord.affected_pos [of rows w i v] assms by (simp add: update_orders_def orders_wf_def)
  then show ?thesis
    by (cases "w_write_fault W i") (auto simp: checked_update_def worker_update_def split_beta)
qed

lemma checked_update_row:
  assumes "orders_wf rows" "select_order i rows = Some r"
  shows "select_order i (snd (checked_update W w i v rows)) =
     Some (if is_ok (fst (checked_update W w i v rows)) then apply_order_write w r else r)"
proof -
  have "o_id r = i" using select_by_Some [OF assms(2)] by simp
  then show ?thesis
    using checked_update_ok [OF assms] assms(2)
    by (cases "w_write_fault W i")
       (auto simp: checked_update_snd worker_update_def split_beta update_orders_def ord.select_cas)
qed

lemma write_sealed_wf: "orders_wf rows \<Longrightarrow> orders_wf (snd (write_sealed L W key i d w v rows))"
  by (auto simp: write_sealed_def then_do_def checked_update_snd worker_update_wf split: sum.split)

lemma write_sealed_evolves: "orders_evolve rows (snd (write_sealed L W key i d w v rows))"
  by (auto simp: write_sealed_def then_do_def checked_update_snd worker_update_evolves split: sum.split)

lemma write_sealed_other:
  "j \<noteq> i \<Longrightarrow> select_order j (snd (write_sealed L W key i d w v rows)) = select_order j rows"
  by (auto simp: write_sealed_def then_do_def checked_update_snd worker_update_other split: sum.split)

text \<open>A write that fails leaves the row; one that succeeds has written the sealed data.\<close>

lemma write_sealed_cases:
  assumes "orders_wf rows" "select_order i rows = Some r"
  obtains (failed) "\<not> is_ok (fst (write_sealed L W key i d w v rows))"
      "select_order i (snd (write_sealed L W key i d w v rows)) = Some r"
  | (written) blob where "is_ok (fst (write_sealed L W key i d w v rows))" "seal_order L W key i d = Inr blob"
      "select_order i (snd (write_sealed L W key i d w v rows)) = Some (apply_order_write (w blob) r)"
proof (cases "seal_order L W key i d")
  case (Inl e)
  then show thesis using assms(2) by (intro failed) (simp_all add: write_sealed_def)
next
  case (Inr blob)
  show thesis
  proof (cases "is_ok (fst (checked_update W (w blob) i v rows))")
    case True
    with Inr show thesis
      using checked_update_row [OF assms, of W "w blob" v] by (intro written) (simp_all add: write_sealed_def)
  next
    case False
    with Inr show thesis
      using checked_update_row [OF assms, of W "w blob" v] by (intro failed) (simp_all add: write_sealed_def)
  qed
qed

text \<open>The laws under which a written row opens to the data, and what a rewritten row is.\<close>

definition nonces_ok :: "wenv \<Rightarrow> bool" where
  "nonces_ok W \<longleftrightarrow> (\<forall>i. length (w_nonce W i) = 12)"

definition worker_laws :: "ext \<Rightarrow> wenv \<Rightarrow> bool" where
  "worker_laws L W \<longleftrightarrow> aead_ok L \<and> json_ok L \<and> nonces_ok W"

definition rewritten :: "ext \<Rightarrow> bytes \<Rightarrow> order_data \<Rightarrow> order \<Rightarrow> order \<Rightarrow> bool" where
  "rewritten L key d r r' \<longleftrightarrow> open_order L key r' = Some d \<and> o_version r' = o_version r + 1"

lemma sealed_rewritten:
  assumes "worker_laws L W" "seal_order L W key (o_id r) d = Inr blob"
    and "\<And>r. encrypted_order_blob (order_set (w blob) r) = blob"
  shows "rewritten L key d r (apply_order_write (w blob) r)"
  using assms by (auto simp: rewritten_def worker_laws_def nonces_ok_def apply_order_write_def intro!: seal_then_open)

lemma set_blob_expiry_sets [simp]:
  "encrypted_order_blob (order_set (set_blob_expiry d blob) r) = blob"
  "expiry_bucket (order_set (set_blob_expiry d blob) r) = map_option floor_timestamp_6h (expires_at d)"
  by (simp_all add: set_blob_expiry_def)

section \<open>A pass over rows\<close>

text \<open>
  The interface of a loop body that handles one item and may write the row of the item's order:
  it touches no other row, and on its own row it either fails and leaves it or achieves \<open>done_row\<close>.
\<close>

locale row_pass =
  fixes visit :: "'a \<Rightarrow> 's \<Rightarrow> ('e + unit) \<times> 's" and tbl :: "'s \<Rightarrow> 'r list"
    and id_of :: "'a \<Rightarrow> 'k" and done_row :: "'a \<Rightarrow> 'r \<Rightarrow> 'r \<Rightarrow> bool"
    and key :: "'r \<Rightarrow> 'k" and ver :: "'r \<Rightarrow> int"
  assumes visit_wf: "distinct (map key (tbl s)) \<Longrightarrow> distinct (map key (tbl (snd (visit x s))))"
    and visit_evolves: "evolves key ver (tbl s) (tbl (snd (visit x s)))"
    and visit_other: "j \<noteq> id_of x \<Longrightarrow> select_by key j (tbl (snd (visit x s))) = select_by key j (tbl s)"
    and visit_row: "distinct (map key (tbl s)) \<Longrightarrow> select_by key (id_of x) (tbl s) = Some r \<Longrightarrow>
      \<exists>r'. select_by key (id_of x) (tbl (snd (visit x s))) = Some r'
         \<and> (if is_ok (fst (visit x s)) then done_row x r r' else r' = r)"
begin

lemma pass_wf: "distinct (map key (tbl s)) \<Longrightarrow> distinct (map key (tbl (snd (for_each visit xs s))))"
  by (induction xs arbitrary: s) (auto simp: then_do_def visit_wf split: sum.split)

lemma pass_evolves: "evolves key ver (tbl s) (tbl (snd (for_each visit xs s)))"
proof (induction xs arbitrary: s)
  case (Cons x xs)
  then show ?case
    using evolves_trans [OF visit_evolves [of s x] Cons.IH] visit_evolves [of s x]
    by (auto simp: then_do_def split: sum.split)
qed simp

lemma pass_other:
  "i \<notin> id_of ` set xs \<Longrightarrow> select_by key i (tbl (snd (for_each visit xs s))) = select_by key i (tbl s)"
  by (induction xs arbitrary: s) (auto simp: then_do_def visit_other split: sum.split)

text \<open>Each item's row is as it was or done; if the pass succeeds, every row is done.\<close>

lemma pass_row:
  assumes "distinct (map key (tbl s))" "distinct (map id_of xs)" "x \<in> set xs" "select_by key (id_of x) (tbl s) = Some r"
  shows "\<exists>r'. select_by key (id_of x) (tbl (snd (for_each visit xs s))) = Some r'
     \<and> (done_row x r r' \<or> (r' = r \<and> \<not> is_ok (fst (for_each visit xs s))))"
  using assms
proof (induction xs arbitrary: s)
  case (Cons y ys)
  let ?s = "snd (visit y s)"
  have wf: "distinct (map key (tbl ?s))" using Cons.prems(1) by (rule visit_wf)
  show ?case
  proof (cases "x = y")
    case True
    then have out: "id_of x \<notin> id_of ` set ys" using Cons.prems(2) by auto
    obtain r' where "select_by key (id_of x) (tbl ?s) = Some r'"
      "if is_ok (fst (visit y s)) then done_row x r r' else r' = r"
      using visit_row [OF Cons.prems(1,4)] True by blast
    then show ?thesis
      using pass_other [OF out, of ?s] by (cases "fst (visit y s)") (auto simp: then_do_def)
  next
    case False
    then have x: "x \<in> set ys" using Cons.prems(3) by simp
    then have "id_of x \<noteq> id_of y" using Cons.prems(2) imageI [OF x, of id_of]
      by (metis distinct.simps(2) list.simps(9) set_map)
    then have "select_by key (id_of x) (tbl ?s) = Some r" using Cons.prems(4) visit_other by simp
    with Cons.IH [OF wf _ x] this Cons.prems(2) show ?thesis
      by (cases "fst (visit y s)") (auto simp: then_do_def)
  qed
qed simp

lemma pass_any:
  assumes "distinct (map key (tbl s))" "distinct (map id_of xs)" "select_by key i (tbl s) = Some r"
  shows "\<exists>r'. select_by key i (tbl (snd (for_each visit xs s))) = Some r'
     \<and> (r' = r \<or> (\<exists>x\<in>set xs. id_of x = i \<and> done_row x r r'))"
proof (cases "i \<in> id_of ` set xs")
  case True
  then obtain x where x: "x \<in> set xs" "i = id_of x" by auto
  with pass_row [OF assms(1,2) x(1), of r] assms(3) show ?thesis by auto
next
  case False
  then show ?thesis using pass_other assms(3) by auto
qed

end

text \<open>A write that at most changes row \<open>i\<close>, and if it does then as \<open>R\<close> says.\<close>

definition row_step :: "bytes \<Rightarrow> (order \<Rightarrow> order \<Rightarrow> bool) \<Rightarrow> orders \<Rightarrow> orders \<Rightarrow> bool" where
  "row_step i R rows rows' \<longleftrightarrow>
     (orders_wf rows \<longrightarrow> orders_wf rows') \<and> orders_evolve rows rows'
     \<and> (\<forall>j. j \<noteq> i \<longrightarrow> select_order j rows' = select_order j rows)
     \<and> (\<forall>r. orders_wf rows \<longrightarrow> select_order i rows = Some r \<longrightarrow>
          (\<exists>r'. select_order i rows' = Some r' \<and> (r' = r \<or> R r r')))"

lemma row_step_stay [simp, intro]: "row_step i R rows rows"
  by (simp add: row_step_def)

lemma row_step_mono: "row_step i R rows rows' \<Longrightarrow> (\<And>r r'. R r r' \<Longrightarrow> S r r') \<Longrightarrow> row_step i S rows rows'"
  unfolding row_step_def by blast

lemma row_step_write_sealed:
  assumes "\<And>blob r. encrypted_order_blob (order_set (w blob) r) = blob"
  shows "row_step i (\<lambda>r r'. worker_laws L W \<longrightarrow> rewritten L key d r r') rows (snd (write_sealed L W key i d w v rows))"
  unfolding row_step_def
proof (intro conjI impI allI)
  fix r assume r: "orders_wf rows" "select_order i rows = Some r"
  then have "o_id r = i" by (auto dest: select_by_Some)
  show "\<exists>r'. select_order i (snd (write_sealed L W key i d w v rows)) = Some r'
     \<and> (r' = r \<or> (worker_laws L W \<longrightarrow> rewritten L key d r r'))"
    using r
  proof (cases rule: write_sealed_cases [of rows i r L W key d w v])
    case (written blob)
    then show ?thesis using sealed_rewritten [of L W key r d blob w] assms \<open>o_id r = i\<close> by auto
  qed auto
qed (simp_all add: write_sealed_wf write_sealed_evolves write_sealed_other)

text \<open>A loop body of such writes that keeps the table when it fails is a pass.\<close>

lemma row_step_pass:
  assumes "\<And>x s. row_step (id_of x) (R x) (tbl s) (tbl (snd (visit x s)))"
    and "\<And>x s. \<not> is_ok (fst (visit x s)) \<Longrightarrow> tbl (snd (visit x s)) = tbl s"
  shows "row_pass visit tbl id_of (\<lambda>x r r'. r' = r \<or> R x r r') o_id o_version"
  unfolding row_pass_def orders_wf_def [symmetric]
proof (intro conjI allI impI)
  fix s x r
  assume r: "orders_wf (tbl s)" "select_order (id_of x) (tbl s) = Some r"
  then obtain r' where "select_order (id_of x) (tbl (snd (visit x s))) = Some r'" "r' = r \<or> R x r r'"
    using assms(1) [of x s] unfolding row_step_def by blast
  with r assms(2) [of x s] show "\<exists>r'. select_order (id_of x) (tbl (snd (visit x s))) = Some r'
      \<and> (if is_ok (fst (visit x s)) then r' = r \<or> R x r r' else r' = r)"
    by auto
qed (use assms(1) in \<open>auto simp: row_step_def\<close>)

section \<open>Steps of the order state machine\<close>

text \<open>
  The interface of whatever changes an order's data: when it acts, the state machine of the model
  allows the new state.
\<close>

locale guarded_step =
  fixes step :: "order_data \<Rightarrow> order_data option"
  assumes step_allowed: "step d = Some d' \<Longrightarrow> can_transition_to d (order_state d')"
begin

lemma step_path: "step d = Some d' \<Longrightarrow> order_path (order_state d) (order_state d')"
  using step_allowed by (intro order_path.step [OF order_path.stay]) (simp add: can_transition_to_def state_transitions_def)

lemma step_rank: "step d = Some d' \<Longrightarrow> state_rank (order_state d) < state_rank (order_state d')"
  using step_allowed by (auto dest: transition_rank)

lemma step_terminal: "order_state d \<in> set terminal_states \<Longrightarrow> step d = None"
  using step_allowed [of d] terminal_no_transition [of "order_state d"] by (cases "step d") auto

end

section \<open>Sealed rows for witnesses\<close>

definition demo_worker :: "order_data list \<Rightarrow> ext" where
  "demo_worker ds = demo_ext\<lparr>order_to_json := demo_to_json ds, order_from_json := demo_from_json ds,
      listing_to_json := demo_to_json [], listing_from_json := demo_from_json []\<rparr>"

definition demo_app :: app where
  "demo_app = \<lparr>app_server = default_server_config, app_worker_key = Some (replicate 32 3), app_admin_keypair = None\<rparr>"

definition demo_wenv :: "int \<Rightarrow> wenv" where
  "demo_wenv t = \<lparr>w_time = t, w_nonce = (\<lambda>_. replicate 12 5), w_uuid = (\<lambda>_. ''u''),
     w_load_fault = None, w_read_fault = (\<lambda>_. None), w_write_fault = (\<lambda>_. None)\<rparr>"

definition demo_blob :: "nat \<Rightarrow> bytes" where
  "demo_blob k = replicate 12 5 @ replicate k 0 @ replicate 16 7"

definition demo_order :: order_data where
  "demo_order = \<lparr>listing_id = [9], buyer_pubkey_hash = [1], seller_pubkey_hash = [2], buyer_pubkey = None,
     seller_pubkey = None, order_state = ''pending'', currency = ''XMR'', escrow_address = Some ''addr'',
     escrow_amount = Some ''1'', time_lock_seconds = 86400, created_at = 0, funded_at = None,
     shipped_at = None, confirmed_at = None, released_at = None, refunded_at = None, expires_at = None,
     disputed_at = None, dispute_id = None, owner_pubkey = None, fee_percent = None, fee_address = None,
     dispute = None, chat_messages = [], settlement_txid = None\<rparr>"

lemma demo_worker_ok: "aead_ok (demo_worker ds)" "json_ok (demo_worker ds)" "nonces_ok (demo_wenv t)"
  using demo_json_ok by (simp_all add: demo_worker_def aead_ok_def demo_ext_sel nonces_ok_def demo_wenv_def)

lemma demo_worker_laws: "worker_laws (demo_worker ds) (demo_wenv t)"
  by (simp add: worker_laws_def demo_worker_ok)

lemma demo_derive_key: "\<exists>key'. derive_order_key (demo_worker ds) key i = Some key' \<and> cipher_new key' = Some key'"
  by (simp add: derive_order_key_def derive_blob_key_def demo_worker_def demo_ext_sel cipher_new_def)

lemma demo_seal:
  "demo_to_json ds d = Some (replicate k 0) \<Longrightarrow> seal_order (demo_worker ds) (demo_wenv t) key i d = Inr (demo_blob k)"
  using demo_derive_key [of ds key i]
  by (auto simp: seal_order_def encrypt_order_blob_def demo_worker_def demo_ext_sel demo_wenv_def demo_blob_def)

lemma demo_open:
  assumes "encrypted_order_blob r = demo_blob k" "k < length ds"
  shows "open_order (demo_worker ds) key r = Some (ds ! k)"
proof -
  have "decrypt_order_blob (demo_worker ds) (demo_blob k) key (o_id r) = Some (replicate k 0)"
    using demo_derive_key [of ds key "o_id r"]
    by (auto simp: decrypt_order_blob_def demo_worker_def demo_ext_sel demo_blob_def)
  with assms show ?thesis by (simp add: open_order_def demo_worker_def demo_ext_sel demo_from_json_def)
qed

lemma demo_write:
  assumes "demo_to_json ds d = Some (replicate k 0)" "o_id r = i" "o_version r = v"
  shows "write_order (demo_worker ds) (demo_wenv t) key i d v [r] =
     (Inr (), [apply_order_write (SetBlobExpiry (demo_blob k) (map_option floor_timestamp_6h (expires_at d))) r])"
  using demo_seal [OF assms(1)] assms(2,3)
  by (simp add: write_order_def write_sealed_def set_blob_expiry_def checked_update_def worker_update_def demo_wenv_def
      update_orders_def cas_update_def)

end
