(* ===== verification/Dummy_Worker.thy ===== *)
theory Dummy_Worker
  imports Sealed_Orders
begin

text \<open>
  \<^verbatim>\<open>src/src/background/dummy_worker.rs\<close>: the worker that inserts orders nobody placed.  Every random
  draw is an argument; \<open>draws_ok\<close> states the ranges \<^verbatim>\<open>gen_range\<close> documents.  The sleeps are not modelled.
\<close>

section \<open>Draws\<close>

text \<open>
  A uniform \<^verbatim>\<open>f64\<close> is \<open>n / 2 ^ 53\<close> with \<open>n < 2 ^ 53\<close>, and is given by \<open>n\<close>.  \<open>at_least\<close> compares it with
  a literal given in units of \<open>2 ^ - 55\<close>, which all literals below are multiples of.
\<close>

definition at_least :: "nat \<Rightarrow> nat \<Rightarrow> bool" where
  "at_least roll c \<longleftrightarrow> c \<le> 4 * roll"

definition f15 :: nat where "f15 = 5404319552844595"
definition f30 :: nat where "f30 = 10808639105689190"
definition f35 :: nat where "f35 = 12610078956637388"
definition f50 :: nat where "f50 = 18014398509481984"
definition f60 :: nat where "f60 = 21617278211378380"
definition f70 :: nat where "f70 = 25220157913274776"
definition f85 :: nat where "f85 = 30624477466119372"
definition f95 :: nat where "f95 = 34227357168015768"

lemmas f_defs = f15_def f30_def f35_def f50_def f60_def f70_def f85_def f95_def

record message_draw =
  md_id :: bytes
  md_body :: bytes

record evidence_draw =
  ed_id :: string
  ed_by_buyer :: bool
  ed_other :: bytes
  ed_content :: bytes
  ed_text :: bool
  ed_offset :: int

record dispute_draw =
  di_id :: string
  di_evidence :: "evidence_draw list"
  di_reason :: nat

record draws =
  d_prob :: nat
  d_order_id :: bytes
  d_listing_id :: bytes
  d_xmr :: bool
  d_age_hours :: int
  d_roll :: nat
  d_steps :: "nat \<Rightarrow> int"  \<comment> \<open>per transition, in the order of the code\<close>
  d_buyer :: bytes
  d_seller :: bytes
  d_messages :: "message_draw list"
  d_disputed_too :: bool
  d_dispute :: dispute_draw
  d_fee :: int
  d_owner :: bytes
  d_fee_chars :: "nat list"
  d_addr_chars :: "nat list"
  d_addr_bytes :: bytes
  d_whole :: nat
  d_fraction :: nat
  d_buyer_key :: bytes
  d_seller_key :: bytes
  d_lock :: int
  d_expiry :: int
  d_settlement :: bytes

definition draws_ok :: "draws \<Rightarrow> bool" where
  "draws_ok D \<longleftrightarrow> d_roll D < 2 ^ 53 \<and> d_prob D < 2 ^ 53 \<and> 12 \<le> d_age_hours D \<and> d_age_hours D < 288
     \<and> (\<forall>k. 7200 \<le> d_steps D k \<and> d_steps D k < 172800)
     \<and> 1 \<le> length (d_messages D) \<and> length (d_messages D) \<le> 8
     \<and> length (d_addr_chars D) = 31 \<and> length (d_fee_chars D) = 31
     \<and> list_all (\<lambda>i. i < 32) (d_addr_chars D) \<and> list_all (\<lambda>i. i < 32) (d_fee_chars D)
     \<and> di_reason (d_dispute D) < 5 \<and> 86400 \<le> d_expiry D \<and> d_expiry D < 1814400"

section \<open>Generators\<close>

definition pad_zeros :: "nat \<Rightarrow> nat \<Rightarrow> string" where
  "pad_zeros w n = replicate (w - length (dec n)) CHR ''0'' @ dec n"

definition random_amount :: "nat \<Rightarrow> nat \<Rightarrow> string \<Rightarrow> string" where
  "random_amount whole fraction cur =
     dec whole @ ''.'' @ (if cur = ''BTC'' then pad_zeros 8 fraction else pad_zeros 12 fraction)"

definition address_alphabet :: string where
  "address_alphabet = ''qrstuvwxyz234567acdefghjkmnpq''"

text \<open>\<^const>\<open>None\<close>: an index out of bounds panics.\<close>

fun random_chars :: "nat list \<Rightarrow> string option" where
  "random_chars [] = Some []"
| "random_chars (i # idx) =
     (if i < length address_alphabet
      then map_option (Cons (address_alphabet ! i)) (random_chars idx) else None)"

definition random_escrow_address :: "ext \<Rightarrow> nat list \<Rightarrow> bytes \<Rightarrow> string \<Rightarrow> string option" where
  "random_escrow_address L idx bs cur =
     (if cur = ''BTC'' then map_option (\<lambda>cs. ''bc1q'' @ cs) (random_chars idx)
      else Some (''4'' @ hex_encode L bs))"

text \<open>The times of one life: each transition that happens moves the running time on.\<close>

definition take_step :: "bool \<Rightarrow> int \<Rightarrow> int \<Rightarrow> int \<times> int option" where
  "take_step happens secs cur = (if happens then (cur + secs, Some (cur + secs)) else (cur, None))"

record life =
  li_state :: string
  li_funded :: "int option"
  li_shipped :: "int option"
  li_confirmed :: "int option"
  li_disputed :: "int option"
  li_released :: "int option"
  li_refunded :: "int option"
  li_cancelled :: "int option"

definition generate_state_with_timestamps :: "nat \<Rightarrow> (nat \<Rightarrow> int) \<Rightarrow> int \<Rightarrow> life" where
  "generate_state_with_timestamps roll secs created =
     (let within = (\<lambda>a b. at_least roll a \<and> \<not> at_least roll b);
          (cur, funded) = take_step (at_least roll f15) (secs 0) created;
          (cur, shipped) = take_step (at_least roll f35) (secs 1) cur;
          (cur, confirmed) = take_step (within f50 f60 \<or> at_least roll f85) (secs 2) cur;
          (cur, disputed) = take_step (within f60 f70 \<or> within f70 f95) (secs 3) cur;
          (cur, released) = take_step (within f70 f85) (secs 4) cur;
          (cur, refunded) = take_step (within f85 f95) (secs 5) cur;
          st = (if \<not> at_least roll f15 then ''pending''
                else if \<not> at_least roll f35 then ''funded''
                else if \<not> at_least roll f50 then ''shipped''
                else if \<not> at_least roll f60 then ''confirmed''
                else if \<not> at_least roll f70 then ''disputed''
                else if \<not> at_least roll f85 then ''released''
                else if \<not> at_least roll f95 then ''refunded''
                else ''cancelled'')
      in \<lparr>li_state = st, li_funded = funded, li_shipped = shipped, li_confirmed = confirmed, li_disputed = disputed,
          li_released = released, li_refunded = refunded,
          li_cancelled = (if at_least roll f95 then Some cur else None)\<rparr>)"

definition chat_message :: "bytes \<Rightarrow> bytes \<Rightarrow> int \<Rightarrow> int \<Rightarrow> nat \<Rightarrow> nat \<Rightarrow> message_draw \<Rightarrow> chat_message_data" where
  "chat_message buyer seller created span count i m =
     (let offset = (if count = 1 then trunc_div span 2 else trunc_div (span * int i) (int count - 1));
          t = created + offset
      in \<lparr>cm_id = md_id m, sender_pubkey_hash = if i mod 2 = 0 then buyer else seller, encrypted_body = md_body m,
          cm_created_at = t, cm_expires_at = t + 7776000\<rparr>)"

definition generate_chat_messages :: "message_draw list \<Rightarrow> bytes \<Rightarrow> bytes \<Rightarrow> int \<Rightarrow> int \<Rightarrow> chat_message_data list" where
  "generate_chat_messages ms buyer seller created last_at =
     map (\<lambda>(i, m). chat_message buyer seller created (last_at - created) (length ms) i m) (enumerate 0 ms)"

definition dispute_reasons :: "string list" where
  "dispute_reasons = [''item not received'', ''wrong item'', ''quality issue'', ''counterfeit'', ''other'']"

definition generate_evidence :: "ext \<Rightarrow> bytes \<Rightarrow> int option \<Rightarrow> evidence_draw \<Rightarrow> dispute_evidence_entry" where
  "generate_evidence L buyer disputed e =
     \<lparr>ev_id = ed_id e, submitted_by = if ed_by_buyer e then hex_encode L buyer else hex_encode L (ed_other e),
      encrypted_content = ed_content e, content_type = if ed_text e then ''text'' else ''image'',
      ev_created_at = unwrap_or disputed 0 + ed_offset e\<rparr>"

definition generate_dispute ::
    "ext \<Rightarrow> dispute_draw \<Rightarrow> bytes \<Rightarrow> int option \<Rightarrow> bool \<Rightarrow> int option \<Rightarrow> dispute_data \<times> string" where
  "generate_dispute L D buyer disputed resolved res_at =
     (\<lparr>dd_id = di_id D, opened_by = ''buyer'', reason = dispute_reasons ! di_reason D,
       resolution = if resolved then Some ''seller'' else None,
       resolved_by = if resolved then Some ''admin'' else None,
       resolved_at = if resolved then res_at else None,
       dd_created_at = unwrap_or disputed 0, evidence = map (generate_evidence L buyer disputed) (di_evidence D)\<rparr>,
      di_id D)"

text \<open>\<^verbatim>\<open>Option::or\<close>.\<close>

definition or_else :: "'a option \<Rightarrow> 'a option \<Rightarrow> 'a option" where
  "or_else a b = (case a of Some x \<Rightarrow> Some x | None \<Rightarrow> b)"

definition created_time :: "draws \<Rightarrow> int \<Rightarrow> int" where
  "created_time D now = floor_timestamp_6h (now - d_age_hours D * 3600)"

definition last_time :: "life \<Rightarrow> int \<Rightarrow> int" where
  "last_time l created =
     unwrap_or (or_else (or_else (or_else (or_else (or_else (li_released l) (li_refunded l)) (li_disputed l))
       (li_confirmed l)) (li_shipped l)) (li_funded l)) created"

text \<open>The order of one round; \<^const>\<open>None\<close>: the generation panics.\<close>

definition dummy_order :: "ext \<Rightarrow> draws \<Rightarrow> int \<Rightarrow> order_data option" where
  "dummy_order L D now =
     (let cur = (if d_xmr D then ''XMR'' else ''BTC'');
          created = created_time D now;
          l = generate_state_with_timestamps (d_roll D) (d_steps D) created;
          last_ts = last_time l created;
          is_resolved = (li_state l = ''released'' \<or> li_state l = ''refunded'');
          has_dispute = (li_disputed l \<noteq> None \<or> is_resolved \<and> d_disputed_too D);
          dis = generate_dispute L (d_dispute D) (d_buyer D) (or_else (li_disputed l) (Some last_ts)) is_resolved
                  (or_else (li_released l) (li_refunded l));
          has_btc = (cur = ''BTC'')
      in Option.bind (if has_btc then map_option Some (random_escrow_address L (d_fee_chars D) [] ''BTC'') else Some None) (\<lambda>fee_addr.
         Option.bind (random_escrow_address L (d_addr_chars D) (d_addr_bytes D) cur) (\<lambda>addr.
         Some \<lparr>listing_id = d_listing_id D, buyer_pubkey_hash = d_buyer D, seller_pubkey_hash = d_seller D,
               buyer_pubkey = Some (hex_encode L (d_buyer_key D)), seller_pubkey = Some (hex_encode L (d_seller_key D)),
               order_state = li_state l, currency = cur, escrow_address = Some addr,
               escrow_amount = Some (random_amount (d_whole D) (d_fraction D) cur),
               time_lock_seconds = d_lock D, created_at = created, funded_at = li_funded l, shipped_at = li_shipped l,
               confirmed_at = li_confirmed l, released_at = li_released l, refunded_at = li_refunded l,
               expires_at = Some (created + d_expiry D), disputed_at = li_disputed l,
               dispute_id = if has_dispute then Some (snd dis) else None,
               owner_pubkey = if has_btc then Some (hex_encode L (d_owner D)) else None,
               fee_percent = if has_btc then Some (d_fee D) else None, fee_address = fee_addr,
               dispute = if has_dispute then Some (fst dis) else None,
               chat_messages = generate_chat_messages (d_messages D) (d_buyer D) (d_seller D) created last_ts,
               settlement_txid = map_option (\<lambda>_. hex_encode L (d_settlement D)) (li_released l)\<rparr>)))"

definition run_dummy_worker :: "ext \<Rightarrow> app \<Rightarrow> wenv \<Rightarrow> draws \<Rightarrow> orders \<Rightarrow> ((string + unit) \<times> orders) option" where
  "run_dummy_worker L A W D rows =
     (if 4 * d_prob D > f30 then Some (Inr (), rows)
      else
        let now = floor_timestamp_6h (w_time W) in
        map_option (\<lambda>d.
          then_do (ok_or ''serialization failed'' (order_to_json L d), rows) (\<lambda>json rows.
            case app_worker_key A of
              None \<Rightarrow> (Inr (), rows)
            | Some key \<Rightarrow>
               (case encrypt_order_blob L (w_nonce W (d_order_id D)) json key (d_order_id D) of
                  None \<Rightarrow> (Inr (), rows)
                | Some blob \<Rightarrow>
                   (case w_write_fault W (d_order_id D) of
                      Some e \<Rightarrow> (Inl e, rows)
                    | None \<Rightarrow>
                       (case insert_order (new_order_row (d_order_id D) blob now (expires_at d)) rows of
                          None \<Rightarrow> (Inl (unique_violation L), rows)
                        | Some rows' \<Rightarrow> (Inr (), rows'))))))
          (dummy_order L D now))"

section \<open>Addresses\<close>

lemma random_chars_panics: "random_chars idx = None \<longleftrightarrow> (\<exists>i \<in> set idx. 29 \<le> i)"
  by (induction idx) (auto simp: address_alphabet_def not_less)

lemma dummy_order_panics:
  "dummy_order L D now = None \<longleftrightarrow> \<not> d_xmr D \<and> (\<exists>i \<in> set (d_fee_chars D @ d_addr_chars D). 29 \<le> i)"
proof (cases "d_xmr D")
  case True
  then show ?thesis by (simp add: dummy_order_def random_escrow_address_def Let_def)
next
  case False
  then show ?thesis
    using random_chars_panics [of "d_fee_chars D"] random_chars_panics [of "d_addr_chars D"]
    by (cases "random_chars (d_fee_chars D)"; cases "random_chars (d_addr_chars D)")
       (auto simp: dummy_order_def random_escrow_address_def Let_def)
qed

lemma dummy_order_fields:
  assumes "dummy_order L D now = Some d"
  shows "expires_at d = Some (created_time D now + d_expiry D)" "created_at d = created_time D now"
    "order_state d = li_state (generate_state_with_timestamps (d_roll D) (d_steps D) (created_time D now))"
  using assms by (auto simp: dummy_order_def Let_def Option.bind_eq_Some_conv)

section \<open>Lives\<close>

text \<open>The states a life has passed through, in the order of the timestamps it carries.\<close>

definition visited :: "life \<Rightarrow> string list" where
  "visited l = ''pending'' # (if li_funded l = None then [] else [''funded''])
     @ (if li_shipped l = None then [] else [''shipped'']) @ (if li_confirmed l = None then [] else [''confirmed''])
     @ (if li_disputed l = None then [] else [''disputed'']) @ (if li_released l = None then [] else [''released''])
     @ (if li_refunded l = None then [] else [''refunded'']) @ (if li_cancelled l = None then [] else [''cancelled''])"

fun follows :: "string list \<Rightarrow> bool" where
  "follows (s # t # ss) \<longleftrightarrow> List.member (transitions_of s) t \<and> follows (t # ss)"
| "follows ss \<longleftrightarrow> True"

lemma at_least_mono: "at_least roll c \<Longrightarrow> c' \<le> c \<Longrightarrow> at_least roll c'"
  by (simp add: at_least_def)

lemma f_order: "f15 \<le> f35" "f35 \<le> f50" "f50 \<le> f60" "f60 \<le> f70" "f70 \<le> f85" "f85 \<le> f95"
  by (simp_all add: f_defs)

text \<open>The eight bands of the roll.\<close>

lemma roll_cases:
  obtains "\<not> at_least roll f15" "\<not> at_least roll f35" "\<not> at_least roll f50" "\<not> at_least roll f60" "\<not> at_least roll f70"
      "\<not> at_least roll f85" "\<not> at_least roll f95"
  | "at_least roll f15" "\<not> at_least roll f35" "\<not> at_least roll f50" "\<not> at_least roll f60" "\<not> at_least roll f70"
      "\<not> at_least roll f85" "\<not> at_least roll f95"
  | "at_least roll f15" "at_least roll f35" "\<not> at_least roll f50" "\<not> at_least roll f60" "\<not> at_least roll f70"
      "\<not> at_least roll f85" "\<not> at_least roll f95"
  | "at_least roll f15" "at_least roll f35" "at_least roll f50" "\<not> at_least roll f60" "\<not> at_least roll f70"
      "\<not> at_least roll f85" "\<not> at_least roll f95"
  | "at_least roll f15" "at_least roll f35" "at_least roll f50" "at_least roll f60" "\<not> at_least roll f70"
      "\<not> at_least roll f85" "\<not> at_least roll f95"
  | "at_least roll f15" "at_least roll f35" "at_least roll f50" "at_least roll f60" "at_least roll f70"
      "\<not> at_least roll f85" "\<not> at_least roll f95"
  | "at_least roll f15" "at_least roll f35" "at_least roll f50" "at_least roll f60" "at_least roll f70"
      "at_least roll f85" "\<not> at_least roll f95"
  | "at_least roll f15" "at_least roll f35" "at_least roll f50" "at_least roll f60" "at_least roll f70"
      "at_least roll f85" "at_least roll f95"
proof -
  have mono: "at_least roll f35 \<Longrightarrow> at_least roll f15" "at_least roll f50 \<Longrightarrow> at_least roll f35"
    "at_least roll f60 \<Longrightarrow> at_least roll f50" "at_least roll f70 \<Longrightarrow> at_least roll f60"
    "at_least roll f85 \<Longrightarrow> at_least roll f70" "at_least roll f95 \<Longrightarrow> at_least roll f85"
    using at_least_mono f_order by blast+
  then show thesis using that by blast
qed

lemmas life_defs = generate_state_with_timestamps_def take_step_def visited_def Let_def

lemma life_follows: "follows (visited (generate_state_with_timestamps roll secs t)) \<longleftrightarrow> \<not> at_least roll f85"
  by (cases rule: roll_cases [of roll]) (simp_all add: life_defs transitions_of_def)

lemma last_visited: "last (visited (generate_state_with_timestamps roll secs t)) = li_state (generate_state_with_timestamps roll secs t)"
  by (cases rule: roll_cases [of roll]) (simp_all add: life_defs)

lemma last_time_after:
  assumes "\<And>k. 0 \<le> secs k"
  shows "t \<le> last_time (generate_state_with_timestamps roll secs t) t"
  using assms [of 0] assms [of 1] assms [of 2] assms [of 3] assms [of 4] assms [of 5]
  by (cases rule: roll_cases [of roll]) (simp_all add: life_defs last_time_def or_else_def unwrap_or_def)

lemma chat_message_within:
  assumes "i < count" "created \<le> last_at"
  shows "created \<le> cm_created_at (chat_message b s created (last_at - created) count i m)
     \<and> cm_created_at (chat_message b s created (last_at - created) count i m) \<le> last_at"
proof (cases "count = 1")
  case True
  then show ?thesis
    using assms(2) by (simp add: chat_message_def Let_def trunc_div_nonneg)
next
  case False
  with assms(1) have c: "0 < int count - 1" "int i \<le> int count - 1" by auto
  have "(last_at - created) * int i \<le> (last_at - created) * (int count - 1)"
    using assms(2) c(2) by (simp add: mult_left_mono)
  then have "(last_at - created) * int i div (int count - 1) \<le> (last_at - created) * (int count - 1) div (int count - 1)"
    using c(1) by (rule zdiv_mono1)
  moreover have "0 \<le> (last_at - created) * int i div (int count - 1)"
    using assms(2) c(1) by (simp add: pos_imp_zdiv_nonneg_iff)
  ultimately show ?thesis
    using False c(1) assms(2) by (simp add: chat_message_def Let_def trunc_div_nonneg)
qed

section \<open>Properties\<close>

lemma run_dummy_worker_row:
  assumes "run_dummy_worker L A W D rows = Some (res, rows')" "rows' \<noteq> rows"
  obtains d blob where "dummy_order L D (floor_timestamp_6h (w_time W)) = Some d"
    "insert_order (new_order_row (d_order_id D) blob (floor_timestamp_6h (w_time W)) (expires_at d)) rows = Some rows'"
proof -
  obtain d where d: "dummy_order L D (floor_timestamp_6h (w_time W)) = Some d"
    using assms by (auto simp: run_dummy_worker_def Let_def split: if_splits)
  with assms that show thesis
    by (cases "order_to_json L d") (auto simp: run_dummy_worker_def Let_def split: if_splits option.splits)
qed

text \<open>
  The generator dies of its bitcoin addresses: a round panics exactly when it makes a bitcoin order and one of
  the 62 indices drawn for its two addresses is 29, 30 or 31, because the alphabet of 32 indices has 29
  characters.  The panic ends the worker's task, so no dummy order is made after the first such
  round.
\<close>

theorem dummy_worker_panics:
  "run_dummy_worker L A W D rows = None \<longleftrightarrow>
     4 * d_prob D \<le> f30 \<and> \<not> d_xmr D \<and> (\<exists>i \<in> set (d_fee_chars D @ d_addr_chars D). 29 \<le> i)"
  using dummy_order_panics [of L D "floor_timestamp_6h (w_time W)"]
  by (auto simp: run_dummy_worker_def Let_def not_less)

text \<open>
  A dummy order carries a consistent story: the times of its life never go back, every chat message lies between
  its creation and its last event, and the last state the times tell is the order's state.  The
  states they tell are a path of the state machine except for the upper 15 percent of the
  draws, the refunded and the cancelled orders, which all claim to have been confirmed before.
\<close>

theorem dummy_story:
  assumes "draws_ok D" "dummy_order L D now = Some d"
  shows "let l = generate_state_with_timestamps (d_roll D) (d_steps D) (created_at d) in
     order_state d = last (visited l)
     \<and> created_at d \<le> last_time l (created_at d)
     \<and> list_all (\<lambda>m. created_at d \<le> cm_created_at m \<and> cm_created_at m \<le> last_time l (created_at d)) (chat_messages d)
     \<and> (follows (visited l) \<longleftrightarrow> \<not> at_least (d_roll D) f85)
     \<and> (at_least (d_roll D) f85 \<longleftrightarrow> order_state d \<in> {''refunded'', ''cancelled''})"
proof -
  let ?t = "created_time D now"
  let ?l = "generate_state_with_timestamps (d_roll D) (d_steps D) ?t"
  have after: "?t \<le> last_time ?l ?t"
    using assms(1) by (intro last_time_after) (auto simp: draws_ok_def intro: order_trans [of 0 7200])
  have "chat_messages d = generate_chat_messages (d_messages D) (d_buyer D) (d_seller D) ?t (last_time ?l ?t)"
    using assms(2) by (auto simp: dummy_order_def Let_def Option.bind_eq_Some_conv)
  then have "list_all (\<lambda>m. ?t \<le> cm_created_at m \<and> cm_created_at m \<le> last_time ?l ?t) (chat_messages d)"
    using chat_message_within [OF _ after]
    by (auto simp: list_all_iff generate_chat_messages_def in_set_enumerate_eq)
  moreover have "at_least (d_roll D) f85 \<longleftrightarrow> li_state ?l \<in> {''refunded'', ''cancelled''}"
    by (cases rule: roll_cases [of "d_roll D"]) (simp_all add: life_defs)
  ultimately show ?thesis
    using dummy_order_fields [OF assms(2)] after last_visited life_follows by (simp add: Let_def)
qed

text \<open>What every order row looks like otherwise: its expiry is rounded to six hours.\<close>

definition bucket_aligned :: "order \<Rightarrow> bool" where
  "bucket_aligned r = (case expiry_bucket r of None \<Rightarrow> True | Some e \<Rightarrow> 21600 dvd e)"

text \<open>
  A dummy order can be told from a real one without any key: it is inserted with its expiry as
  drawn, which is a multiple of six hours only when the drawn offset is one, while every row
  the worker writes for a real order gets an expiry rounded to six hours.
\<close>

theorem dummy_rows_stand_out:
  assumes "run_dummy_worker L A W D rows = Some (res, rows')" "rows' \<noteq> rows"
  shows "(\<exists>r e. rows' = rows @ [r] \<and> o_id r = d_order_id D \<and> expiry_bucket r = Some e \<and> (21600 dvd e \<longleftrightarrow> 21600 dvd d_expiry D))
     \<and> list_all bucket_aligned (filter (\<lambda>r. r \<notin> set rows) (snd (write_order L W key i d v rows)))"
proof -
  obtain x blob where x: "dummy_order L D (floor_timestamp_6h (w_time W)) = Some x"
    "rows' = rows @ [new_order_row (d_order_id D) blob (floor_timestamp_6h (w_time W)) (expires_at x)]"
    by (rule run_dummy_worker_row [OF assms]) (simp add: insert_order_def insert_row_Some)
  have "21600 dvd created_time D now" for now by (simp add: created_time_def floor_6h_multiple)
  then have "21600 dvd created_time D now + d_expiry D \<longleftrightarrow> 21600 dvd d_expiry D" for now by (rule dvd_add_right_iff)
  moreover have "bucket_aligned r"
    if "r \<in> set (snd (write_order L W key i d v rows))" "r \<notin> set rows" for r
    using that
    by (auto simp: write_order_def write_sealed_def checked_update_def worker_update_def then_do_def set_blob_expiry_def
        Let_def update_orders_def cas_update_def apply_order_write_def bucket_aligned_def floor_6h_multiple
        split: sum.splits option.splits if_splits prod.splits)
  ultimately show ?thesis
    using x dummy_order_fields(1) [OF x(1)] by (auto simp: list_all_iff new_order_row_def)
qed

definition demo_draws :: draws where
  "demo_draws =
     \<lparr>d_prob = 0, d_order_id = replicate 16 1, d_listing_id = replicate 16 2, d_xmr = True, d_age_hours = 12,
      d_roll = 0, d_steps = (\<lambda>_. 7200), d_buyer = [1], d_seller = [2], d_messages = [\<lparr>md_id = [1], md_body = [7]\<rparr>],
      d_disputed_too = False, d_dispute = \<lparr>di_id = ''x'', di_evidence = [], di_reason = 0\<rparr>, d_fee = 1, d_owner = [],
      d_fee_chars = replicate 31 0, d_addr_chars = replicate 31 0, d_addr_bytes = [3], d_whole = 1, d_fraction = 5,
      d_buyer_key = [4], d_seller_key = [5], d_lock = 86400, d_expiry = 90000, d_settlement = []\<rparr>"

definition demo_dummy :: order_data where
  "demo_dummy = the (dummy_order demo_ext demo_draws 172800)"

lemma demo_draws_ok: "draws_ok demo_draws" by (simp add: draws_ok_def demo_draws_def list_all_iff)

lemma demo_dummy_order: "dummy_order (demo_worker ds) demo_draws 172800 = Some demo_dummy"
proof -
  have "dummy_order (demo_worker ds) demo_draws 172800 = dummy_order demo_ext demo_draws 172800"
    by (simp add: dummy_order_def demo_worker_def random_escrow_address_def generate_dispute_def demo_draws_def Let_def)
  moreover have "dummy_order demo_ext demo_draws 172800 \<noteq> None"
    unfolding dummy_order_panics by (simp add: demo_draws_def)
  ultimately show ?thesis by (auto simp: demo_dummy_def)
qed

lemma dummy_story_witness:
  "follows (visited (generate_state_with_timestamps (d_roll demo_draws) (d_steps demo_draws) (created_at demo_dummy)))
     \<and> order_state demo_dummy = ''pending''"
proof -
  have "\<not> at_least (d_roll demo_draws) f85" by (simp add: at_least_def demo_draws_def f_defs)
  moreover have "li_state (generate_state_with_timestamps (d_roll demo_draws) s t) = ''pending''" for s t
    by (simp add: generate_state_with_timestamps_def take_step_def Let_def at_least_def demo_draws_def f_defs)
  ultimately show ?thesis
    using dummy_story [OF demo_draws_ok demo_dummy_order [of "[]"]] by (simp add: Let_def last_visited)
qed

lemma dummy_rows_stand_out_witness:
  "\<exists>res rows' r e. run_dummy_worker (demo_worker [demo_dummy]) demo_app (demo_wenv 180000) demo_draws [] = Some (res, rows')
     \<and> rows' = [r] \<and> expiry_bucket r = Some e \<and> \<not> 21600 dvd e"
proof -
  let ?L = "demo_worker [demo_dummy]"
  have fl: "floor_timestamp_6h 180000 = 172800" by (simp add: floor_timestamp_6h_def trunc_div_def)
  have "order_to_json ?L demo_dummy = Some []" by (simp add: demo_worker_def demo_to_json_def upt_rec)
  moreover obtain b where "encrypt_order_blob ?L (replicate 12 5) [] (replicate 32 3) (d_order_id demo_draws) = Some b"
    using demo_derive_key [of "[demo_dummy]" "replicate 32 3" "d_order_id demo_draws"]
    by (auto simp: encrypt_order_blob_def demo_worker_def demo_ext_sel)
  moreover have "app_worker_key demo_app = Some (replicate 32 3)" "w_write_fault (demo_wenv 180000) = (\<lambda>_. None)"
    "w_nonce (demo_wenv 180000) = (\<lambda>_. replicate 12 5)" "w_time (demo_wenv 180000) = 180000" "\<not> 4 * d_prob demo_draws > f30"
    by (simp_all add: demo_app_def demo_wenv_def demo_draws_def)
  ultimately obtain rows' where run: "run_dummy_worker ?L demo_app (demo_wenv 180000) demo_draws [] = Some (Inr (), rows')" "rows' \<noteq> []"
    by (simp add: run_dummy_worker_def fl demo_dummy_order insert_order_def insert_row_def)
  have "\<not> (21600 :: int) dvd d_expiry demo_draws" by (simp add: demo_draws_def)
  with dummy_rows_stand_out [OF run, where v = 0] run show ?thesis by fastforce
qed

end
