(* ===== verification/Concurrency.thy ===== *)
theory Concurrency
  imports Orders Disputes Chat Dummy_Worker
begin

text \<open>
  Requests and workers run concurrently on one orders table: the handlers' two phases, the workers' reads and
  conditional writes, and the insertions, as steps of one system in any interleaving.  A pending operation keeps the
  row it read; a log keeps the writes that took effect.
\<close>

section \<open>The system\<close>

record system =
  sys_api :: api_state
  sys_pending :: "nat \<Rightarrow> (order \<times> order_cas) option"  \<comment> \<open>per request or worker\<close>
  sys_log :: "(order \<times> order_cas) list"  \<comment> \<open>oldest first\<close>

abbreviation sys_orders :: "system \<Rightarrow> orders" where
  "sys_orders S \<equiv> db_orders (sys_api S)"

text \<open>The read phases of the five handlers that write an order; \<open>Inl\<close>: refused.\<close>

inductive read_phase :: "ext \<Rightarrow> app \<Rightarrow> api_state \<Rightarrow> order_cas res \<Rightarrow> api_state \<Rightarrow> bool" for L A where
  update_order: "update_order_read L E pk i req st = (res, st') \<Longrightarrow> read_phase L A st (map_sum id fst res) st'"
| update_chat: "update_chat_read L E i creq st = (cres, st') \<Longrightarrow> read_phase L A st (map_sum id fst cres) st'"
| open_dispute: "open_dispute_read L E oreq st = (dres, st') \<Longrightarrow> read_phase L A st (map_sum id fst dres) st'"
| update_dispute: "update_dispute_read L E i ureq st = (dres, st') \<Longrightarrow> read_phase L A st (map_sum id fst dres) st'"
| resolve_dispute: "resolve_dispute_read L A E i rreq st = (dres, st') \<Longrightarrow> read_phase L A st (map_sum id fst dres) st'"

inductive sys_step :: "ext \<Rightarrow> app \<Rightarrow> bytes \<Rightarrow> system \<Rightarrow> system \<Rightarrow> bool" for L A key where
  created: "create_order L A E req (sys_api S) = (res, st') \<Longrightarrow> sys_step L A key S (S\<lparr>sys_api := st'\<rparr>)"
| refused: "read_phase L A (sys_api S) (Inl e) st' \<Longrightarrow> sys_step L A key S (S\<lparr>sys_api := st'\<rparr>)"
| begun: "read_phase L A (sys_api S) (Inr c) st' \<Longrightarrow> select_order (cas_id c) (sys_orders S) = Some r \<Longrightarrow>
    sys_step L A key S (S\<lparr>sys_api := st', sys_pending := (sys_pending S)(a := Some (r, c))\<rparr>)"
| worker_read: "select_order i (sys_orders S) = Some r \<Longrightarrow> open_order L key r = Some d \<Longrightarrow>
    seal_order L W key i d' = Inr blob \<Longrightarrow> w = SetOrderBlob blob \<or> w = set_blob_expiry d' blob \<Longrightarrow>
    sys_step L A key S (S\<lparr>sys_pending := (sys_pending S)
      (a := Some (r, \<lparr>cas_id = i, cas_version = o_version r, cas_write = w\<rparr>))\<rparr>)"
| committed: "sys_pending S a = Some (r, c) \<Longrightarrow> commit_order E k c (sys_api S) = (res, st') \<Longrightarrow>
    sys_step L A key S (S\<lparr>sys_api := st', sys_pending := (sys_pending S)(a := None),
      sys_log := sys_log S @ (if is_ok res then [(r, c)] else [])\<rparr>)"
| dummy: "run_dummy_worker L A' W D (sys_orders S) = Some (res, rows') \<Longrightarrow>
    sys_step L A key S (S\<lparr>sys_api := (sys_api S)\<lparr>db_orders := rows'\<rparr>\<rparr>)"

abbreviation sys_run :: "ext \<Rightarrow> app \<Rightarrow> bytes \<Rightarrow> system \<Rightarrow> system \<Rightarrow> bool" where
  "sys_run L A key \<equiv> rtranclp (sys_step L A key)"

section \<open>Reads\<close>

text \<open>A read phase changes no order and names the version of the row it has read.\<close>

lemma read_phase_orders: "read_phase L A st res st' \<Longrightarrow> db_orders st' = db_orders st"
proof (induction rule: read_phase.induct)
  case (update_order E pk i req st res st')
  then show ?case using update_order_read_orders [of L E pk i req st] by simp
next
  case (update_chat E i creq st cres st')
  then show ?case using update_chat_read_orders [of L E i creq st] by simp
next
  case (open_dispute E oreq st dres st')
  then show ?case using open_dispute_read_orders [of L E oreq st] by simp
next
  case (update_dispute E i ureq st dres st')
  then show ?case using update_dispute_read_orders [of L E i ureq st] by simp
next
  case (resolve_dispute E i rreq st dres st')
  then show ?case using resolve_dispute_read_orders [of L A E i rreq st] by simp
qed

lemma update_dispute_read_version:
  "update_dispute_read L E i req st = (Inr (c, resp), st') \<Longrightarrow>
     \<exists>r. select_order (cas_id c) (db_orders st) = Some r \<and> cas_version c = o_version r"
  unfolding update_dispute_read_def
  by (cases "hex_decode L i"; cases "check_dispute_blob L (ud_blob req)")
     (auto simp: check_dispute_nonce_step Let_def split: if_splits)

lemma map_sum_Inr [simp]: "map_sum f g x = Inr y \<longleftrightarrow> (\<exists>z. x = Inr z \<and> y = g z)"
  by (cases x) auto

lemma read_phase_version:
  "read_phase L A st res st' \<Longrightarrow> res = Inr c \<Longrightarrow>
     \<exists>r. select_order (cas_id c) (db_orders st) = Some r \<and> cas_version c = o_version r"
proof (induction rule: read_phase.induct)
  case (update_order E pk i req st res st')
  then show ?case by (auto simp: update_order_read_Inr update_checks_def)
next
  case (update_chat E i creq st cres st')
  then show ?case by (auto simp: update_chat_read_Inr)
next
  case (open_dispute E oreq st dres st')
  then show ?case by (auto simp: open_dispute_read_Inr)
next
  case (update_dispute E i ureq st dres st')
  then show ?case by (auto dest: update_dispute_read_version)
next
  case (resolve_dispute E i rreq st dres st')
  then show ?case by (auto simp: resolve_dispute_read_Inr)
qed

section \<open>Histories\<close>

text \<open>\<open>history r0 ws r\<close>: each write was computed from what the one before it had left.\<close>

fun history :: "order \<Rightarrow> (order \<times> order_cas) list \<Rightarrow> order \<Rightarrow> bool" where
  "history r0 [] r \<longleftrightarrow> r = r0"
| "history r0 ((s, c) # ws) r \<longleftrightarrow> s = r0 \<and> cas_version c = o_version r0 \<and> history (apply_order_write (cas_write c) r0) ws r"

lemma history_snoc:
  "history r0 (ws @ [(s, c)]) r \<longleftrightarrow>
     (\<exists>q. history r0 ws q \<and> s = q \<and> cas_version c = o_version q \<and> r = apply_order_write (cas_write c) q)"
  by (induction ws arbitrary: r0) auto

lemma history_version: "history r0 ws r \<Longrightarrow> o_version r = o_version r0 + int (length ws)"
  by (induction r0 ws r rule: history.induct) (auto simp: apply_order_write_def)

definition writes_of :: "bytes \<Rightarrow> system \<Rightarrow> (order \<times> order_cas) list" where
  "writes_of i S = filter (\<lambda>(r, c). cas_id c = i) (sys_log S)"

text \<open>A pending operation has read its row at the version it will ask for, in the past.\<close>

definition pending_ok :: "orders \<Rightarrow> order \<times> order_cas \<Rightarrow> bool" where
  "pending_ok rows p \<longleftrightarrow> (case p of (r, c) \<Rightarrow> o_id r = cas_id c \<and> cas_version c = o_version r
     \<and> (\<exists>r'. select_order (cas_id c) rows = Some r' \<and> o_version r \<le> o_version r' \<and> (o_version r' = o_version r \<longrightarrow> r' = r)))"

lemma pending_ok_evolves: "pending_ok rows p \<Longrightarrow> orders_evolve rows rows' \<Longrightarrow> pending_ok rows' p"
  unfolding pending_ok_def evolves_def by (auto split: prod.splits) (metis order.trans order_antisym_conv)

lemma pending_ok_now: "select_order (cas_id c) rows = Some r \<Longrightarrow> cas_version c = o_version r \<Longrightarrow> pending_ok rows (r, c)"
  by (auto simp: pending_ok_def dest: select_by_Some)

definition sys_inv :: "system \<Rightarrow> bool" where
  "sys_inv S \<longleftrightarrow> orders_wf (sys_orders S) \<and> (\<forall>a p. sys_pending S a = Some p \<longrightarrow> pending_ok (sys_orders S) p)"

text \<open>What every step does to the table: an insertion of other rows, or the commit of a pending write.\<close>

lemma run_dummy_worker_orders:
  assumes "run_dummy_worker L A W D rows = Some (res, rows')"
  shows "rows' = rows \<or> (\<exists>r. insert_order r rows = Some rows')"
  using run_dummy_worker_row [OF assms] by metis

text \<open>What a step does to the table, the pending operations and the log.\<close>

lemma sys_step_kinds:
  assumes "sys_step L A key S S'"
  obtains (insert) "sys_pending S' = sys_pending S" "sys_log S' = sys_log S"
      "sys_orders S' = sys_orders S \<or> (\<exists>r. insert_order r (sys_orders S) = Some (sys_orders S'))"
  | (read) a r c where "sys_orders S' = sys_orders S" "sys_log S' = sys_log S" "sys_pending S' = (sys_pending S)(a := Some (r, c))"
      "select_order (cas_id c) (sys_orders S) = Some r" "cas_version c = o_version r"
  | (commit) a r c E k where "sys_pending S a = Some (r, c)" "sys_pending S' = (sys_pending S)(a := None)"
      "sys_orders S' = snd (commit_orders E k c (sys_orders S))"
      "sys_log S' = sys_log S @ (if is_ok (fst (commit_orders E k c (sys_orders S))) then [(r, c)] else [])"
  using assms
proof (cases rule: sys_step.cases)
  case (created E req res st')
  have "db_orders st' = sys_orders S \<or> (\<exists>r. insert_order r (sys_orders S) = Some (db_orders st'))"
    using created(2) by (cases rule: create_order_cases [of L A E req "sys_api S"]) auto
  then show ?thesis using created(1) by (intro insert) simp_all
next
  case (refused e st')
  then show ?thesis by (intro insert) (simp_all add: read_phase_orders)
next
  case (begun c st' r a)
  then show ?thesis
    using read_phase_version [OF begun(2) refl] by (intro read [of a r c]) (simp_all add: read_phase_orders)
next
  case (worker_read i r d W d' blob w a)
  then show ?thesis by (intro read [of a r "\<lparr>cas_id = i, cas_version = o_version r, cas_write = w\<rparr>"]) simp_all
next
  case (committed a r c E k res st')
  then have "res = fst (commit_orders E k c (sys_orders S))" "db_orders st' = snd (commit_orders E k c (sys_orders S))"
    using commit_order_frame [of E k c "sys_api S"] by simp_all
  with committed show ?thesis by (intro commit [of a r c E k]) simp_all
next
  case (dummy A' W D res rows')
  then show ?thesis using run_dummy_worker_orders [OF dummy(2)] by (intro insert) auto
qed

lemma sys_step_evolves: "sys_step L A key S S' \<Longrightarrow> orders_evolve (sys_orders S) (sys_orders S')"
  by (erule sys_step_kinds) (auto simp: commit_orders_evolves orders_evolve_insert)

lemma sys_step_inv:
  assumes "sys_step L A key S S'" "sys_inv S"
  shows "sys_inv S'"
proof -
  have wf: "orders_wf (sys_orders S')"
    using assms by (auto elim!: sys_step_kinds simp: sys_inv_def orders_wf_insert commit_orders_wf)
  have "pending_ok (sys_orders S') p" if "sys_pending S' a = Some p" for a p
  proof (cases "sys_pending S a = Some p")
    case True
    then show ?thesis using pending_ok_evolves [OF _ sys_step_evolves [OF assms(1)]] assms(2) unfolding sys_inv_def by blast
  next
    case False
    with assms(1) that show ?thesis
      by (auto elim!: sys_step_kinds intro: pending_ok_now split: if_splits)
  qed
  with wf show ?thesis by (simp add: sys_inv_def)
qed

lemma sys_step_history:
  assumes "sys_step L A key S S'" "sys_inv S" "select_order i (sys_orders S) = Some r" "history r0 ws r"
    and "writes_of i S = past @ ws"
  shows "\<exists>ws' r'. select_order i (sys_orders S') = Some r' \<and> history r0 ws' r' \<and> writes_of i S' = past @ ws'"
  using assms(1)
proof (cases rule: sys_step_kinds)
  case insert
  then have "select_order i (sys_orders S') = Some r"
    using assms(3) by (auto simp: insert_order_def insert_row_Some select_by_append)
  moreover have "writes_of i S' = writes_of i S" using insert by (simp add: writes_of_def)
  ultimately show ?thesis using assms(4,5) by metis
next
  case (read a s c)
  then show ?thesis using assms(3-5) by (auto simp: writes_of_def)
next
  case (commit a s c E k)
  have inv: "orders_wf (sys_orders S)" "pending_ok (sys_orders S) (s, c)"
    using assms(2) commit(1) by (auto simp: sys_inv_def)
  show ?thesis
  proof (cases "is_ok (fst (commit_orders E k c (sys_orders S)))")
    case False
    then show ?thesis
      using commit assms(3-5) commit_orders_error [OF False] by (auto simp: writes_of_def)
  next
    case ok: True
    then obtain q where q: "db_fault E k = None" "select_order (cas_id c) (sys_orders S) = Some q" "o_version q = cas_version c"
      by (auto simp: commit_orders_ok_iff [OF inv(1)])
    then have s: "s = q" using inv(2) by (auto simp: pending_ok_def)
    show ?thesis
    proof (cases "i = cas_id c")
      case False
      then show ?thesis
        using commit(3,4) assms(3-5) ok commit_orders_other [of i c E k "sys_orders S"] by (auto simp: writes_of_def)
    next
      case True
      then have "r = q" using assms(3) q(2) by simp
      then have "history r0 (ws @ [(s, c)]) (apply_order_write (cas_write c) q)"
        using assms(4) s q(3) by (simp add: history_snoc)
      moreover have "select_order i (sys_orders S') = Some (apply_order_write (cas_write c) q)"
        using commit(3) True commit_orders_row [OF q(1,2,3) inv(1)] by simp
      moreover have "writes_of i S' = past @ (ws @ [(s, c)])"
        using commit(4) ok True assms(5) by (simp add: writes_of_def)
      ultimately show ?thesis by blast
    qed
  qed
qed

lemma sys_run_history:
  assumes "sys_run L A key S S'" "sys_inv S" "select_order i (sys_orders S) = Some r0"
  shows "sys_inv S' \<and> (\<exists>ws r. select_order i (sys_orders S') = Some r \<and> history r0 ws r \<and> writes_of i S' = writes_of i S @ ws)"
  using assms
proof (induction rule: rtranclp_induct)
  case base
  then show ?case by (intro conjI exI [of _ "[]"]) auto
next
  case (step S1 S2)
  then obtain ws r where h: "sys_inv S1" "select_order i (sys_orders S1) = Some r" "history r0 ws r"
    "writes_of i S1 = writes_of i S @ ws" by blast
  from sys_step_history [OF step.hyps(2) h] sys_step_inv [OF step.hyps(2) h(1)] show ?case by blast
qed

section \<open>Properties\<close>

text \<open>
  C36. No update is lost, however requests, workers and insertions interleave: the row of an order is always the row it
  was after all the writes that took effect since, in the order in which they did, each of which
  was computed from exactly the row that the one before it had left; its version has
  counted them, and a write that did not take effect left no trace.
\<close>

theorem writes_serialised:
  assumes "orders_wf (sys_orders S)" "sys_pending S = Map.empty" "sys_run L A key S S'" "select_order i (sys_orders S) = Some r0"
  shows "\<exists>ws r. writes_of i S' = writes_of i S @ ws \<and> select_order i (sys_orders S') = Some r
     \<and> history r0 ws r \<and> o_version r = o_version r0 + int (length ws)"
proof -
  have "sys_inv S" using assms(1,2) by (simp add: sys_inv_def)
  from sys_run_history [OF assms(3) this assms(4)] show ?thesis by (blast intro: history_version)
qed

text \<open>Two workers read the same order; the second write finds it changed.\<close>

lemma writes_serialised_witness:
  "\<forall>A. \<exists>S'. sys_run (demo_worker [demo_order]) A (replicate 32 3)
        \<lparr>sys_api = empty_api\<lparr>db_orders := [new_order_row [1] (demo_blob 0) 0 None]\<rparr>, sys_pending = Map.empty, sys_log = []\<rparr> S'
     \<and> sys_pending S' = Map.empty \<and> (\<exists>r. select_order [1] (sys_orders S') = Some r \<and> o_version r = 2 \<and> length (writes_of [1] S') = 1)"
proof
  fix A
  let ?L = "demo_worker [demo_order]" and ?key = "replicate 32 (3 :: byte)" and ?r = "new_order_row [1] (demo_blob 0) 0 None"
  let ?c = "\<lparr>cas_id = [1], cas_version = 1, cas_write = SetOrderBlob (demo_blob 0)\<rparr>"
  let ?S = "\<lparr>sys_api = empty_api\<lparr>db_orders := [?r]\<rparr>, sys_pending = Map.empty, sys_log = []\<rparr>"
  let ?E = "\<lparr>unix_time = 0, random_id = [], db_fault = (\<lambda>_. None)\<rparr>"
  have r: "select_order [1] [?r] = Some ?r" "o_version ?r = 1" by (simp_all add: select_by_def new_order_row_def)
  have "demo_to_json [demo_order] demo_order = Some (replicate 0 0)" by (simp add: demo_to_json_def)
  from demo_seal [OF this] have seal: "seal_order ?L (demo_wenv 7) ?key [1] demo_order = Inr (demo_blob 0)" .
  have op: "open_order ?L ?key ?r = Some demo_order"
    using demo_open [of ?r 0 "[demo_order]"] by (simp add: new_order_row_def)
  have read: "sys_step ?L A ?key T (T\<lparr>sys_pending := (sys_pending T)(a := Some (?r, ?c))\<rparr>)" if "sys_orders T = [?r]" for T a
    using sys_step.worker_read [of "[1]" T ?r ?L ?key demo_order "demo_wenv 7" demo_order "demo_blob 0" "SetOrderBlob (demo_blob 0)" A a]
      that r seal op by simp
  have commit: "sys_step ?L A ?key T (T\<lparr>sys_api := snd (commit_order ?E 1 ?c (sys_api T)), sys_pending := (sys_pending T)(a := None),
      sys_log := sys_log T @ (if is_ok (fst (commit_order ?E 1 ?c (sys_api T))) then [(?r, ?c)] else [])\<rparr>)"
    if "sys_pending T a = Some (?r, ?c)" for T a
    by (rule sys_step.committed [OF that prod.collapse [symmetric]])
  let ?S1 = "?S\<lparr>sys_pending := [0 \<mapsto> (?r, ?c)]\<rparr>"
  let ?S2 = "?S\<lparr>sys_pending := [0 \<mapsto> (?r, ?c), 1 \<mapsto> (?r, ?c)]\<rparr>"
  let ?r' = "apply_order_write (SetOrderBlob (demo_blob 0)) ?r"
  let ?S3 = "?S\<lparr>sys_api := empty_api\<lparr>db_orders := [?r']\<rparr>, sys_pending := [1 \<mapsto> (?r, ?c)], sys_log := [(?r, ?c)]\<rparr>"
  let ?S4 = "?S3\<lparr>sys_pending := Map.empty\<rparr>"
  have won: "commit_orders ?E 1 ?c [?r] = (Inr (), [?r'])"
    by (simp add: commit_orders_def update_orders_def cas_update_def new_order_row_def)
  have lost: "commit_orders ?E 1 ?c [?r'] = (Inl order_conflict, [?r'])"
    by (simp add: commit_orders_def update_orders_def cas_update_def new_order_row_def apply_order_write_def)
  have "sys_step ?L A ?key ?S ?S1" using read [of ?S 0] by simp
  moreover have "sys_step ?L A ?key ?S1 ?S2" using read [of ?S1 1] by simp
  moreover have "sys_step ?L A ?key ?S2 ?S3" using commit [of ?S2 0] won by (simp add: fun_upd_twist)
  moreover have "sys_step ?L A ?key ?S3 ?S4" using commit [of ?S3 1] lost by simp
  ultimately have run: "sys_run ?L A ?key ?S ?S4" by (meson rtranclp.intros)
  have "orders_wf (sys_orders ?S)" by (simp add: orders_wf_def)
  moreover have "select_order [1] (sys_orders ?S) = Some ?r" using r by simp
  ultimately obtain ws r where "writes_of [1] ?S4 = writes_of [1] ?S @ ws" "select_order [1] (sys_orders ?S4) = Some r"
    "o_version r = o_version ?r + int (length ws)"
    using writes_serialised [OF _ _ run] by fastforce
  moreover have "writes_of [1] ?S = []" "writes_of [1] ?S4 = [(?r, ?c)]" by (simp_all add: writes_of_def)
  ultimately have "select_order [1] (sys_orders ?S4) = Some r \<and> o_version r = 2 \<and> length (writes_of [1] ?S4) = 1"
    using r(2) by simp
  with run show "\<exists>S'. sys_run ?L A ?key ?S S' \<and> sys_pending S' = Map.empty
      \<and> (\<exists>r. select_order [1] (sys_orders S') = Some r \<and> o_version r = 2 \<and> length (writes_of [1] S') = 1)"
    by (intro exI [of _ ?S4]) auto
qed

end
