(* ===== verification/Listings.thy ===== *)
theory Listings
  imports Api "HOL-Library.Multiset" "HOL-Library.List_Lexorder" "HOL-Library.Product_Lexorder"
begin

text \<open>
  \<^verbatim>\<open>src/src/services/listings.rs\<close>: creating, searching, reading and updating listings.  The query
  of \<open>list_listings\<close> is its filters, its order (newest day bucket first, then the larger id), and
  the page cut out by LIMIT and OFFSET.  SQLite compares BLOBs like \<^verbatim>\<open>memcmp\<close>, the lexicographic
  order of \<^typ>\<open>bytes\<close>.
\<close>

section \<open>Requests and responses\<close>

record create_listing_request =
  cl_blob :: string
  cl_search_token :: "string option"
  cl_status :: "string option"
  cl_currency :: "string option"
  cl_time_lock_days :: "nat option"
  cl_nonce :: string

record update_listing_request =
  ul_blob :: string
  ul_search_token :: "string option"
  ul_status :: "string option"
  ul_currency :: "string option"
  ul_nonce :: string

record search_query =
  sq_q :: "string option"
  sq_currency :: "string option"
  sq_status :: "string option"
  sq_limit :: "int option"
  sq_offset :: "int option"

record listing_response =
  lr_id :: string
  lr_blob :: string
  lr_search_token :: "string option"
  lr_status :: string
  lr_currency :: string
  lr_day_bucket :: int
  lr_version :: int

record listings_response =
  lrs_listings :: "listing_response list"
  lrs_total :: int

definition max_listing_blob_bytes :: nat where "max_listing_blob_bytes = 64 * 1024"
definition max_search_token_bytes :: nat where "max_search_token_bytes = 256"
definition max_label_bytes :: nat where "max_label_bytes = 32"

section \<open>Validation and replay caches\<close>

definition validate_label :: "string \<Rightarrow> string \<Rightarrow> string res" where
  "validate_label label field =
     (if label = [] then Inl (BadRequest (field @ '' is empty''))
      else if length label > max_label_bytes then Inl (BadRequest (field @ '' too long''))
      else if \<not> is_ascii label then Inl (BadRequest (field @ '' must be ASCII''))
      else Inr label)"

definition check_listing_blob :: "ext \<Rightarrow> string \<Rightarrow> bytes res" where
  "check_listing_blob L s =
     and_then (ok_or (BadRequest ''Invalid client_encrypted_blob hex'') (hex_decode L s))
       (\<lambda>blob. if blob = [] then Inl (BadRequest ''client_encrypted_blob is empty'')
               else if length blob > max_listing_blob_bytes
               then Inl (BadRequest ''client_encrypted_blob too large'')
               else Inr blob)"

definition check_search_token :: "ext \<Rightarrow> string option \<Rightarrow> bytes option res" where
  "check_search_token L t =
     (case t of
        None \<Rightarrow> Inr None
      | Some s \<Rightarrow>
         and_then (ok_or (BadRequest ''Invalid search_token hex'') (hex_decode L s))
           (\<lambda>b. if length b > max_search_token_bytes then Inl (BadRequest ''search_token too large'')
                else Inr (Some b)))"

definition check_optional_label :: "string option \<Rightarrow> string \<Rightarrow> string option res" where
  "check_optional_label label field =
     (case label of None \<Rightarrow> Inr None | Some s \<Rightarrow> and_then (validate_label s field) (\<lambda>l. Inr (Some l)))"

definition check_create_listing_nonce :: "string \<Rightarrow> api_state \<Rightarrow> bool \<times> api_state" where
  "check_create_listing_nonce nonce st =
     (let (fresh, s) = replay_insert nonce (listing_create_nonces st)
      in (fresh, st\<lparr>listing_create_nonces := s\<rparr>))"

definition check_update_listing_nonce :: "string \<times> string \<Rightarrow> api_state \<Rightarrow> bool \<times> api_state" where
  "check_update_listing_nonce k st =
     (let (fresh, s) = replay_insert (colon_key (fst k) (snd k)) (listing_update_nonces st)
      in (fresh, st\<lparr>listing_update_nonces := s\<rparr>))"

interpretation create_listing_cache:
    replay_cache check_create_listing_nonce "\<lambda>n. n" listing_create_nonces
  by unfold_locales (simp_all add: check_create_listing_nonce_def replay_insert_def)

interpretation update_listing_cache:
    replay_cache check_update_listing_nonce "\<lambda>k. colon_key (fst k) (snd k)" listing_update_nonces
  by unfold_locales (simp_all add: check_update_listing_nonce_def replay_insert_def)

section \<open>Handlers\<close>

definition new_listing_row :: "bytes \<Rightarrow> bytes \<Rightarrow> int \<Rightarrow> bytes option \<Rightarrow> string \<Rightarrow> string \<Rightarrow> listing" where
  "new_listing_row i b day token st cur =
     \<lparr>l_id = i, encrypted_listing_blob = b, l_day_bucket = day, search_token = token,
      l_status = st, l_currency = cur, l_version = 1\<rparr>"

definition create_listing ::
    "ext \<Rightarrow> env \<Rightarrow> create_listing_request \<Rightarrow> api_state \<Rightarrow> listing_response res \<times> api_state" where
  "create_listing L E req st =
     then_do (check_listing_blob L (cl_blob req), st) (\<lambda>blob st.
     then_do (check_search_token L (cl_search_token req), st) (\<lambda>token st.
     then_do (validate_label (case cl_status req of Some s \<Rightarrow> s | None \<Rightarrow> ''active'') ''status'', st) (\<lambda>status st.
     then_do (validate_label (case cl_currency req of Some c \<Rightarrow> c | None \<Rightarrow> ''XMR'') ''currency'', st) (\<lambda>cur st.
       (case check_create_listing_nonce (cl_nonce req) st of
          (False, st) \<Rightarrow> (Inl (Conflict ''Create-listing nonce already used''), st)
        | (True, st) \<Rightarrow>
           (let now = floor_timestamp_6h (unix_time E);
                lid = random_id E
            in case db_fault E 0 of
                 Some e \<Rightarrow> (Inl (db_error e), st)
               | None \<Rightarrow>
                  (case insert_listing (new_listing_row lid blob now token status cur) (db_listings st) of
                     None \<Rightarrow> (Inl (db_error (unique_violation L)), st)
                   | Some rows \<Rightarrow>
                      (Inr \<lparr>lr_id = hex_encode L lid, lr_blob = cl_blob req,
                            lr_search_token = cl_search_token req, lr_status = status,
                            lr_currency = cur, lr_day_bucket = now, lr_version = 1\<rparr>,
                       st\<lparr>db_listings := rows\<rparr>))))))))"

definition row_response :: "ext \<Rightarrow> listing \<Rightarrow> listing_response" where
  "row_response L r =
     \<lparr>lr_id = hex_encode L (l_id r), lr_blob = hex_encode L (encrypted_listing_blob r),
      lr_search_token = map_option (hex_encode L) (search_token r), lr_status = l_status r,
      lr_currency = l_currency r, lr_day_bucket = l_day_bucket r, lr_version = l_version r\<rparr>"

definition clamp :: "int \<Rightarrow> int \<Rightarrow> int \<Rightarrow> int" where
  "clamp lo hi x = (if x < lo then lo else if x > hi then hi else x)"

definition non_empty :: "string option \<Rightarrow> string option" where
  "non_empty s = (case s of Some (c # cs) \<Rightarrow> Some (c # cs) | _ \<Rightarrow> None)"

text \<open>An optional \<^verbatim>\<open>AND column = ?\<close>; \<^verbatim>\<open>NULL\<close> equals nothing.\<close>

definition filter_eq :: "'a option \<Rightarrow> 'a option \<Rightarrow> bool" where
  "filter_eq want column = (case want of None \<Rightarrow> True | Some x \<Rightarrow> column = Some x)"

definition listing_matches ::
    "string option \<Rightarrow> string option \<Rightarrow> bytes option \<Rightarrow> listing \<Rightarrow> bool" where
  "listing_matches want cur token r \<longleftrightarrow>
     filter_eq want (Some (l_status r)) \<and> filter_eq cur (Some (l_currency r))
     \<and> filter_eq token (search_token r)"

definition listing_order :: "listings \<Rightarrow> listings" where
  "listing_order rows = rev (sort_key (\<lambda>r. (l_day_bucket r, l_id r)) rows)"

definition select_page ::
    "string option \<Rightarrow> string option \<Rightarrow> bytes option \<Rightarrow> int \<Rightarrow> int \<Rightarrow> listings \<Rightarrow> listings" where
  "select_page want cur token limit offset rows =
     take (nat limit) (drop (nat offset)
       (listing_order (filter (listing_matches want cur token) rows)))"

definition list_listings :: "ext \<Rightarrow> env \<Rightarrow> search_query \<Rightarrow> api_state \<Rightarrow> listings_response res" where
  "list_listings L E query st =
     (let limit = clamp 1 100 (case sq_limit query of Some l \<Rightarrow> l | None \<Rightarrow> 50);
          offset = max 0 (case sq_offset query of Some x \<Rightarrow> x | None \<Rightarrow> 0);
          filter_status = non_empty (sq_status query);
          filter_currency = non_empty (sq_currency query)
      in and_then
           (case non_empty (sq_q query) of
              None \<Rightarrow> Inr None
            | Some h \<Rightarrow> and_then (ok_or (BadRequest ''Invalid q hex'') (hex_decode L h)) (\<lambda>b. Inr (Some b)))
           (\<lambda>token.
             (case db_fault E 0 of
                Some e \<Rightarrow> Inl (db_error e)
              | None \<Rightarrow>
                 (let rows = select_page filter_status filter_currency token limit offset (db_listings st)
                  in Inr \<lparr>lrs_listings = map (row_response L) rows, lrs_total = int (length rows)\<rparr>))))"

definition get_listing :: "ext \<Rightarrow> env \<Rightarrow> string \<Rightarrow> api_state \<Rightarrow> listing_response res" where
  "get_listing L E i st =
     and_then (ok_or (BadRequest ''Invalid id'') (hex_decode L i)) (\<lambda>id_bytes.
     and_then (fetch_listing E 0 id_bytes st) (\<lambda>row.
     and_then (ok_or (NotFound ''Listing not found'') row) (\<lambda>r.
       Inr ((row_response L r)\<lparr>lr_id := i\<rparr>))))"

definition update_listing_read ::
    "ext \<Rightarrow> env \<Rightarrow> string \<Rightarrow> update_listing_request \<Rightarrow> api_state
       \<Rightarrow> (listing_cas \<times> listing_response) res \<times> api_state" where
  "update_listing_read L E i req st =
     then_do (ok_or (BadRequest ''Invalid id'') (hex_decode L i), st) (\<lambda>id_bytes st.
     then_do (check_listing_blob L (ul_blob req), st) (\<lambda>blob st.
     then_do (check_search_token L (ul_search_token req), st) (\<lambda>token st.
     then_do (check_optional_label (ul_status req) ''status'', st) (\<lambda>status st.
     then_do (check_optional_label (ul_currency req) ''currency'', st) (\<lambda>cur st.
       (case check_update_listing_nonce (i, ul_nonce req) st of
          (False, st) \<Rightarrow> (Inl (Conflict ''Update-listing nonce already used''), st)
        | (True, st) \<Rightarrow>
           (and_then (fetch_listing E 0 id_bytes st) (\<lambda>current.
            and_then (ok_or (NotFound ''Listing not found'') current) (\<lambda>r.
              (let final_status = (case status of Some s \<Rightarrow> s | None \<Rightarrow> l_status r);
                   final_currency = (case cur of Some c \<Rightarrow> c | None \<Rightarrow> l_currency r);
                   now = floor_timestamp_6h (unix_time E)
               in Inr (\<lparr>lcas_id = id_bytes, lcas_version = l_version r,
                        lcas_write = SetListing blob token final_status final_currency\<rparr>,
                       \<lparr>lr_id = i, lr_blob = ul_blob req, lr_search_token = ul_search_token req,
                        lr_status = final_status, lr_currency = final_currency, lr_day_bucket = now,
                        lr_version = wrap_i64 (l_version r + 1)\<rparr>)))), st)))))))"

definition update_listing ::
    "ext \<Rightarrow> env \<Rightarrow> string \<Rightarrow> update_listing_request \<Rightarrow> api_state
       \<Rightarrow> listing_response res \<times> api_state" where
  "update_listing L E i req st =
     then_do (update_listing_read L E i req st)
       (\<lambda>(c, resp) st. then_do (commit_listing E 1 c st) (\<lambda>_ st. (Inr resp, st)))"

section \<open>The contract of the two writers\<close>

lemma check_create_listing_nonce_frame [simp]:
  "db_listings (snd (check_create_listing_nonce n st)) = db_listings st"
  by (simp add: check_create_listing_nonce_def replay_insert_def)

lemma create_listing_step:
  "(case check_create_listing_nonce n st of (False, s) \<Rightarrow> g s | (True, s) \<Rightarrow> f s) =
     (let s = st\<lparr>listing_create_nonces := insert n (listing_create_nonces st)\<rparr>
      in if n \<in> listing_create_nonces st then g s else f s)"
  by (cases "n \<in> listing_create_nonces st") (simp_all add: check_create_listing_nonce_def replay_insert_def)

definition listing_grows :: "listings \<Rightarrow> ('r res \<times> api_state) \<Rightarrow> bool" where
  "listing_grows rows p \<longleftrightarrow>
     (case fst p of Inl _ \<Rightarrow> db_listings (snd p) = rows
      | Inr _ \<Rightarrow> \<exists>r. insert_listing r rows = Some (db_listings (snd p)))"

lemma listing_grows_then:
  assumes "\<And>x. db_listings st = rows \<Longrightarrow> listing_grows rows (f x st)" "db_listings st = rows"
  shows "listing_grows rows (then_do (r, st) f)"
  using assms by (cases r) (auto simp: listing_grows_def)

lemma create_listing_grows: "listing_grows (db_listings st) (create_listing L E req st)"
  unfolding create_listing_def
  by (intro listing_grows_then refl)
     (auto simp: create_listing_step listing_grows_def Let_def split: option.split)

interpretation create_listing_svc: table_service "\<lambda>(E, req). create_listing L E req" db_listings l_id l_version
proof unfold_locales
  fix s :: api_state and i :: "env \<times> create_listing_request"
  obtain E req where i: "i = (E, req)" by (cases i)
  have "(\<exists>e. fst (create_listing L E req s) = Inl e) \<and> db_listings (snd (create_listing L E req s)) = db_listings s
      \<or> (\<exists>r. insert_listing r (db_listings s) = Some (db_listings (snd (create_listing L E req s))))
        \<and> is_ok (fst (create_listing L E req s))"
    using create_listing_grows [of s L E req] by (auto simp: listing_grows_def split: sum.splits)
  then show "distinct (map l_id (db_listings s)) \<Longrightarrow>
      distinct (map l_id (db_listings (snd ((\<lambda>(E, req). create_listing L E req) i s))))"
    and "listings_evolve (db_listings s) (db_listings (snd ((\<lambda>(E, req). create_listing L E req) i s)))"
    and "\<not> is_ok (fst ((\<lambda>(E, req). create_listing L E req) i s)) \<Longrightarrow>
      db_listings (snd ((\<lambda>(E, req). create_listing L E req) i s)) = db_listings s"
    using listings_wf_insert [unfolded listings_wf_def] listings_evolve_insert by (auto simp: i)
qed

lemma update_listing_read_listings [simp]:
  "db_listings (snd (update_listing_read L E i req st)) = db_listings st"
  unfolding update_listing_read_def
  by (intro listings_frame) (auto simp: check_update_listing_nonce_def replay_insert_def split: bool.split)

lemma update_listing_listings:
  "db_listings (snd (update_listing L E i req st)) =
     (case fst (update_listing_read L E i req st) of
        Inl e \<Rightarrow> db_listings st
      | Inr (c, resp) \<Rightarrow> db_listings (snd (commit_listing E 1 c (snd (update_listing_read L E i req st)))))"
  by (auto simp: update_listing_def then_do_def split: sum.splits prod.splits)

interpretation update_listing_svc: table_service "\<lambda>(E, i, req). update_listing L E i req" db_listings l_id l_version
proof unfold_locales
  fix s :: api_state and x :: "env \<times> string \<times> update_listing_request"
  obtain E i req where x: "x = (E, i, req)" by (cases x)
  let ?p = "update_listing_read L E i req s"
  have p: "db_listings (snd ?p) = db_listings s" by simp
  show "distinct (map l_id (db_listings s)) \<Longrightarrow>
      distinct (map l_id (db_listings (snd ((\<lambda>(E, i, req). update_listing L E i req) x s))))"
    using commit_listing_contract(1) [of "snd ?p" E 1] p
    by (auto simp: x update_listing_listings listings_wf_def split: sum.splits)
  show "listings_evolve (db_listings s) (db_listings (snd ((\<lambda>(E, i, req). update_listing L E i req) x s)))"
    using commit_listing_contract(2) [of "snd ?p" E 1] p
    by (auto simp: x update_listing_listings split: sum.splits)
  show "db_listings (snd ((\<lambda>(E, i, req). update_listing L E i req) x s)) = db_listings s"
    if "\<not> is_ok (fst ((\<lambda>(E, i, req). update_listing L E i req) x s))"
  proof (cases "fst ?p")
    case (Inr cr)
    obtain c resp where cr: "cr = (c, resp)" by (cases cr)
    have "\<not> is_ok (fst (commit_listing E 1 c (snd ?p)))"
    proof
      assume "is_ok (fst (commit_listing E 1 c (snd ?p)))"
      then have "is_ok (fst (update_listing L E i req s))"
        using Inr cr by (auto simp: update_listing_def then_do_def is_ok_iff)
      with that show False by (simp add: x)
    qed
    with Inr cr p show ?thesis by (simp add: x update_listing_listings commit_listing_contract(3))
  qed (simp add: x update_listing_listings)
qed

section \<open>Search pages\<close>

lemma set_listing_order [simp]: "set (listing_order rows) = set rows"
  by (simp add: listing_order_def)

lemma mset_listing_order: "mset (listing_order rows) = mset rows"
  by (simp add: listing_order_def)

definition newer_first :: "listing \<Rightarrow> listing \<Rightarrow> bool" where
  "newer_first a b \<longleftrightarrow>
     l_day_bucket b < l_day_bucket a \<or> l_day_bucket a = l_day_bucket b \<and> l_id b \<le> l_id a"

lemma sorted_listing_order: "sorted_wrt newer_first (listing_order rows)"
proof -
  have "sorted_wrt (\<lambda>a b. (l_day_bucket a, l_id a) \<le> (l_day_bucket b, l_id b))
      (sort_key (\<lambda>r. (l_day_bucket r, l_id r)) rows)"
    using sorted_sort_key [of "\<lambda>r. (l_day_bucket r, l_id r)" rows] by (simp only: sorted_map)
  then show ?thesis
    unfolding listing_order_def sorted_wrt_rev
    by (rule sorted_wrt_mono_rel [rotated]) (auto simp: newer_first_def less_eq_prod_def)
qed

lemma pages_concat:
  "concat (map (\<lambda>k. take n (drop (k * n) xs)) [0..<m]) = take (m * n) xs"
proof (induction m)
  case (Suc m)
  have "take (m * n) xs @ take n (drop (m * n) xs) = take (m * n + n) xs"
    by (simp add: take_add)
  with Suc show ?case by (simp add: add.commute)
qed simp

lemma sorted_wrt_take_drop: "sorted_wrt P xs \<Longrightarrow> sorted_wrt P (take n (drop m xs))"
  by (simp add: sorted_wrt_take sorted_wrt_drop)

section \<open>What an update does\<close>

lemma update_listing_read_Inr:
  assumes "update_listing_read L E i req st = (Inr (c, resp), st1)"
  obtains lid blob token r where "hex_decode L i = Some lid" "check_listing_blob L (ul_blob req) = Inr blob"
    "check_search_token L (ul_search_token req) = Inr token"
    "check_optional_label (ul_status req) ''status'' = Inr (ul_status req)"
    "check_optional_label (ul_currency req) ''currency'' = Inr (ul_currency req)"
    "select_listing lid (db_listings st) = Some r"
    "c = \<lparr>lcas_id = lid, lcas_version = l_version r,
          lcas_write = SetListing blob token
            (case ul_status req of Some s \<Rightarrow> s | None \<Rightarrow> l_status r)
            (case ul_currency req of Some s \<Rightarrow> s | None \<Rightarrow> l_currency r)\<rparr>"
    "lr_version resp = wrap_i64 (l_version r + 1)"
    "lr_day_bucket resp = floor_timestamp_6h (unix_time E)"
    "colon_key i (ul_nonce req) \<notin> listing_update_nonces st"
proof -
  have lab: "o' = label" if "check_optional_label label f = Inr o'" for label f o'
    using that by (auto simp: check_optional_label_def validate_label_def split: option.splits if_splits)
  obtain lid blob token status cur where chk: "hex_decode L i = Some lid"
      "check_listing_blob L (ul_blob req) = Inr blob"
      "check_search_token L (ul_search_token req) = Inr token"
      "check_optional_label (ul_status req) ''status'' = Inr status"
      "check_optional_label (ul_currency req) ''currency'' = Inr cur"
    using assms by (auto simp: update_listing_read_def then_do_Inr simp del: ok_or_Inr) (auto)
  note eq = assms [unfolded update_listing_read_def chk then_do_simps ok_or_simps]
  have fresh: "colon_key i (ul_nonce req) \<notin> listing_update_nonces st"
    using eq by (auto simp: check_update_listing_nonce_def replay_insert_def split: bool.splits)
  with eq obtain r where "select_listing lid (db_listings st) = Some r"
    "c = \<lparr>lcas_id = lid, lcas_version = l_version r,
          lcas_write = SetListing blob token (case status of Some s \<Rightarrow> s | None \<Rightarrow> l_status r)
            (case cur of Some s \<Rightarrow> s | None \<Rightarrow> l_currency r)\<rparr>"
    "lr_version resp = wrap_i64 (l_version r + 1)"
    "lr_day_bucket resp = floor_timestamp_6h (unix_time E)"
    by (auto simp: check_update_listing_nonce_def replay_insert_def Let_def)
  with that [OF chk(1,2,3)] lab [OF chk(4)] lab [OF chk(5)] chk(4,5) fresh show thesis by simp
qed

section \<open>Properties\<close>

text \<open>
  A listing search returns the requested page of the matching rows: between 1 and 100 rows at
  most however large the limit asked for, every one matching the status, currency and token
  filters, newest bucket first with ties by descending id, and \<open>total\<close> is the page's own length.
\<close>

theorem list_listings_page:
  assumes "list_listings L E query st = Inr resp"
  shows "\<exists>rows token. lrs_listings resp = map (row_response L) rows
    \<and> lrs_total resp = int (length rows)
    \<and> length rows \<le> nat (clamp 1 100 (case sq_limit query of Some l \<Rightarrow> l | None \<Rightarrow> 50))
    \<and> length rows \<le> 100
    \<and> (case non_empty (sq_q query) of None \<Rightarrow> token = None
       | Some h \<Rightarrow> token \<noteq> None \<and> hex_decode L h = token)
    \<and> (\<forall>r\<in>set rows. r \<in> set (db_listings st)
         \<and> listing_matches (non_empty (sq_status query)) (non_empty (sq_currency query)) token r)
    \<and> sorted_wrt newer_first rows"
proof -
  let ?lim = "clamp 1 100 (case sq_limit query of Some l \<Rightarrow> l | None \<Rightarrow> 50)"
  let ?off = "max 0 (case sq_offset query of Some x \<Rightarrow> x | None \<Rightarrow> 0)"
  obtain token where tok: "(case non_empty (sq_q query) of None \<Rightarrow> token = None
       | Some h \<Rightarrow> token \<noteq> None \<and> hex_decode L h = token)"
    and resp: "resp = (let rows = select_page (non_empty (sq_status query)) (non_empty (sq_currency query)) token
          ?lim ?off (db_listings st)
        in \<lparr>lrs_listings = map (row_response L) rows, lrs_total = int (length rows)\<rparr>)"
    using assms by (auto simp: list_listings_def Let_def split: option.splits)
  let ?rows = "select_page (non_empty (sq_status query)) (non_empty (sq_currency query)) token ?lim ?off (db_listings st)"
  have "\<forall>r\<in>set ?rows. r \<in> set (db_listings st)
      \<and> listing_matches (non_empty (sq_status query)) (non_empty (sq_currency query)) token r"
    by (auto simp: select_page_def dest!: in_set_takeD in_set_dropD)
  moreover have "sorted_wrt newer_first ?rows"
    unfolding select_page_def by (intro sorted_wrt_take_drop sorted_listing_order)
  moreover have "length ?rows \<le> nat ?lim" "nat ?lim \<le> 100"
    by (simp add: select_page_def) (simp add: clamp_def, linarith?)
  ultimately show ?thesis
    using tok by (intro exI [of _ ?rows] exI [of _ token]) (simp add: resp Let_def)
qed

lemma list_listings_page_witness:
  "\<exists>resp. list_listings demo_ext \<lparr>unix_time = 0, random_id = [], db_fault = (\<lambda>_. None)\<rparr>
      \<lparr>sq_q = None, sq_currency = None, sq_status = Some ''active'', sq_limit = Some 1000, sq_offset = None\<rparr>
      (empty_api\<lparr>db_listings := [new_listing_row [1] [2] 0 None ''active'' ''XMR'',
                              new_listing_row [3] [4] 21600 None ''active'' ''BTC'']\<rparr>) = Inr resp
    \<and> length (lrs_listings resp) \<le> 100 \<and> lrs_total resp \<le> 100"
proof -
  let ?q = "\<lparr>sq_q = None, sq_currency = None, sq_status = Some ''active'', sq_limit = Some 1000, sq_offset = None\<rparr>"
  let ?st = "empty_api\<lparr>db_listings := [new_listing_row [1] [2] 0 None ''active'' ''XMR'',
                              new_listing_row [3] [4] 21600 None ''active'' ''BTC'']\<rparr>"
  let ?E = "\<lparr>unix_time = 0, random_id = [], db_fault = (\<lambda>_. None)\<rparr>"
  obtain resp where r: "list_listings demo_ext ?E ?q ?st = Inr resp"
    by (simp add: list_listings_def non_empty_def Let_def)
  with list_listings_page [OF r] show ?thesis by auto
qed



text \<open>
  C23. A successful listing update writes the decoded blob and the token (no token clears it) to
  exactly the addressed row, keeps the status and currency labels that were not sent, increments
  the version, and leaves every other row alone.  The day bucket of its response is that of the
  clock, not the one stored in the row.
\<close>

theorem update_listing_effect:
  assumes "listings_wf (db_listings st)" "update_listing L E i req st = (Inr resp, st')"
  shows "\<exists>lid blob token r. hex_decode L i = Some lid \<and> hex_decode L (ul_blob req) = Some blob
    \<and> 0 < length blob \<and> length blob \<le> 65536
    \<and> check_search_token L (ul_search_token req) = Inr token
    \<and> select_listing lid (db_listings st) = Some r
    \<and> select_listing lid (db_listings st') =
        Some (r\<lparr>encrypted_listing_blob := blob, search_token := token,
                l_status := (case ul_status req of Some s \<Rightarrow> s | None \<Rightarrow> l_status r),
                l_currency := (case ul_currency req of Some s \<Rightarrow> s | None \<Rightarrow> l_currency r),
                l_version := l_version r + 1\<rparr>)
    \<and> (\<forall>j. j \<noteq> lid \<longrightarrow> select_listing j (db_listings st') = select_listing j (db_listings st))
    \<and> lr_day_bucket resp = floor_timestamp_6h (unix_time E)"
proof -
  obtain c st1 where read: "update_listing_read L E i req st = (Inr (c, resp), st1)"
    and st': "st' = snd (commit_listing E 1 c st1)" and ok: "is_ok (fst (commit_listing E 1 c st1))"
    using assms(2) by (auto simp: update_listing_def then_do_Inr)
  have rows: "db_listings st1 = db_listings st"
    using update_listing_read_listings [of L E i req st] by (simp add: read)
  have nf: "db_fault E (Suc 0) = None"
    using ok assms(1) rows by (simp add: commit_listing_ok)
  from read obtain lid blob token r where r: "hex_decode L i = Some lid"
      "check_listing_blob L (ul_blob req) = Inr blob" "check_search_token L (ul_search_token req) = Inr token"
      "select_listing lid (db_listings st) = Some r"
      "c = \<lparr>lcas_id = lid, lcas_version = l_version r,
          lcas_write = SetListing blob token
            (case ul_status req of Some s \<Rightarrow> s | None \<Rightarrow> l_status r)
            (case ul_currency req of Some s \<Rightarrow> s | None \<Rightarrow> l_currency r)\<rparr>"
      "lr_day_bucket resp = floor_timestamp_6h (unix_time E)"
    by (rule update_listing_read_Inr)
  have blob: "hex_decode L (ul_blob req) = Some blob" "0 < length blob" "length blob \<le> 65536"
    using r(2) by (cases "hex_decode L (ul_blob req)";
        auto simp: check_listing_blob_def max_listing_blob_bytes_def split: if_splits)+
  have "l_id r = lid" using select_by_Some [OF r(4)] by simp
  then have "select_listing lid (db_listings st') = Some (apply_listing_write (lcas_write c) r)"
    using r(4,5) rows by (simp add: st' commit_listing_select [OF nf])
  moreover have "select_listing j (db_listings st') = select_listing j (db_listings st)" if "j \<noteq> lid" for j
    using that r(5) rows by (cases "select_listing j (db_listings st)")
      (auto simp: st' commit_listing_select [OF nf] dest: select_by_Some)
  ultimately show ?thesis
    using r blob by (intro exI [of _ lid] exI [of _ blob] exI [of _ token] exI [of _ r])
      (simp add: apply_listing_write_def)
qed

definition sample_listing :: listing where
  "sample_listing = new_listing_row [1] [2] 0 (Some [9]) ''active'' ''XMR''"

definition sample_listing_update :: update_listing_request where
  "sample_listing_update =
     \<lparr>ul_blob = ''0a'', ul_search_token = None, ul_status = Some ''sold'', ul_currency = None, ul_nonce = ''n''\<rparr>"

lemma update_listing_effect_witness:
  "\<exists>st' resp. update_listing demo_ext \<lparr>unix_time = 50000, random_id = [], db_fault = (\<lambda>_. None)\<rparr> ''01''
      sample_listing_update (empty_api\<lparr>db_listings := [sample_listing]\<rparr>) = (Inr resp, st')
    \<and> select_listing [1] (db_listings st') =
        Some (sample_listing\<lparr>encrypted_listing_blob := [10], search_token := None, l_status := ''sold'', l_version := 2\<rparr>)"
proof -
  let ?E = "\<lparr>unix_time = 50000, random_id = [], db_fault = (\<lambda>_. None)\<rparr>"
  let ?st = "empty_api\<lparr>db_listings := [sample_listing]\<rparr>"
  have "is_ok (fst (update_listing demo_ext ?E ''01'' sample_listing_update ?st))"
    by (simp add: update_listing_def update_listing_read_def check_listing_blob_def check_search_token_def
        check_optional_label_def validate_label_def check_update_listing_nonce_def replay_insert_def
        sample_listing_update_def demo_ext_def nibble_val_def max_listing_blob_bytes_def max_label_bytes_def
        is_ascii_def empty_api_def fetch_listing_def select_by_def sample_listing_def new_listing_row_def
        commit_listing_def update_listings_def cas_update_def Let_def)
  then obtain resp st' where run: "update_listing demo_ext ?E ''01'' sample_listing_update ?st = (Inr resp, st')"
    by (auto simp: is_ok_iff prod_eq_iff)
  have "listings_wf (db_listings ?st)" by (simp add: listings_wf_def)
  from update_listing_effect [OF this run] have "select_listing [1] (db_listings st') =
      Some (sample_listing\<lparr>encrypted_listing_blob := [10], search_token := None, l_status := ''sold'', l_version := 2\<rparr>)"
    by (auto simp: demo_ext_def nibble_val_def sample_listing_update_def check_search_token_def select_by_def
        sample_listing_def new_listing_row_def)
  with run show ?thesis by blast
qed

end
