(* ===== verification/Admin.thy ===== *)
theory Admin
  imports Disputes
begin

text \<open>
  \<^verbatim>\<open>src/src/services/admin.rs\<close>: signing blinded messages, the administrator's public key and the
  rotation of the key-encryption key.  The new key's random bytes and the outcome of writing the
  file are arguments.
\<close>

section \<open>Requests and responses\<close>

record rotate_kek_request =
  rk_session_nonce :: string
  rk_token :: admin_token

record rotate_kek_response =
  rk_success :: bool
  rk_message :: string
  rk_rotated :: bool

section \<open>Handlers\<close>

definition blind_sign :: "ext \<Rightarrow> app \<Rightarrow> string \<Rightarrow> string res" where
  "blind_sign L A blinded_blob =
     and_then (ok_or (Internal ''Admin keypair not configured'') (app_admin_keypair A)) (\<lambda>kp.
     and_then (ok_or (BadRequest (''Invalid hex: '' @ hex_error L blinded_blob)) (hex_decode L blinded_blob)) (\<lambda>blinded.
     if blinded = [] \<or> length blinded > 512 then Inl (BadRequest ''Blinded message must be 1-512 bytes'')
     else Inr (hex_encode L (sign_blinded L blinded (kp_private kp)))))"

definition pubkey_hex :: "ext \<Rightarrow> admin_keypair \<Rightarrow> string + string" where
  "pubkey_hex L kp =
     and_then (map_err (\<lambda>e. ''public key DER encoding: '' @ e)
                 (rsa_public_der L (pk_n (kp_public kp)) (pk_e (kp_public kp))))
       (\<lambda>der. Inr (hex_encode L der))"

definition get_admin_pubkey :: "ext \<Rightarrow> app \<Rightarrow> string res" where
  "get_admin_pubkey L A =
     and_then (ok_or (Internal ''Admin keypair not configured'') (app_admin_keypair A)) (\<lambda>kp.
       map_err (\<lambda>e. Internal (''Failed to serialize pubkey: '' @ e)) (pubkey_hex L kp))"

definition rotate_kek ::
    "ext \<Rightarrow> app \<Rightarrow> env \<Rightarrow> bytes \<Rightarrow> bool \<Rightarrow> rotate_kek_request \<Rightarrow> api_state \<Rightarrow> rotate_kek_response res \<times> api_state" where
  "rotate_kek L A E new_kek write_ok req st =
     then_do (ok_or (Internal ''Admin keypair not configured'') (app_admin_keypair A), st) (\<lambda>kp st.
     then_do (check_admin_token L E kp ''admin:rotate_kek'' ''rotate'' (rk_token req), st) (\<lambda>_ st.
       if \<not> write_ok then (Inl (Internal ''Failed to persist KEK rotation''), st)
       else (Inr \<lparr>rk_success = True,
                  rk_message = ''KEK rotated successfully. Key written to dedicated file.'',
                  rk_rotated = True\<rparr>,
             st\<lparr>kek_file := Some (hex_encode L new_kek)\<rparr>)))"

section \<open>Facts\<close>

lemma rotate_kek_ok_iff:
  "is_ok (fst (rotate_kek L A E new_kek write_ok req st)) \<longleftrightarrow>
     write_ok \<and> (\<exists>kp n. app_admin_keypair A = Some kp
        \<and> token_accepted L E kp ''admin:rotate_kek'' ''rotate'' (rk_token req) n)"
proof (cases "app_admin_keypair A")
  case (Some kp)
  show ?thesis
  proof (cases "check_admin_token L E kp ''admin:rotate_kek'' ''rotate'' (rk_token req)")
    case (Inl e)
    then have "\<not> token_accepted L E kp ''admin:rotate_kek'' ''rotate'' (rk_token req) n" for n
      by (simp flip: check_admin_token_Inr)
    with Some Inl show ?thesis by (simp add: rotate_kek_def)
  next
    case (Inr n)
    then have "token_accepted L E kp ''admin:rotate_kek'' ''rotate'' (rk_token req) n"
      by (simp flip: check_admin_token_Inr)
    with Some Inr show ?thesis by (auto simp: rotate_kek_def)
  qed
qed (simp add: rotate_kek_def)

lemma rotate_kek_state:
  "snd (rotate_kek L A E new_kek write_ok req st) =
     (if is_ok (fst (rotate_kek L A E new_kek write_ok req st))
      then st\<lparr>kek_file := Some (hex_encode L new_kek)\<rparr> else st)"
  by (auto simp: rotate_kek_def then_do_def split: sum.splits)

section \<open>Properties\<close>

text \<open>
  The key-encryption key is rotated exactly when the token for this action is accepted and the
  file can be written; and the token is not consumed: in any state, within its hour, the same
  request rotates the key again, replacing the stored key.
\<close>

theorem rotate_kek_replayable:
  assumes "is_ok (fst (rotate_kek L A E new_kek True req st))"
  shows "(\<exists>kp n. app_admin_keypair A = Some kp
       \<and> token_accepted L E kp ''admin:rotate_kek'' ''rotate'' (rk_token req) n)
    \<and> kek_file (snd (rotate_kek L A E new_kek True req st)) = Some (hex_encode L new_kek)
    \<and> is_ok (fst (rotate_kek L A E new_kek2 True req (snd (rotate_kek L A E new_kek True req st))))
    \<and> kek_file (snd (rotate_kek L A E new_kek2 True req (snd (rotate_kek L A E new_kek True req st)))) =
        Some (hex_encode L new_kek2)"
proof -
  from assms have tok: "\<exists>kp n. app_admin_keypair A = Some kp
       \<and> token_accepted L E kp ''admin:rotate_kek'' ''rotate'' (rk_token req) n"
    by (simp add: rotate_kek_ok_iff)
  then have "is_ok (fst (rotate_kek L A E k True req s))" for k s
    by (simp add: rotate_kek_ok_iff)
  with tok show ?thesis by (simp add: rotate_kek_state)
qed

lemma rotate_kek_replayable_witness:
  "is_ok (fst (rotate_kek demo_ext sample_app noon_env [2] True
     \<lparr>rk_session_nonce = [], rk_token = sample_token ''admin:rotate_kek'' ''rotate'' ''0a''\<rparr>
     (snd (rotate_kek demo_ext sample_app noon_env [1] True
       \<lparr>rk_session_nonce = [], rk_token = sample_token ''admin:rotate_kek'' ''rotate'' ''0a''\<rparr> empty_api))))"
proof -
  let ?req = "\<lparr>rk_session_nonce = [], rk_token = sample_token ''admin:rotate_kek'' ''rotate'' ''0a''\<rparr>"
  have "token_accepted demo_ext noon_env sample_kp ''admin:rotate_kek'' ''rotate'' (rk_token ?req) ''0a''"
    using sample_token_accepted [of "''0a''" 10 "''admin:rotate_kek''" "''rotate''"]
    by (simp add: nibble_val_def)
  then have "is_ok (fst (rotate_kek demo_ext sample_app noon_env [1] True ?req empty_api))"
    by (auto simp: rotate_kek_ok_iff sample_app_def)
  from rotate_kek_replayable [OF this, of "[2]"] show ?thesis by simp
qed

text \<open>
  C25. Any caller can mint an administrator's token: \<open>blind_sign\<close> asks for no credential of the
  administrator, so whoever sends it the blinding of the message for a dispute (any dispute, nonce
  and hour of their choice) unblinds the answer into a token with which \<open>resolve_dispute\<close>
  accepts their outcome.
\<close>

theorem anyone_mints_admin_token:
  assumes "hex_ok L" "be_ok L" "egcd_ok L" "rsa_pair (kp_private kp)"
    and "kp_public kp = rsa_public_from (kp_private kp)" "app_admin_keypair A = Some kp"
    and "\<And>m. length (sha256 L m) = 32"
    and "msg = compose_token_message L ''dispute:resolve'' i nonce (i64_as_u64 expiry)"
    and "from_bytes_be L msg < sk_n (kp_private kp)"
    and "blind_message L random msg (kp_public kp) = Some (blinded, factor)"
    and "coprime (from_bytes_be L factor) (sk_n (kp_private kp))" "0 < length blinded" "length blinded \<le> 512"
    and "token_hour_ok expiry (unix_secs E)"
    and "orders_wf (db_orders st)" "no_faults E" "hex_decode L i = Some oid"
    and "check_outcome_blob L outcome = Inr blob" "select_order oid (db_orders st) = Some r"
    and "colon_key i (hex_encode L nonce) \<notin> admin_token_nonces st"
  shows "\<exists>answer sig. blind_sign L A (hex_encode L blinded) = Inr (hex_encode L answer)
    \<and> unblind_signature L answer factor (kp_public kp) = Some sig
    \<and> is_ok (fst (resolve_dispute L A E i
        \<lparr>outcome_blob = outcome, admin_signature = [], rd_nonce = [],
         rd_token = \<lparr>token_signature = Some (hex_encode L sig), token_message = Some (hex_encode L msg),
           token_nonce = Some (hex_encode L nonce), token_expiry_hour = Some expiry\<rparr>\<rparr> st))"
proof -
  obtain sig where sig: "unblind_signature L (sign_blinded L blinded (kp_private kp)) factor (kp_public kp) = Some sig"
    "verify_token L msg sig (kp_public kp)"
    using blind_roundtrip [OF assms(2-4,9) assms(10) [unfolded assms(5)] assms(11)] unfolding assms(5) by blast
  have sign: "blind_sign L A (hex_encode L blinded) = Inr (hex_encode L (sign_blinded L blinded (kp_private kp)))"
    using assms(1,6,12,13) by (simp add: blind_sign_def)
  have "length msg = 32" using assms(7) by (simp add: assms(8) compose_token_message_def)
  then have "token_accepted L E kp ''dispute:resolve'' i \<lparr>token_signature = Some (hex_encode L sig),
      token_message = Some (hex_encode L msg), token_nonce = Some (hex_encode L nonce),
      token_expiry_hour = Some expiry\<rparr> (hex_encode L nonce)"
    using assms(1,14) sig(2) by (simp add: token_accepted_def assms(8))
  then have "is_ok (fst (resolve_dispute L A E i
        \<lparr>outcome_blob = outcome, admin_signature = [], rd_nonce = [],
         rd_token = \<lparr>token_signature = Some (hex_encode L sig), token_message = Some (hex_encode L msg),
           token_nonce = Some (hex_encode L nonce), token_expiry_hour = Some expiry\<rparr>\<rparr> st))"
    using assms(6,15-20) by (intro resolve_dispute_ok [where n = "hex_encode L nonce"]) simp_all
  with sign sig(1) show ?thesis by blast
qed

lemma sample_rsa_pair: "rsa_pair (kp_private sample_kp)"
proof -
  have small: "list_all (\<lambda>y. (y ^ 5 mod 70) ^ 5 mod 70 = (y::int)) [0..69]"
    by (simp add: upto_rec1)
  have "x ^ 25 mod 70 = x mod 70" for x :: nat
  proof -
    let ?y = "int x mod 70"
    have "(?y ^ 5 mod 70) ^ 5 mod 70 = ?y"
      using small by (simp only: list_all_iff set_upto) simp
    then have "int x ^ 25 mod 70 = int x mod 70"
      by (simp add: power_mod flip: power_mult)
    then have "int (x ^ 25 mod 70) = int (x mod 70)" by (simp add: zmod_int)
    then show ?thesis by (simp only: of_nat_eq_iff)
  qed
  then show ?thesis by (simp add: rsa_pair_def sample_kp_def)
qed

lemma anyone_mints_admin_token_witness:
  "\<exists>answer sig. blind_sign demo_ext sample_app (demo_hex [10]) = Inr (demo_hex answer)
    \<and> is_ok (fst (resolve_dispute demo_ext sample_app noon_env ''01''
        \<lparr>outcome_blob = ''pay me'', admin_signature = [], rd_nonce = [],
         rd_token = \<lparr>token_signature = Some (demo_hex sig),
           token_message = Some (demo_hex (compose_token_message demo_ext ''dispute:resolve'' ''01'' [10] 10)),
           token_nonce = Some (demo_hex [10]), token_expiry_hour = Some 10\<rparr>\<rparr> disputed_state))"
proof -
  let ?msg = "compose_token_message demo_ext ''dispute:resolve'' ''01'' [10] 10"
  have msg: "?msg = replicate 31 0 @ [40]"
    by (simp add: compose_token_message_def demo_ext_sel admin_action_label_def dec_10)
  have val: "from_bytes_be demo_ext ?msg = 40"
    unfolding msg by (simp only: demo_ext_sel demo_from_be_zeros) simp
  have bits: "bit_length 70 = 7" by (simp add: bit_length.simps)
  have blind: "blind_message demo_ext [11] ?msg (kp_public sample_kp) = Some ([10], [11])"
    using val by (simp add: blind_message_def blinding_bytes_def sample_kp_def bits demo_ext_sel modpow_def Let_def
        demo_to_be_small)
  have sel: "select_order [1] (db_orders disputed_state) = Some disputed_order"
    by (simp add: disputed_state_def disputed_order_def select_by_def new_order_row_def)
  have hour: "token_hour_ok 10 (unix_secs noon_env)"
    by (simp add: noon_env_def unix_secs_def token_hour_ok_iff in_i64_def i64_min_def i64_max_def)
  have cop: "coprime (11::nat) 70"
    by (simp add: coprime_iff_gcd_eq_1 gcd_non_0_nat)
  have "\<exists>answer sig. blind_sign demo_ext sample_app (hex_encode demo_ext [10]) = Inr (hex_encode demo_ext answer)
    \<and> unblind_signature demo_ext answer [11] (kp_public sample_kp) = Some sig
    \<and> is_ok (fst (resolve_dispute demo_ext sample_app noon_env ''01''
        \<lparr>outcome_blob = ''pay me'', admin_signature = [], rd_nonce = [],
         rd_token = \<lparr>token_signature = Some (hex_encode demo_ext sig),
           token_message = Some (hex_encode demo_ext ?msg),
           token_nonce = Some (hex_encode demo_ext [10]), token_expiry_hour = Some 10\<rparr>\<rparr> disputed_state))"
  proof (rule anyone_mints_admin_token [OF demo_hex_ok demo_be_ok demo_egcd_ok sample_rsa_pair,
        where random = "[11]" and oid = "[1]" and blob = "as_bytes ''pay me''" and r = disputed_order])
    show "app_admin_keypair sample_app = Some sample_kp" by (simp add: sample_app_def)
    show "kp_public sample_kp = rsa_public_from (kp_private sample_kp)"
      by (simp add: sample_kp_def rsa_public_from_def)
    show "length (sha256 demo_ext m) = 32" for m by (simp add: demo_ext_sel)
    show "?msg = compose_token_message demo_ext ''dispute:resolve'' ''01'' [10] (i64_as_u64 10)"
      by (simp add: i64_as_u64_def)
    show "from_bytes_be demo_ext ?msg < sk_n (kp_private sample_kp)"
      unfolding val by (simp add: sample_kp_def)
    show "coprime (from_bytes_be demo_ext [11]) (sk_n (kp_private sample_kp))"
      using cop by (simp add: demo_ext_sel sample_kp_def)
    show "orders_wf (db_orders disputed_state)" "no_faults noon_env"
      by (simp_all add: disputed_state_def orders_wf_def noon_env_def no_faults_def)
    show "hex_decode demo_ext ''01'' = Some [1]" by (simp add: demo_ext_sel nibble_val_def)
    show "check_outcome_blob demo_ext ''pay me'' = Inr (as_bytes ''pay me'')"
      by (simp add: check_outcome_blob_Inr demo_ext_sel max_dispute_blob_bytes_def)
    show "colon_key ''01'' (hex_encode demo_ext [10]) \<notin> admin_token_nonces disputed_state"
      by (simp add: disputed_state_def empty_api_def)
  qed (rule blind sel hour | simp)+
  then show ?thesis by (auto simp: demo_ext_sel)
qed

end
