(* ===== verification/Http.thy ===== *)
theory Http
  imports Api
begin

text \<open>
  HTTP as the gateway sees it: requests with the extensions the middlewares attach, responses,
  services and the process state all layers share.  Header names are compared in lower case and
  a header is its value when that is visible ASCII (\<^verbatim>\<open>HeaderValue::to_str\<close> succeeds).
\<close>

record http_request =
  http_method :: string
  path :: string
  headers :: "(string \<times> string option) list"  \<comment> \<open>\<open>None\<close>: a value that is not visible ASCII\<close>
  ext_pubkey :: "bytes option"        \<comment> \<open>\<open>AuthPubkey\<close>, the hash\<close>
  ext_pubkey_bytes :: "bytes option"  \<comment> \<open>\<open>AuthPubkeyBytes\<close>\<close>
  ext_circuit :: "nat option"         \<comment> \<open>\<open>CircuitSlot\<close>\<close>

record http_response = response +
  resp_headers :: "string \<Rightarrow> string option"

record rate_entry =
  count :: nat
  window_start :: nat

record gateway =
  nonce_buckets :: "nat \<Rightarrow> bytes set option"
  rate_buckets :: "string \<Rightarrow> rate_entry option"
  challenges :: "string \<Rightarrow> (bytes \<times> int) option"
  api :: api_state

type_synonym service = "http_request \<Rightarrow> gateway \<Rightarrow> http_response \<times> gateway"

definition header_raw :: "string \<Rightarrow> http_request \<Rightarrow> string option option" where
  "header_raw name req = map_of (headers req) name"

text \<open>\<^verbatim>\<open>headers().get(name).and_then(|v| v.to_str().ok())\<close>\<close>

definition header :: "string \<Rightarrow> http_request \<Rightarrow> string option" where
  "header name req = Option.bind (header_raw name req) (\<lambda>v. v)"

text \<open>The response every error turns into, before the outer layers.\<close>

definition error_response :: http_response where
  "error_response =
     \<lparr>status = 500, body = json_error, resp_headers = [''content-type'' \<mapsto> ''application/json'']\<rparr>"

definition reject :: "app_error \<Rightarrow> http_response" where
  "reject e = response.extend (into_response e) \<lparr>resp_headers = [''content-type'' \<mapsto> ''application/json'']\<rparr>"

text \<open>A fresh process, for the instances below.\<close>

definition empty_gateway :: gateway where
  "empty_gateway = \<lparr>nonce_buckets = (\<lambda>_. None), rate_buckets = (\<lambda>_. None), challenges = (\<lambda>_. None),
     api = empty_api\<rparr>"

definition plain_app :: app where
  "plain_app = \<lparr>app_server = default_server_config, app_worker_key = None, app_admin_keypair = None\<rparr>"

definition plain_env :: env where
  "plain_env = \<lparr>unix_time = 36000, random_id = [2], db_fault = (\<lambda>_. None)\<rparr>"

lemma reject_uniform [simp]: "reject e = error_response"
  by (simp add: reject_def into_response_def error_response_def response.defs)

end
