(* ===== verification/Hmac_Auth.thy ===== *)
theory Hmac_Auth
  imports Http
begin

text \<open>
  \<^verbatim>\<open>src/src/crypto/hmac_auth.rs\<close>, \<^verbatim>\<open>gateway/auth_common.rs\<close> and \<^verbatim>\<open>crypto/hash.rs\<close>: keys and tokens
  derived with HMAC, hashes with a domain prefix.  The pieces fed to a MAC or a hasher are
  concatenated.
\<close>

section \<open>Key derivation\<close>

definition derive_auth_key :: "ext \<Rightarrow> string \<Rightarrow> bytes \<Rightarrow> bytes option" where
  "derive_auth_key L secret pubkey =
     hmac_sha256 L (as_bytes secret) (as_bytes ''auth_key_derivation_v1'' @ pubkey)"

text \<open>\<^const>\<open>None\<close>: the \<^verbatim>\<open>expect\<close> panics.\<close>

definition derive_ephemeral_admin_identity :: "ext \<Rightarrow> string \<Rightarrow> bytes \<Rightarrow> string \<Rightarrow> bytes option" where
  "derive_ephemeral_admin_identity L secret session_nonce action_domain =
     hmac_sha256 L (as_bytes secret)
       (as_bytes ''ephemeral-admin-identity-v1'' @ as_bytes action_domain @ session_nonce)"

definition verify_ephemeral_admin_identity :: "ext \<Rightarrow> string \<Rightarrow> bytes \<Rightarrow> bytes \<Rightarrow> string \<Rightarrow> bool option" where
  "verify_ephemeral_admin_identity L secret identity session_nonce action_domain =
     map_option (\<lambda>expected. constant_time_compare expected identity)
       (derive_ephemeral_admin_identity L secret session_nonce action_domain)"

definition derive_domain_identity :: "ext \<Rightarrow> bytes \<Rightarrow> bytes \<Rightarrow> bytes \<Rightarrow> bytes option" where
  "derive_domain_identity L secret domain pubkey_hash =
     hmac_sha256 L secret (as_bytes ''domain-identity-v1'' @ domain @ pubkey_hash)"

section \<open>Tokens and challenges\<close>

definition generate_auth_token :: "ext \<Rightarrow> bytes \<Rightarrow> bytes \<Rightarrow> nat \<Rightarrow> string \<Rightarrow> bytes option" where
  "generate_auth_token L auth_key pubkey hour p =
     hmac_sha256 L auth_key (as_bytes ''auth-token-v1'' @ pubkey @ u64_le_bytes hour @ as_bytes p)"

definition verify_auth_token :: "ext \<Rightarrow> bytes \<Rightarrow> bytes \<Rightarrow> bytes \<Rightarrow> nat \<Rightarrow> string \<Rightarrow> bool" where
  "verify_auth_token L auth_key token pubkey hour p =
     (case generate_auth_token L auth_key pubkey hour p of
        Some expected \<Rightarrow> length expected = length token \<and> constant_time_compare expected token
      | None \<Rightarrow> False)"

definition sign_challenge :: "ext \<Rightarrow> bytes \<Rightarrow> bytes \<Rightarrow> bytes" where
  "sign_challenge L sk challenge = ed_sign L sk challenge"

definition verify_challenge :: "ext \<Rightarrow> bytes \<Rightarrow> bytes \<Rightarrow> bytes \<Rightarrow> bool" where
  "verify_challenge L pk challenge signature =
     (if length signature \<noteq> 64 then False else ed_verify L pk challenge signature)"

definition compute_hour_bucket :: "int \<Rightarrow> nat" where
  "compute_hour_bucket ts = (if ts < 0 then 0 else i64_as_u64 (trunc_div ts 3600))"

section \<open>Hashes\<close>

definition hash_pubkey :: "ext \<Rightarrow> bytes \<Rightarrow> bytes" where
  "hash_pubkey L pubkey = blake3 L pubkey"

definition hash_search_keyword :: "ext \<Rightarrow> string \<Rightarrow> bytes \<Rightarrow> bytes" where
  "hash_search_keyword L keyword domain_secret =
     blake3 L (as_bytes ''marketplace_search_v1'' @ domain_secret @ as_bytes keyword)"

definition hash_challenge :: "ext \<Rightarrow> bytes \<Rightarrow> bytes \<Rightarrow> bytes" where
  "hash_challenge L challenge secret =
     blake3 L (as_bytes ''marketplace_challenge_v1'' @ secret @ challenge)"

section \<open>Facts\<close>

lemma verify_auth_token_iff:
  "verify_auth_token L k token pk hour p \<longleftrightarrow> generate_auth_token L k pk hour p = Some token"
  by (auto simp: verify_auth_token_def split: option.splits)

lemma token_roundtrip: "generate_auth_token L k pk hour p = Some t \<Longrightarrow> verify_auth_token L k t pk hour p"
  by (simp add: verify_auth_token_iff)

lemma ephemeral_identity_iff:
  "verify_ephemeral_admin_identity L s i n d = Some True \<longleftrightarrow> derive_ephemeral_admin_identity L s n d = Some i"
  by (auto simp: verify_ephemeral_admin_identity_def)

lemma challenge_roundtrip: "ed_ok L pub \<Longrightarrow> verify_challenge L (pub sk) c (sign_challenge L sk c)"
  by (auto simp: ed_ok_def verify_challenge_def sign_challenge_def)

lemma compute_hour_bucket_nonneg: "0 \<le> ts \<Longrightarrow> ts \<le> i64_max \<Longrightarrow> compute_hour_bucket ts = nat (ts div 3600)"
proof -
  assume ts: "0 \<le> ts" "ts \<le> i64_max"
  have "ts div 3600 \<le> ts div 1" using ts(1) by (intro zdiv_mono2) simp_all
  then have "ts div 3600 < 2 ^ 64" using ts(2) by (simp add: i64_max_def)
  then have "ts div 3600 mod 2 ^ 64 = ts div 3600"
    using ts(1) by (intro mod_pos_pos_trivial) (simp_all only: pos_imp_zdiv_nonneg_iff zero_less_numeral)
  then show ?thesis
    using ts(1) by (simp add: compute_hour_bucket_def trunc_div_nonneg i64_as_u64_def)
qed

lemma same_hour_bucket:
  assumes "0 \<le> s" "s \<le> t" "t \<le> i64_max"
  shows "compute_hour_bucket s \<le> compute_hour_bucket t"
    and "t < s + 3600 \<Longrightarrow> compute_hour_bucket t \<le> Suc (compute_hour_bucket s)"
proof -
  have s: "compute_hour_bucket s = nat (s div 3600)" and t: "compute_hour_bucket t = nat (t div 3600)"
    using assms by (simp_all add: compute_hour_bucket_nonneg)
  show "compute_hour_bucket s \<le> compute_hour_bucket t"
    using assms by (simp add: s t nat_mono zdiv_mono1)
  assume "t < s + 3600"
  then have "t div 3600 \<le> (s + 3600) div 3600" by (intro zdiv_mono1) simp_all
  then have "t div 3600 \<le> s div 3600 + 1" by simp
  moreover have "0 \<le> s div 3600" using assms by simp
  ultimately show "compute_hour_bucket t \<le> Suc (compute_hour_bucket s)" by (simp add: s t)
qed

end
