(* ===== verification/Stateless_Auth.thy ===== *)
theory Stateless_Auth
  imports Hmac_Auth
begin

text \<open>
  \<^verbatim>\<open>src/src/gateway/stateless_auth.rs\<close>: every request outside the public paths carries a public
  key, an HMAC under a key derived from it, an hour, a nonce and an Ed25519 signature; nonces are
  cached per hour.
\<close>

section \<open>MAC, challenge and signature\<close>

definition compute_hmac :: "ext \<Rightarrow> bytes \<Rightarrow> bytes \<Rightarrow> nat \<Rightarrow> string \<Rightarrow> bytes \<Rightarrow> bytes option" where
  "compute_hmac L auth_key pubkey hour p nonce =
     hmac_sha256 L auth_key (pubkey @ u64_le_bytes hour @ as_bytes p @ nonce)"

definition build_challenge :: "bytes \<Rightarrow> bytes \<Rightarrow> nat \<Rightarrow> bytes \<Rightarrow> bytes" where
  "build_challenge hmac pubkey hour nonce = hmac @ pubkey @ u64_le_bytes hour @ nonce"

definition verify_hmac :: "ext \<Rightarrow> bytes \<Rightarrow> bytes \<Rightarrow> nat \<Rightarrow> string \<Rightarrow> bytes \<Rightarrow> bytes \<Rightarrow> bool" where
  "verify_hmac L auth_key pubkey hour p nonce expected =
     (case compute_hmac L auth_key pubkey hour p nonce of
        Some computed \<Rightarrow> length computed = length expected \<and> constant_time_compare computed expected
      | None \<Rightarrow> False)"

definition verify_signature :: "ext \<Rightarrow> bytes \<Rightarrow> bytes \<Rightarrow> bytes \<Rightarrow> nat \<Rightarrow> bytes \<Rightarrow> bytes \<Rightarrow> bool" where
  "verify_signature L pk_bytes hmac pubkey hour nonce sig_bytes =
     (let challenge = build_challenge hmac pubkey hour nonce
      in if \<not> ed_public_ok L pk_bytes then False
         else if length sig_bytes \<noteq> 64 then False
         else ed_verify L pk_bytes challenge sig_bytes)"

section \<open>The hourly replay cache\<close>

definition max_nonces_per_bucket :: nat where
  "max_nonces_per_bucket = 10000"

definition retain_buckets :: "nat \<Rightarrow> (nat \<Rightarrow> bytes set option) \<Rightarrow> nat \<Rightarrow> bytes set option" where
  "retain_buckets hour cache b = (if hour - 1 \<le> b then cache b else None)"

definition check_replay :: "nat \<times> bytes \<Rightarrow> (nat \<Rightarrow> bytes set option) \<Rightarrow> bool \<times> (nat \<Rightarrow> bytes set option)" where
  "check_replay k cache =
     (let hour = fst k; nonce = snd k;
          cache = retain_buckets hour cache;
          entry = (case cache hour of Some s \<Rightarrow> s | None \<Rightarrow> {});
          entry = (if card entry \<ge> max_nonces_per_bucket then {} else entry);
          (fresh, entry) = replay_insert nonce entry
      in (fresh, cache(hour \<mapsto> entry)))"

section \<open>The middleware\<close>

definition public_path :: "string \<Rightarrow> bool" where
  "public_path p \<longleftrightarrow>
     starts_with ''/auth/'' p \<or> starts_with ''/api/auth/'' p \<or> starts_with ''/public/'' p"

record auth_headers =
  ah_pubkey :: bytes
  ah_hmac :: bytes
  ah_hour :: nat
  ah_nonce :: bytes
  ah_sig :: bytes

definition read_auth_headers :: "ext \<Rightarrow> http_request \<Rightarrow> auth_headers res" where
  "read_auth_headers L req =
     and_then (ok_or (AuthFailed ''missing pubkey'') (header ''x-auth-pubkey'' req)) (\<lambda>pubkey_hex.
     and_then (ok_or (AuthFailed ''missing hmac'') (header ''x-auth-hmac'' req)) (\<lambda>hmac_hex.
     and_then (ok_or (AuthFailed ''missing hour'') (header ''x-auth-hour'' req)) (\<lambda>hour_str.
     and_then (ok_or (AuthFailed ''missing nonce'') (header ''x-auth-nonce'' req)) (\<lambda>nonce_hex.
     and_then (ok_or (AuthFailed ''missing signature'') (header ''x-auth-signature'' req)) (\<lambda>sig_hex.
     and_then (ok_or (AuthFailed ''invalid pubkey hex'') (hex_decode L pubkey_hex)) (\<lambda>pk.
     and_then (require (length pk = 32) (AuthFailed ''invalid pubkey length'')) (\<lambda>_.
     and_then (ok_or (AuthFailed ''invalid hmac hex'') (hex_decode L hmac_hex)) (\<lambda>hmac.
     and_then (ok_or (AuthFailed ''invalid hour'') (parse_u64 hour_str)) (\<lambda>hour.
     and_then (ok_or (AuthFailed ''invalid nonce hex'') (hex_decode L nonce_hex)) (\<lambda>nonce.
     and_then (ok_or (AuthFailed ''invalid sig hex'') (hex_decode L sig_hex)) (\<lambda>sig.
       Inr \<lparr>ah_pubkey = pk, ah_hmac = hmac, ah_hour = hour, ah_nonce = nonce, ah_sig = sig\<rparr>)))))))))))"

definition current_hour :: "env \<Rightarrow> nat" where
  "current_hour E = i64_as_u64 (trunc_div (unix_time E) 3600)"

definition check_credentials :: "ext \<Rightarrow> app \<Rightarrow> env \<Rightarrow> string \<Rightarrow> auth_headers \<Rightarrow> unit res" where
  "check_credentials L A E p h =
     and_then (require (\<not> (ah_hour h > current_hour E \<or> ah_hour h < current_hour E - 1))
                 (AuthFailed ''stale hour bucket'')) (\<lambda>_.
     and_then (ok_or (AuthFailed ''key derivation failed'')
                 (derive_auth_key L (server_secret (app_server A)) (ah_pubkey h))) (\<lambda>auth_key.
     and_then (require (verify_hmac L auth_key (ah_pubkey h) (ah_hour h) p (ah_nonce h) (ah_hmac h))
                 (AuthFailed ''hmac mismatch'')) (\<lambda>_.
       require (verify_signature L (ah_pubkey h) (ah_hmac h) (ah_pubkey h) (ah_hour h) (ah_nonce h) (ah_sig h))
         (AuthFailed ''signature mismatch''))))"

definition stateless_auth_middleware :: "ext \<Rightarrow> app \<Rightarrow> env \<Rightarrow> service \<Rightarrow> service" where
  "stateless_auth_middleware L A E nxt req g =
     (if public_path (path req) then nxt req g
      else case read_auth_headers L req of
             Inl e \<Rightarrow> (reject e, g)
           | Inr h \<Rightarrow>
              (case check_credentials L A E (path req) h of
                 Inl e \<Rightarrow> (reject e, g)
               | Inr _ \<Rightarrow>
                  (let (fresh, cache) = check_replay (ah_hour h, ah_nonce h) (nonce_buckets g);
                       g = g\<lparr>nonce_buckets := cache\<rparr>
                   in if \<not> fresh then (reject (AuthFailed ''replay detected''), g)
                      else nxt (req\<lparr>ext_pubkey := Some (hash_pubkey L (ah_pubkey h)),
                                    ext_pubkey_bytes := Some (ah_pubkey h)\<rparr>) g)))"

section \<open>Facts about the cache\<close>

definition bucket :: "nat \<Rightarrow> (nat \<Rightarrow> bytes set option) \<Rightarrow> bytes set" where
  "bucket h cache = (case cache h of Some s \<Rightarrow> s | None \<Rightarrow> {})"

lemma check_replay_fst:
  "fst (check_replay (h, n) cache) \<longleftrightarrow> n \<notin> bucket h cache \<or> max_nonces_per_bucket \<le> card (bucket h cache)"
  by (auto simp: check_replay_def retain_buckets_def bucket_def replay_insert_def Let_def)

lemma check_replay_bucket:
  "bucket h' (snd (check_replay (h, n) cache)) =
     (if h' = h then insert n (if max_nonces_per_bucket \<le> card (bucket h cache) then {} else bucket h cache)
      else if h - 1 \<le> h' then bucket h' cache else {})"
  by (auto simp: check_replay_def retain_buckets_def bucket_def replay_insert_def Let_def)

definition cache_bounded :: "(nat \<Rightarrow> bytes set option) \<Rightarrow> bool" where
  "cache_bounded cache \<longleftrightarrow>
     (\<forall>h. finite (bucket h cache) \<and> card (bucket h cache) \<le> max_nonces_per_bucket)"

lemma cache_bounded_step: "cache_bounded cache \<Longrightarrow> cache_bounded (snd (check_replay (h, n) cache))"
  unfolding cache_bounded_def check_replay_bucket
  by (auto simp: card_insert_if max_nonces_per_bucket_def Suc_le_eq)

lemma cache_bounded_run: "cache_bounded cache \<Longrightarrow> cache_bounded (snd (run_ops check_replay ks cache))"
  by (induction ks arbitrary: cache) (auto simp: cache_bounded_step)

text \<open>As long as the bucket has room, a cached nonce stays cached and is refused.\<close>

lemma cached_nonce_refused:
  assumes "n \<in> bucket h cache" "card (bucket h cache) + j < max_nonces_per_bucket" "finite (bucket h cache)"
    and "j < length ks" "ks ! j = (h, n)" "\<And>k. k < j \<Longrightarrow> fst (ks ! k) \<le> h + 1"
  shows "\<not> fst (run_ops check_replay ks cache) ! j"
  using assms
proof (induction ks arbitrary: cache j)
  case (Cons x ks)
  show ?case
  proof (cases j)
    case 0
    with Cons.prems show ?thesis by (simp add: check_replay_fst)
  next
    case (Suc j')
    obtain h' n' where x: "x = (h', n')" by (cases x)
    have h': "h' \<le> h + 1" using Cons.prems(6) [of 0] Suc x by simp
    let ?cache = "snd (check_replay x cache)"
    have b: "bucket h ?cache = (if h = h' then insert n' (bucket h cache) else bucket h cache)"
      using Cons.prems(2) h' by (auto simp: x check_replay_bucket)
    have "card (bucket h ?cache) \<le> Suc (card (bucket h cache))"
      using Cons.prems(3) by (auto simp: b card_insert_if)
    moreover have "\<And>k. k < j' \<Longrightarrow> fst (ks ! k) \<le> h + 1"
      using Cons.prems(6) [of "Suc _"] Suc by simp
    ultimately have "\<not> fst (run_ops check_replay ks ?cache) ! j'"
      using Cons.prems Suc by (intro Cons.IH) (auto simp: b)
    then show ?thesis by (simp add: Suc)
  qed
qed simp

lemma bucket_card_run:
  assumes "finite (bucket h cache)" "card (bucket h cache) + length ks < max_nonces_per_bucket"
    "\<And>x. x \<in> set ks \<Longrightarrow> fst x \<le> h + 1"
  shows "bucket h (snd (run_ops check_replay ks cache)) = bucket h cache \<union> snd ` {x \<in> set ks. fst x = h}"
  using assms
proof (induction ks arbitrary: cache)
  case (Cons x ks)
  obtain h' n' where x: "x = (h', n')" by (cases x)
  let ?cache = "snd (check_replay x cache)"
  have b: "bucket h ?cache = (if h = h' then insert n' (bucket h cache) else bucket h cache)"
    using Cons.prems(2) Cons.prems(3) [of x] by (auto simp: x check_replay_bucket)
  have "card (bucket h ?cache) \<le> Suc (card (bucket h cache))"
    using Cons.prems(1) by (auto simp: b card_insert_if)
  then have "bucket h (snd (run_ops check_replay ks ?cache)) =
      bucket h ?cache \<union> snd ` {x \<in> set ks. fst x = h}"
    using Cons.prems by (intro Cons.IH) (auto simp: b)
  moreover have "snd ` {y \<in> set (x # ks). fst y = h} =
      (if h = h' then insert n' (snd ` {y \<in> set ks. fst y = h}) else snd ` {y \<in> set ks. fst y = h})"
    by (auto simp: x image_iff)
  ultimately show ?case by (simp only: run_ops_Cons b) auto
qed simp

section \<open>Properties\<close>

text \<open>
  C15. No request outside the public paths reaches a handler without credentials: the middleware
  either answers the uniform error, changing nothing but the replay cache, or passes on the
  request, tagged with its key, after the hour was the current or the previous one, the HMAC under
  the derived key and the Ed25519 signature over HMAC, key, hour and nonce both verified, and the
  nonce was fresh (or its bucket full).
\<close>

theorem stateless_auth_guards:
  assumes "\<not> public_path (path req)"
  shows "(\<exists>cache. stateless_auth_middleware L A E nxt req g = (error_response, g\<lparr>nonce_buckets := cache\<rparr>))
    \<or> (\<exists>h auth_key cache. read_auth_headers L req = Inr h \<and> length (ah_pubkey h) = 32
        \<and> ah_hour h \<le> current_hour E \<and> current_hour E \<le> ah_hour h + 1
        \<and> derive_auth_key L (server_secret (app_server A)) (ah_pubkey h) = Some auth_key
        \<and> compute_hmac L auth_key (ah_pubkey h) (ah_hour h) (path req) (ah_nonce h) = Some (ah_hmac h)
        \<and> length (ah_sig h) = 64
        \<and> ed_verify L (ah_pubkey h)
             (ah_hmac h @ ah_pubkey h @ u64_le_bytes (ah_hour h) @ ah_nonce h) (ah_sig h)
        \<and> (ah_nonce h \<notin> bucket (ah_hour h) (nonce_buckets g)
           \<or> 10000 \<le> card (bucket (ah_hour h) (nonce_buckets g)))
        \<and> ah_nonce h \<in> bucket (ah_hour h) cache
        \<and> stateless_auth_middleware L A E nxt req g =
            nxt (req\<lparr>ext_pubkey := Some (blake3 L (ah_pubkey h)), ext_pubkey_bytes := Some (ah_pubkey h)\<rparr>)
              (g\<lparr>nonce_buckets := cache\<rparr>))"
proof (cases "read_auth_headers L req")
  case (Inl e)
  then show ?thesis
    using assms by (intro disjI1 exI [of _ "nonce_buckets g"]) (simp add: stateless_auth_middleware_def)
next
  case h: (Inr h)
  show ?thesis
  proof (cases "check_credentials L A E (path req) h")
    case (Inl e)
    with h assms show ?thesis
      by (intro disjI1 exI [of _ "nonce_buckets g"]) (simp add: stateless_auth_middleware_def)
  next
    case (Inr u)
    let ?r = "check_replay (ah_hour h, ah_nonce h) (nonce_buckets g)"
    have run: "stateless_auth_middleware L A E nxt req g =
        (if \<not> fst ?r then (error_response, g\<lparr>nonce_buckets := snd ?r\<rparr>)
         else nxt (req\<lparr>ext_pubkey := Some (blake3 L (ah_pubkey h)), ext_pubkey_bytes := Some (ah_pubkey h)\<rparr>)
                (g\<lparr>nonce_buckets := snd ?r\<rparr>))"
      using assms h Inr by (simp add: stateless_auth_middleware_def split_beta Let_def hash_pubkey_def)
    show ?thesis
    proof (cases "fst ?r")
      case False
      with run show ?thesis by (intro disjI1 exI [of _ "snd ?r"]) simp
    next
      case True
      obtain key where "derive_auth_key L (server_secret (app_server A)) (ah_pubkey h) = Some key"
        "verify_hmac L key (ah_pubkey h) (ah_hour h) (path req) (ah_nonce h) (ah_hmac h)"
        "verify_signature L (ah_pubkey h) (ah_hmac h) (ah_pubkey h) (ah_hour h) (ah_nonce h) (ah_sig h)"
        "ah_hour h \<le> current_hour E" "current_hour E \<le> ah_hour h + 1"
        using Inr by (auto simp: check_credentials_def)
      moreover have "length (ah_pubkey h) = 32"
        using h by (auto simp: read_auth_headers_def)
      ultimately show ?thesis
        using True run h
        by (intro disjI2 exI [of _ h] exI [of _ key] exI [of _ "snd ?r"])
           (auto simp: verify_hmac_def verify_signature_def build_challenge_def Let_def check_replay_fst
             check_replay_bucket max_nonces_per_bucket_def split: option.splits if_splits)
    qed
  qed
qed

definition bare_request :: http_request where
  "bare_request = \<lparr>http_method = ''GET'', path = ''/orders/01'', headers = [], ext_pubkey = None,
     ext_pubkey_bytes = None, ext_circuit = None\<rparr>"

lemma stateless_auth_guards_witness:
  "\<exists>cache. stateless_auth_middleware demo_ext plain_app plain_env (\<lambda>req g. (error_response, g)) bare_request
      empty_gateway = (error_response, empty_gateway\<lparr>nonce_buckets := cache\<rparr>)"
proof -
  have "\<not> public_path (path bare_request)"
    by (simp add: public_path_def starts_with_def bare_request_def)
  from stateless_auth_guards [OF this] show ?thesis
    by (auto simp: read_auth_headers_def header_def header_raw_def bare_request_def)
qed

text \<open>
  C19. Replay protection: starting from the empty cache, among fewer than 10000 checks whose hours
  are at most one ahead of \<open>h\<close>, a (hour, nonce) pair that was checked before is refused.
\<close>

theorem replayed_nonce_refused:
  assumes "i < j" "j < length ks" "j < 10000" "ks ! i = (h, n)" "ks ! j = (h, n)"
    and "\<And>k. k < j \<Longrightarrow> fst (ks ! k) \<le> h + 1"
  shows "\<not> fst (run_ops check_replay ks (\<lambda>_. None)) ! j"
proof -
  have split: "fst (run_ops check_replay (xs @ ys) c) =
      fst (run_ops check_replay xs c) @ fst (run_ops check_replay ys (snd (run_ops check_replay xs c)))"
    for xs ys c by (induction xs arbitrary: c) simp_all
  let ?c = "snd (run_ops check_replay (take j ks) (\<lambda>_. None))"
  have ks: "ks = take j ks @ (h, n) # drop (Suc j) ks"
    using assms(2,5) by (metis id_take_nth_drop)
  have le: "fst x \<le> h + 1" if "x \<in> set (take j ks)" for x
    using that assms(2,6) by (auto simp: in_set_conv_nth)
  have b: "bucket h ?c = snd ` {x \<in> set (take j ks). fst x = h}"
    using bucket_card_run [of h "\<lambda>_. None" "take j ks"] assms(2,3) le
    by (simp add: bucket_def max_nonces_per_bucket_def)
  have "(h, n) \<in> set (take j ks)"
    using assms(1,2,4) by (auto simp: in_set_conv_nth intro!: exI [of _ i])
  then have "n \<in> bucket h ?c" by (force simp: b)
  moreover have "card (bucket h ?c) < max_nonces_per_bucket"
  proof -
    have "card (bucket h ?c) \<le> card {x \<in> set (take j ks). fst x = h}"
      unfolding b by (intro card_image_le) simp
    also have "\<dots> \<le> card (set (take j ks))" by (intro card_mono) auto
    also have "\<dots> \<le> j" using card_length [of "take j ks"] by simp
    finally show ?thesis using assms(3) by (simp add: max_nonces_per_bucket_def)
  qed
  ultimately have "\<not> fst (check_replay (h, n) ?c)" by (simp add: check_replay_fst)
  then show ?thesis
    using assms(2) by (subst ks, subst split) (simp add: nth_append)
qed

lemma replayed_nonce_refused_witness:
  "\<not> fst (run_ops check_replay [(7, [1]), (8, [1]), (7, [1])] (\<lambda>_. None)) ! 2"
  by (rule replayed_nonce_refused [where i = 0 and h = 7 and n = "[1]"])
     (auto simp: less_Suc_eq numeral_2_eq_2)

text \<open>
  The cache is bounded at the price of replays: no bucket ever holds more than 10000 nonces,
  and a check is refused exactly when the bucket of its hour holds the nonce and is not full; so
  once a bucket is full the next check in that hour is accepted whatever its nonce.
\<close>

theorem replay_cache_bounded:
  "finite (bucket h (snd (run_ops check_replay ks (\<lambda>_. None))))
   \<and> card (bucket h (snd (run_ops check_replay ks (\<lambda>_. None)))) \<le> 10000
   \<and> (\<not> fst (check_replay (h, n) (snd (run_ops check_replay ks (\<lambda>_. None)))) \<longleftrightarrow>
       n \<in> bucket h (snd (run_ops check_replay ks (\<lambda>_. None)))
       \<and> card (bucket h (snd (run_ops check_replay ks (\<lambda>_. None)))) < 10000)"
proof -
  have "cache_bounded (\<lambda>_. None)" by (simp add: cache_bounded_def bucket_def)
  then have "cache_bounded (snd (run_ops check_replay ks (\<lambda>_. None)))" by (rule cache_bounded_run)
  then show ?thesis
    by (auto simp: cache_bounded_def max_nonces_per_bucket_def check_replay_fst)
qed

end
