(* ===== verification/Rate_Limit.thy ===== *)
theory Rate_Limit
  imports Http
begin

text \<open>
  \<^verbatim>\<open>src/src/gateway/ratelimit.rs\<close> and \<^verbatim>\<open>rate_limit_middleware.rs\<close>: a fixed-window limiter per key,
  and the key of a request.  Instants are nanoseconds of the monotonic clock; their difference
  saturates at zero.
\<close>

section \<open>The limiter\<close>

record rate_limiter =
  max_requests :: nat
  window_duration :: nat

definition rate_limiter_new :: "nat \<Rightarrow> nat \<Rightarrow> rate_limiter" where
  "rate_limiter_new n window_seconds = \<lparr>max_requests = n, window_duration = window_seconds * 10 ^ 9\<rparr>"

definition rate_check ::
    "rate_limiter \<Rightarrow> string \<times> nat \<Rightarrow> (string \<Rightarrow> rate_entry option) \<Rightarrow> bool \<times> (string \<Rightarrow> rate_entry option)" where
  "rate_check R kt buckets =
     (let key = fst kt; now = snd kt
      in case buckets key of
           Some entry \<Rightarrow>
             (if now - window_start entry > window_duration R
              then (True, buckets(key \<mapsto> \<lparr>count = 1, window_start = now\<rparr>))
              else if count entry \<ge> max_requests R then (False, buckets)
              else (True, buckets(key \<mapsto> entry\<lparr>count := count entry + 1\<rparr>)))
         | None \<Rightarrow> (True, buckets(key \<mapsto> \<lparr>count = 1, window_start = now\<rparr>)))"

definition is_allowed ::
    "rate_limiter \<Rightarrow> string \<times> nat \<Rightarrow> (string \<Rightarrow> rate_entry option) \<Rightarrow> bool \<times> (string \<Rightarrow> rate_entry option)" where
  "is_allowed R kt buckets = rate_check R kt buckets"

section \<open>The key of a request\<close>

definition first_part :: "string \<Rightarrow> string" where
  "first_part s = hd (split_on (\<lambda>c. c = CHR '','') s)"

text \<open>A header branch that returns only when the header is usable; \<^const>\<open>None\<close> falls through.\<close>

definition key_from_extension :: "ext \<Rightarrow> http_request \<Rightarrow> string option" where
  "key_from_extension L req =
     (case ext_pubkey req of
        Some h \<Rightarrow> (let key = hex_encode L h in if key \<noteq> [] then Some key else None)
      | None \<Rightarrow> None)"

definition key_from_pubkey_header :: "http_request \<Rightarrow> string option" where
  "key_from_pubkey_header req =
     (case header ''x-auth-pubkey'' req of
        Some s \<Rightarrow> (if s \<noteq> [] \<and> s \<noteq> ''anonymous'' then Some s else None)
      | None \<Rightarrow> None)"

definition get_rate_limit_key :: "ext \<Rightarrow> http_request \<Rightarrow> string" where
  "get_rate_limit_key L req =
     (case key_from_extension L req of Some k \<Rightarrow> k | None \<Rightarrow>
      (case key_from_pubkey_header req of Some k \<Rightarrow> k | None \<Rightarrow>
       (case header ''x-forwarded-for'' req of Some ip \<Rightarrow> ''ip:'' @ trim (first_part ip) | None \<Rightarrow>
        (case header ''x-real-ip'' req of Some ip \<Rightarrow> ''ip:'' @ ip | None \<Rightarrow> ''anonymous''))))"

definition extract_pubkey_from_request :: "ext \<Rightarrow> http_request \<Rightarrow> string option" where
  "extract_pubkey_from_request L req =
     (case key_from_extension L req of Some k \<Rightarrow> Some k | None \<Rightarrow> key_from_pubkey_header req)"

definition rate_limit_middleware :: "ext \<Rightarrow> rate_limiter \<Rightarrow> nat \<Rightarrow> service \<Rightarrow> service" where
  "rate_limit_middleware L R now nxt req g =
     (let key = get_rate_limit_key L req;
          (ok, buckets) = rate_check R (key, now) (rate_buckets g);
          g = g\<lparr>rate_buckets := buckets\<rparr>
      in if \<not> ok then (reject RateLimited, g) else nxt req g)"

section \<open>How many requests pass\<close>

definition accepted :: "rate_limiter \<Rightarrow> string \<Rightarrow> (string \<times> nat) list \<Rightarrow> (string \<Rightarrow> rate_entry option) \<Rightarrow> nat" where
  "accepted R k cs buckets =
     length (filter (\<lambda>(c, ok). fst c = k \<and> ok) (zip cs (fst (run_ops (rate_check R) cs buckets))))"

lemma accepted_Nil [simp]: "accepted R k [] b = 0"
  by (simp add: accepted_def)

lemma accepted_Cons:
  "accepted R k (c # cs) b =
     (if fst c = k \<and> fst (rate_check R c b) then 1 else 0) + accepted R k cs (snd (rate_check R c b))"
  by (auto simp: accepted_def)

lemma rate_check_other: "fst c \<noteq> k \<Longrightarrow> snd (rate_check R c b) k = b k"
  by (auto simp: rate_check_def Let_def split: option.split)

text \<open>Within the window of an entry only its remaining budget passes.\<close>

lemma accepted_in_window:
  assumes "b k = Some e" "count e \<le> max_requests R"
    and "\<And>t. (k, t) \<in> set cs \<Longrightarrow> t \<le> window_start e + window_duration R"
  shows "accepted R k cs b + count e \<le> max_requests R"
  using assms
proof (induction cs arbitrary: b e)
  case (Cons c cs)
  obtain k' t where c: "c = (k', t)" by (cases c)
  show ?case
  proof (cases "k' = k")
    case False
    with Cons.prems show ?thesis
      by (simp add: accepted_Cons c) (rule Cons.IH, auto simp: rate_check_other)
  next
    case True
    then have "t - window_start e \<le> window_duration R" using Cons.prems(3) [of t] c by auto
    then have step: "rate_check R c b =
        (if count e \<ge> max_requests R then (False, b) else (True, b(k \<mapsto> e\<lparr>count := count e + 1\<rparr>)))"
      using Cons.prems(1) True by (simp add: rate_check_def c)
    show ?thesis
    proof (cases "count e \<ge> max_requests R")
      case True
      then have "accepted R k cs b + count e \<le> max_requests R"
        using Cons.prems by (intro Cons.IH) auto
      with True step show ?thesis by (simp add: accepted_Cons)
    next
      case False
      let ?e = "e\<lparr>count := count e + 1\<rparr>"
      have "accepted R k cs (b(k \<mapsto> ?e)) + count ?e \<le> max_requests R"
        using Cons.prems False by (intro Cons.IH) auto
      with False step True c show ?thesis by (simp add: accepted_Cons)
    qed
  qed
qed simp

text \<open>Requests all inside one window length straddle at most one reset.\<close>

definition entries_counted :: "(string \<Rightarrow> rate_entry option) \<Rightarrow> bool" where
  "entries_counted b \<longleftrightarrow> (\<forall>k e. b k = Some e \<longrightarrow> 1 \<le> count e)"

lemma rate_check_fresh:
  assumes "b k = None \<or> (\<exists>e. b k = Some e \<and> t - window_start e > window_duration R)"
  shows "rate_check R (k, t) b = (True, b(k \<mapsto> \<lparr>count = 1, window_start = t\<rparr>))"
  using assms by (auto simp: rate_check_def)

lemma accepted_budget:
  assumes "1 \<le> max_requests R" "\<And>t. (k, t) \<in> set cs \<Longrightarrow> s \<le> t \<and> t \<le> s + window_duration R"
  shows "accepted R k cs b + (case b k of Some e \<Rightarrow> min (count e) (max_requests R) | None \<Rightarrow> max_requests R)
    \<le> 2 * max_requests R"
  using assms(2)
proof (induction cs arbitrary: b)
  case Nil
  then show ?case by (auto split: option.split)
next
  case (Cons c cs)
  obtain k' t where c: "c = (k', t)" by (cases c)
  show ?case
  proof (cases "k' = k")
    case False
    have "accepted R k (c # cs) b = accepted R k cs (snd (rate_check R c b))"
      by (simp add: accepted_Cons c False)
    moreover have "snd (rate_check R c b) k = b k" using False by (simp add: rate_check_other c)
    ultimately show ?thesis using Cons.IH [of "snd (rate_check R c b)"] Cons.prems by simp
  next
    case True
    show ?thesis
    proof (cases "b k = None \<or> (\<exists>e. b k = Some e \<and> t - window_start e > window_duration R)")
      case fresh: True
      let ?e = "\<lparr>count = 1, window_start = t\<rparr>"
      have "accepted R k cs (b(k \<mapsto> ?e)) + count ?e \<le> max_requests R"
      proof (rule accepted_in_window)
        have st: "s \<le> t" using Cons.prems [of t] by (simp add: c True)
        show "t' \<le> window_start ?e + window_duration R" if "(k, t') \<in> set cs" for t'
          using Cons.prems [of t'] that st by simp
      qed (use assms(1) in simp_all)
      moreover have "accepted R k (c # cs) b = Suc (accepted R k cs (b(k \<mapsto> ?e)))"
        using rate_check_fresh [of b k R t] fresh by (simp add: accepted_Cons c True)
      ultimately show ?thesis by (auto split: option.split)
    next
      case False
      then obtain e where e: "b k = Some e" "\<not> t - window_start e > window_duration R" by auto
      show ?thesis
      proof (cases "count e \<ge> max_requests R")
        case True
        then have "rate_check R c b = (False, b)"
          using e by (simp add: rate_check_def c \<open>k' = k\<close>)
        then show ?thesis using Cons.IH [of b] Cons.prems by (simp add: accepted_Cons)
      next
        case no: False
        define b' where "b' = b(k \<mapsto> e\<lparr>count := count e + 1\<rparr>)"
        have "rate_check R c b = (True, b')" "b' k = Some (e\<lparr>count := count e + 1\<rparr>)"
          using e no by (simp_all add: rate_check_def c True b'_def)
        then show ?thesis using Cons.IH [of b'] Cons.prems no e True by (simp add: accepted_Cons c)
      qed
    qed
  qed
qed

lemma entries_counted_step: "entries_counted b \<Longrightarrow> entries_counted (snd (rate_check R c b))"
  by (auto simp: entries_counted_def rate_check_def Let_def split: option.split)

lemma entries_counted_run: "entries_counted b \<Longrightarrow> entries_counted (snd (run_ops (rate_check R) cs b))"
  by (induction cs arbitrary: b) (auto simp: entries_counted_step)

section \<open>Properties\<close>

text \<open>
  C20. The limiter bounds every interval, not only its own windows: after any history, of the
  requests with one key whose times span at most one window length, at most
  \<open>2 * max_requests - 1\<close> pass, and at most \<open>max_requests\<close> if the key was never seen.
\<close>

theorem rate_limit_bound:
  assumes "1 \<le> max_requests R"
    and "\<And>t. (k, t) \<in> set cs \<Longrightarrow> s \<le> t \<and> t \<le> s + window_duration R"
    and "b = snd (run_ops (rate_check R) hist (\<lambda>_. None))"
  shows "accepted R k cs b \<le>
     (case b k of None \<Rightarrow> max_requests R | Some _ \<Rightarrow> 2 * max_requests R - 1)"
proof -
  have "entries_counted b"
    unfolding assms(3) by (rule entries_counted_run) (simp add: entries_counted_def)
  then have "1 \<le> count e" if "b k = Some e" for e
    using that by (simp add: entries_counted_def)
  moreover have "accepted R k cs b + (case b k of Some e \<Rightarrow> min (count e) (max_requests R) | None \<Rightarrow> max_requests R)
      \<le> 2 * max_requests R"
    using assms(1,2) by (rule accepted_budget)
  ultimately show ?thesis
    using assms(1) by (cases "b k") (simp_all add: min_def split: if_splits)
qed

lemma rate_limit_bound_witness:
  "accepted (rate_limiter_new 1 60) ''k'' [(''k'', 1), (''j'', 2), (''k'', 3)] (\<lambda>_. None) \<le> 1"
  using rate_limit_bound [of "rate_limiter_new 1 60" "''k''" "[(''k'', 1), (''j'', 2), (''k'', 3)]" 0 "\<lambda>_. None" "[]"]
  by (force simp: rate_limiter_new_def)

text \<open>The bound is met: a burst before and a burst after a reset.\<close>

lemma rate_limit_bound_tight:
  "accepted (rate_limiter_new 2 1) ''k'' [(''k'', 10 ^ 9), (''k'', 10 ^ 9 + 1), (''k'', 10 ^ 9 + 2)]
     (snd (run_ops (rate_check (rate_limiter_new 2 1)) [(''k'', 0)] (\<lambda>_. None))) = 3"
  by (simp add: accepted_Cons rate_check_def rate_limiter_new_def Let_def)

end
