(* ===== verification/Gateway.thy ===== *)
theory Gateway
  imports Stateless_Auth Rate_Limit
begin

text \<open>
  The remaining layers of \<^verbatim>\<open>src/src/gateway/\<close> (\<open>validation\<close>, \<open>tor_guard\<close>, \<open>security\<close>,
  \<open>response_padding\<close>, \<open>error_unifier\<close>) and the stack \<^verbatim>\<open>build_router\<close> makes of them.  The router
  below the layers is a parameter: a service.  The last \<^verbatim>\<open>layer\<close> added is the outermost.
\<close>

section \<open>Validation\<close>

definition max_request_size :: nat where "max_request_size = 1048576"
definition max_path_length :: nat where "max_path_length = 256"
definition max_header_count :: nat where "max_header_count = 50"
definition max_header_value_length :: nat where "max_header_value_length = 8192"

definition valid_request :: "http_request \<Rightarrow> bool" where
  "valid_request req =
     (let content_length = Option.bind (header ''content-length'' req) parse_u64
      in if (case content_length of Some n \<Rightarrow> n > max_request_size | None \<Rightarrow> False) then False
         else if length (path req) > max_path_length then False
         else if length (headers req) > max_header_count then False
         else if list_ex (\<lambda>h. case snd h of Some v \<Rightarrow> length v > max_header_value_length | None \<Rightarrow> False)
                (headers req) then False
         else if http_method req = ''POST'' \<or> http_method req = ''PUT'' \<or> http_method req = ''PATCH'' then
           (case header_raw ''content-type'' req of
              None \<Rightarrow> False
            | Some None \<Rightarrow> True
            | Some (Some ct) \<Rightarrow>
                starts_with ''application/json'' ct \<or> starts_with ''multipart/form-data'' ct)
         else True)"

definition validation_middleware :: "service \<Rightarrow> service" where
  "validation_middleware nxt req g = (if valid_request req then nxt req g else (error_response, g))"

section \<open>Circuit slots and security headers\<close>

definition tor_guard_middleware :: "nat \<Rightarrow> service \<Rightarrow> service" where
  "tor_guard_middleware slot nxt req g = nxt (req\<lparr>ext_circuit := Some slot\<rparr>) g"

definition quoted :: "string \<Rightarrow> string" where
  "quoted s = CHR 0x27 # s @ [CHR 0x27]"

definition security_headers :: "(string \<times> string) list" where
  "security_headers =
     [(''x-content-type-options'', ''nosniff''),
      (''x-frame-options'', ''DENY''),
      (''referrer-policy'', ''no-referrer''),
      (''x-robots-tag'', ''noindex, nofollow''),
      (''permissions-policy'', ''camera=(), microphone=(), geolocation=(), interest-cohort=()''),
      (''content-security-policy'',
       ''default-src '' @ quoted ''self'' @ ''; script-src '' @ quoted ''self'' @ '' '' @ quoted ''wasm-unsafe-eval''
       @ ''; style-src '' @ quoted ''self'' @ ''; img-src '' @ quoted ''self'' @ '' data:; connect-src '' @ quoted ''self''
       @ ''; frame-ancestors '' @ quoted ''none'' @ ''; base-uri '' @ quoted ''self'' @ ''; form-action '' @ quoted ''self''),
      (''cache-control'', ''no-store, max-age=0''),
      (''pragma'', ''no-cache'')]"

definition security_headers_middleware :: "service \<Rightarrow> service" where
  "security_headers_middleware nxt req g =
     (let host = header ''host'' req;
          (resp, g) = nxt req g;
          hs = foldl (\<lambda>hs (k, v). hs(k \<mapsto> v)) (resp_headers resp) security_headers;
          hs = (case host of
                  Some h \<Rightarrow> (if contains_str ''.onion'' h then hs(''onion-location'' \<mapsto> h) else hs)
                | None \<Rightarrow> hs)
      in (resp\<lparr>resp_headers := hs\<rparr>, g))"

section \<open>Padding and the error unifier\<close>

definition padded_size :: nat where
  "padded_size = 4096"

definition pad_response :: "http_response \<Rightarrow> http_response" where
  "pad_response resp =
     (if length (body resp) > padded_size
      then resp\<lparr>resp_headers := (resp_headers resp)(''content-length'' \<mapsto> dec (length (body resp)))\<rparr>
      else resp\<lparr>resp_headers := (resp_headers resp)(''content-length'' \<mapsto> ''4096''),
                body := body resp @ replicate (padded_size - length (body resp)) 32\<rparr>)"

definition response_padding_middleware :: "service \<Rightarrow> service" where
  "response_padding_middleware nxt req g = (let (resp, g) = nxt req g in (pad_response resp, g))"

definition is_client_error :: "nat \<Rightarrow> bool" where
  "is_client_error s \<longleftrightarrow> 400 \<le> s \<and> s < 500"

definition unify_error :: "http_response \<Rightarrow> http_response" where
  "unify_error resp =
     (if is_client_error (status resp)
      then \<lparr>status = 500, body = json_error,
            resp_headers = (resp_headers resp)(''content-length'' := None)\<rparr>
      else resp)"

definition error_unifier_middleware :: "service \<Rightarrow> service" where
  "error_unifier_middleware nxt req g = (let (resp, g) = nxt req g in (unify_error resp, g))"

section \<open>The stack\<close>

definition fallback_500 :: http_response where
  "fallback_500 = error_response"

definition build_router ::
    "ext \<Rightarrow> app \<Rightarrow> rate_limiter \<Rightarrow> env \<Rightarrow> nat \<Rightarrow> nat \<Rightarrow> service \<Rightarrow> service" where
  "build_router L A R E now slot routes =
     error_unifier_middleware
      (response_padding_middleware
       (stateless_auth_middleware L A E
        (rate_limit_middleware L R now
         (validation_middleware
          (tor_guard_middleware slot
           (security_headers_middleware routes))))))"

section \<open>Facts\<close>

lemma length_pad_response:
  "length (body (pad_response resp)) = max 4096 (length (body resp))"
  by (simp add: pad_response_def padded_size_def)

lemma pad_response_status [simp]: "status (pad_response resp) = status resp"
  by (simp add: pad_response_def)

lemma unify_error_status: "\<not> is_client_error (status (unify_error resp))"
  by (simp add: unify_error_def is_client_error_def)

lemma length_json_error [simp]: "length json_error = 17"
  by (simp add: json_error_def)

text \<open>
  What a layer may answer: the uniform error, with the API state untouched, or what the service
  below answers on a request that differs in the attached extensions only, from a gateway state
  that differs in the two caches only.
\<close>

definition guards_at :: "service \<Rightarrow> service \<Rightarrow> http_request \<Rightarrow> gateway \<Rightarrow> bool" where
  "guards_at outer inner req g \<longleftrightarrow>
     (\<exists>g'. outer req g = (error_response, g') \<and> api g' = api g)
     \<or> (\<exists>req' g'. outer req g = inner req' g' \<and> api g' = api g \<and> path req' = path req
         \<and> headers req' = headers req \<and> http_method req' = http_method req)"

definition guards :: "service \<Rightarrow> service \<Rightarrow> bool" where
  "guards outer inner \<longleftrightarrow> (\<forall>req g. guards_at outer inner req g)"

lemma guards_at_reject:
  "outer req g = (error_response, g') \<Longrightarrow> api g' = api g \<Longrightarrow> guards_at outer inner req g"
  by (auto simp: guards_at_def)

lemma guards_at_pass:
  "outer req g = inner req' g' \<Longrightarrow> api g' = api g \<Longrightarrow> path req' = path req \<Longrightarrow>
     headers req' = headers req \<Longrightarrow> http_method req' = http_method req \<Longrightarrow> guards_at outer inner req g"
  unfolding guards_at_def by blast

lemma guards_trans:
  assumes "guards a b" "guards b c"
  shows "guards a c"
  unfolding guards_def
proof (intro allI)
  fix req g
  from assms(1) have "guards_at a b req g" by (simp add: guards_def)
  then show "guards_at a c req g"
    unfolding guards_at_def [of a b]
  proof (elim disjE exE conjE)
    fix req1 g1
    assume 1: "a req g = b req1 g1" "api g1 = api g" "path req1 = path req"
      "headers req1 = headers req" "http_method req1 = http_method req"
    from assms(2) have "guards_at b c req1 g1" by (simp add: guards_def)
    then show ?thesis
      unfolding guards_at_def [of b c]
    proof (elim disjE exE conjE)
      fix g' assume "b req1 g1 = (error_response, g')" "api g' = api g1"
      with 1 show ?thesis by (intro guards_at_reject [of a req g g']) simp_all
    next
      fix req2 g2 assume "b req1 g1 = c req2 g2" "api g2 = api g1" "path req2 = path req1"
        "headers req2 = headers req1" "http_method req2 = http_method req1"
      with 1 show ?thesis by (intro guards_at_pass [of a req g c req2 g2]) simp_all
    qed
  qed (rule guards_at_reject)
qed

lemma auth_guards: "guards (stateless_auth_middleware L A E nxt) nxt"
  unfolding guards_def
proof (intro allI)
  fix req g
  let ?o = "stateless_auth_middleware L A E nxt"
  show "guards_at ?o nxt req g"
  proof (cases "public_path (path req)")
    case True
    then show ?thesis
      by (intro guards_at_pass [of ?o req g nxt req g]) (simp_all add: stateless_auth_middleware_def)
  next
    case np: False
    show ?thesis
    proof (cases "read_auth_headers L req")
      case h: (Inr h)
      show ?thesis
      proof (cases "check_credentials L A E (path req) h")
        case (Inr u)
        let ?r = "check_replay (ah_hour h, ah_nonce h) (nonce_buckets g)"
        let ?req = "req\<lparr>ext_pubkey := Some (hash_pubkey L (ah_pubkey h)), ext_pubkey_bytes := Some (ah_pubkey h)\<rparr>"
        have run: "?o req g =
            (if \<not> fst ?r then (error_response, g\<lparr>nonce_buckets := snd ?r\<rparr>)
             else nxt ?req (g\<lparr>nonce_buckets := snd ?r\<rparr>))"
          using np h Inr by (simp add: stateless_auth_middleware_def split_beta Let_def)
        show ?thesis
        proof (cases "fst ?r")
          case True
          with run show ?thesis by (intro guards_at_pass [of ?o req g nxt ?req "g\<lparr>nonce_buckets := snd ?r\<rparr>"]) simp_all
        next
          case False
          with run show ?thesis by (intro guards_at_reject [of ?o req g "g\<lparr>nonce_buckets := snd ?r\<rparr>"]) simp_all
        qed
      qed (use np h in \<open>auto intro!: guards_at_reject simp: stateless_auth_middleware_def\<close>)
    qed (use np in \<open>auto intro!: guards_at_reject simp: stateless_auth_middleware_def\<close>)
  qed
qed

lemma rate_guards: "guards (rate_limit_middleware L R now nxt) nxt"
  unfolding guards_def
proof (intro allI)
  fix req and g :: gateway
  let ?o = "rate_limit_middleware L R now nxt"
  let ?r = "rate_check R (get_rate_limit_key L req, now) (rate_buckets g)"
  have run: "?o req g =
      (if \<not> fst ?r then (error_response, g\<lparr>rate_buckets := snd ?r\<rparr>) else nxt req (g\<lparr>rate_buckets := snd ?r\<rparr>))"
    by (simp add: rate_limit_middleware_def split_beta Let_def)
  show "guards_at ?o nxt req g"
  proof (cases "fst ?r")
    case True
    with run show ?thesis by (intro guards_at_pass [of ?o req g nxt req "g\<lparr>rate_buckets := snd ?r\<rparr>"]) simp_all
  next
    case False
    with run show ?thesis by (intro guards_at_reject [of ?o req g "g\<lparr>rate_buckets := snd ?r\<rparr>"]) simp_all
  qed
qed

lemma validation_guards: "guards (validation_middleware nxt) nxt"
  unfolding guards_def
proof (intro allI)
  fix req g
  show "guards_at (validation_middleware nxt) nxt req g"
  proof (cases "valid_request req")
    case True
    then show ?thesis
      by (intro guards_at_pass [of _ req g nxt req g]) (simp_all add: validation_middleware_def)
  next
    case False
    then show ?thesis
      by (intro guards_at_reject [of _ req g g]) (simp_all add: validation_middleware_def)
  qed
qed

lemma tor_guards: "guards (tor_guard_middleware slot nxt) nxt"
  unfolding guards_def
proof (intro allI)
  fix req g
  show "guards_at (tor_guard_middleware slot nxt) nxt req g"
    by (rule guards_at_pass [of _ req g nxt "req\<lparr>ext_circuit := Some slot\<rparr>" g])
       (simp_all add: tor_guard_middleware_def)
qed

lemma inner_guards:
  "guards (stateless_auth_middleware L A E (rate_limit_middleware L R now (validation_middleware
     (tor_guard_middleware slot nxt)))) nxt"
  by (rule guards_trans [OF auth_guards guards_trans [OF rate_guards guards_trans [OF validation_guards tor_guards]]])

lemma build_router_eq:
  "build_router L A R E now slot routes req g =
     (let r = stateless_auth_middleware L A E (rate_limit_middleware L R now (validation_middleware
        (tor_guard_middleware slot (security_headers_middleware routes)))) req g
      in (unify_error (pad_response (fst r)), snd r))"
  by (simp add: build_router_def error_unifier_middleware_def response_padding_middleware_def
      split_beta Let_def)

lemma fold_headers:
  assumes "k \<notin> set (map fst kvs)"
  shows "foldl (\<lambda>hs (k, v). hs(k \<mapsto> v)) hs kvs k = hs k"
  using assms by (induction kvs arbitrary: hs) auto

lemma fold_headers_in:
  assumes "(k, v) \<in> set kvs" "distinct (map fst kvs)"
  shows "foldl (\<lambda>hs (k, v). hs(k \<mapsto> v)) hs kvs k = Some v"
  using assms
proof (induction kvs arbitrary: hs)
  case (Cons kv kvs)
  show ?case
  proof (cases "(k, v) \<in> set kvs")
    case False
    with Cons.prems have "kv = (k, v)" "k \<notin> set (map fst kvs)" by (auto simp: image_iff)
    then show ?thesis using fold_headers [of k kvs "hs(k \<mapsto> v)"] by (simp add: fun_upd_same del: fun_upd_apply)
  qed (use Cons in auto)
qed simp

lemma security_headers_set:
  assumes "(k, v) \<in> set security_headers"
  shows "resp_headers (fst (security_headers_middleware routes req g)) k = Some v"
proof -
  have dist: "distinct (map fst security_headers)" and "k \<noteq> ''onion-location''"
    using assms by (auto simp: security_headers_def)
  then show ?thesis
    using fold_headers_in [OF assms dist] by (auto simp: security_headers_middleware_def split_beta Let_def
        split: option.split)
qed

lemma security_headers_keep [simp]:
  "status (fst (security_headers_middleware routes req g)) = status (fst (routes req g))"
  "body (fst (security_headers_middleware routes req g)) = body (fst (routes req g))"
  "snd (security_headers_middleware routes req g) = snd (routes req g)"
  by (simp_all add: security_headers_middleware_def split_beta Let_def)

section \<open>Properties\<close>

text \<open>
  C24. Uniform answers: no response of the gateway has a 4xx status, and a request either is
  answered with the one error (status 500, the fixed JSON body padded to 4096 bytes, no security
  headers) without the API state changing, or is handed, with the same path, method and headers,
  to the router, whose 4xx answers lose their status and body and whose other answers are padded.
\<close>

theorem gateway_uniform:
  "\<not> is_client_error (status (fst (build_router L A R E now slot routes req g))) \<and>
   ((\<exists>g'. build_router L A R E now slot routes req g =
        (\<lparr>status = 500, body = json_error @ replicate 4079 32,
          resp_headers = [''content-type'' \<mapsto> ''application/json'', ''content-length'' \<mapsto> ''4096'']\<rparr>, g')
       \<and> api g' = api g)
    \<or> (\<exists>req' g1. api g1 = api g \<and> path req' = path req \<and> headers req' = headers req
        \<and> http_method req' = http_method req
        \<and> snd (build_router L A R E now slot routes req g) = snd (routes req' g1)
        \<and> status (fst (build_router L A R E now slot routes req g)) =
            (if is_client_error (status (fst (routes req' g1))) then 500 else status (fst (routes req' g1)))
        \<and> body (fst (build_router L A R E now slot routes req g)) =
            (if is_client_error (status (fst (routes req' g1))) then json_error
             else body (fst (routes req' g1)) @ replicate (4096 - length (body (fst (routes req' g1)))) 32)
        \<and> resp_headers (fst (build_router L A R E now slot routes req g)) ''x-frame-options'' = Some ''DENY''))"
proof (rule conjI)
  show "\<not> is_client_error (status (fst (build_router L A R E now slot routes req g)))"
    by (simp add: build_router_eq unify_error_status Let_def)
  let ?inner = "stateless_auth_middleware L A E (rate_limit_middleware L R now (validation_middleware
        (tor_guard_middleware slot (security_headers_middleware routes))))"
  have "guards_at ?inner (security_headers_middleware routes) req g"
    using inner_guards unfolding guards_def by blast
  then show "(\<exists>g'. build_router L A R E now slot routes req g =
        (\<lparr>status = 500, body = json_error @ replicate 4079 32,
          resp_headers = [''content-type'' \<mapsto> ''application/json'', ''content-length'' \<mapsto> ''4096'']\<rparr>, g')
       \<and> api g' = api g)
    \<or> (\<exists>req' g1. api g1 = api g \<and> path req' = path req \<and> headers req' = headers req
        \<and> http_method req' = http_method req
        \<and> snd (build_router L A R E now slot routes req g) = snd (routes req' g1)
        \<and> status (fst (build_router L A R E now slot routes req g)) =
            (if is_client_error (status (fst (routes req' g1))) then 500 else status (fst (routes req' g1)))
        \<and> body (fst (build_router L A R E now slot routes req g)) =
            (if is_client_error (status (fst (routes req' g1))) then json_error
             else body (fst (routes req' g1)) @ replicate (4096 - length (body (fst (routes req' g1)))) 32)
        \<and> resp_headers (fst (build_router L A R E now slot routes req g)) ''x-frame-options'' = Some ''DENY'')"
    unfolding guards_at_def
  proof (elim disjE exE conjE)
    fix g' assume "?inner req g = (error_response, g')" "api g' = api g"
    then show ?thesis
      by (intro disjI1 exI [of _ g'])
         (simp add: build_router_eq unify_error_def pad_response_def error_response_def is_client_error_def
           padded_size_def Let_def)
  next
    fix req' g1
    assume 1: "?inner req g = security_headers_middleware routes req' g1" "api g1 = api g" "path req' = path req"
      "headers req' = headers req" "http_method req' = http_method req"
    have "resp_headers (fst (security_headers_middleware routes req' g1)) ''x-frame-options'' = Some ''DENY''"
      by (rule security_headers_set) (simp add: security_headers_def)
    with 1 show ?thesis
      by (intro disjI2 exI [of _ req'] exI [of _ g1])
         (simp add: build_router_eq unify_error_def pad_response_def padded_size_def Let_def)
  qed
qed

text \<open>
  The answers are not as uniform as the code means them to be: an error of a handler comes
  back padded to 4096 bytes, but an error the router itself answers with a 4xx status (a malformed
  body or query, a wrong method) comes back as the 17 bytes of the fixed JSON body, because the
  error unifier rewrites it outside the padding layer.
\<close>

theorem error_answers_differ:
  assumes "public_path (path req)" "fst (rate_check R (get_rate_limit_key L req, now) (rate_buckets g))"
    and "valid_request req"
    and "\<And>req g. is_client_error (status (fst (routes1 req g)))" "\<And>req g. fst (routes2 req g) = reject e"
  shows "length (body (fst (build_router L A R E now slot routes1 req g))) = 17
    \<and> length (body (fst (build_router L A R E now slot routes2 req g))) = 4096
    \<and> status (fst (build_router L A R E now slot routes1 req g)) =
      status (fst (build_router L A R E now slot routes2 req g))"
proof -
  have run: "stateless_auth_middleware L A E (rate_limit_middleware L R now (validation_middleware
        (tor_guard_middleware slot (security_headers_middleware routes)))) req g =
      security_headers_middleware routes (req\<lparr>ext_circuit := Some slot\<rparr>)
        (g\<lparr>rate_buckets := snd (rate_check R (get_rate_limit_key L req, now) (rate_buckets g))\<rparr>)" for routes
    using assms(1-3)
    by (simp add: stateless_auth_middleware_def rate_limit_middleware_def validation_middleware_def
        tor_guard_middleware_def split_beta Let_def)
  show ?thesis
    using assms(4,5)
    by (simp add: build_router_eq run unify_error_def length_pad_response Let_def error_response_def
        is_client_error_def)
qed

definition login_request :: http_request where
  "login_request = \<lparr>http_method = ''GET'', path = ''/auth/challenge'', headers = [], ext_pubkey = None,
     ext_pubkey_bytes = None, ext_circuit = None\<rparr>"

lemma error_answers_differ_witness:
  "length (body (fst (build_router demo_ext plain_app (rate_limiter_new 30 60) plain_env 0 3
      (\<lambda>req g. (\<lparr>status = 405, body = [], resp_headers = (\<lambda>_. None)\<rparr>, g)) login_request empty_gateway))) = 17
   \<and> length (body (fst (build_router demo_ext plain_app (rate_limiter_new 30 60) plain_env 0 3
      (\<lambda>req g. (reject (NotFound []), g)) login_request empty_gateway))) = 4096"
  using error_answers_differ [of login_request "rate_limiter_new 30 60" demo_ext 0 empty_gateway
      "\<lambda>req g. (\<lparr>status = 405, body = [], resp_headers = (\<lambda>_. None)\<rparr>, g)" "\<lambda>req g. (reject (NotFound []), g)"
      "NotFound []" plain_app plain_env 3]
  by (simp add: public_path_def starts_with_def login_request_def valid_request_def header_def header_raw_def
      rate_check_def empty_gateway_def is_client_error_def max_path_length_def max_header_count_def)

end
