(* ===== verification/Auth.thy ===== *)
theory Auth
  imports Gateway
begin

text \<open>
  \<^verbatim>\<open>src/src/services/auth.rs\<close>: the challenge-response login that hands out the HMAC key of
  \<^verbatim>\<open>stateless_auth\<close>.  The store of open challenges is a process-wide map; the random bytes are
  arguments.
\<close>

section \<open>Operations\<close>

definition challenge_ttl_secs :: int where
  "challenge_ttl_secs = 300"

record challenge_response =
  ch_id :: string
  ch_challenge :: string

record verify_request =
  vr_pubkey :: string
  vr_challenge_id :: string
  vr_signature :: string

type_synonym challenge_store = "string \<Rightarrow> (bytes \<times> int) option"

definition cleanup_challenges :: "int \<Rightarrow> challenge_store \<Rightarrow> challenge_store" where
  "cleanup_challenges now store k =
     (case store k of Some (c, exp) \<Rightarrow> (if exp > now then Some (c, exp) else None) | None \<Rightarrow> None)"

definition challenge ::
    "ext \<Rightarrow> env \<Rightarrow> bytes \<Rightarrow> bytes \<Rightarrow> string \<Rightarrow> challenge_store \<Rightarrow> challenge_response res \<times> challenge_store" where
  "challenge L E challenge_bytes id_bytes pubkey store =
     then_do (ok_or (BadRequest ''invalid pubkey hex'') (hex_decode L pubkey), store) (\<lambda>pk store.
       if length pk \<noteq> 32 then (Inl (BadRequest ''invalid pubkey length''), store)
       else let cid = hex_encode L id_bytes;
                expires_at = wrap_i64 (unix_time E + challenge_ttl_secs);
                store = cleanup_challenges (unix_time E) store
            in (Inr \<lparr>ch_id = cid, ch_challenge = hex_encode L challenge_bytes\<rparr>,
                store(cid \<mapsto> (challenge_bytes, expires_at))))"

definition verify ::
    "ext \<Rightarrow> app \<Rightarrow> env \<Rightarrow> verify_request \<Rightarrow> challenge_store \<Rightarrow> string res \<times> challenge_store" where
  "verify L A E req store =
     then_do (ok_or (BadRequest ''invalid pubkey hex'') (hex_decode L (vr_pubkey req)), store) (\<lambda>pk store.
     then_do (require (length pk = 32) (BadRequest ''invalid pubkey length''), store) (\<lambda>_ store.
     then_do (ok_or (BadRequest ''invalid signature hex'') (hex_decode L (vr_signature req)), store) (\<lambda>sig store.
       let store = cleanup_challenges (unix_time E) store
       in case store (vr_challenge_id req) of
            None \<Rightarrow> (Inl (BadRequest ''challenge not found or expired''), store)
          | Some (challenge_bytes, _) \<Rightarrow>
             (and_then (require (ed_public_ok L pk) (BadRequest ''invalid pubkey'')) (\<lambda>_.
              and_then (require (length sig = 64) (BadRequest ''invalid signature encoding'')) (\<lambda>_.
              and_then (require (ed_verify L pk challenge_bytes sig)
                          (BadRequest ''signature verification failed'')) (\<lambda>_.
              and_then (ok_or (Internal ''auth key derivation failed'')
                          (derive_auth_key L (server_secret (app_server A)) pk)) (\<lambda>auth_key.
                Inr (hex_encode L auth_key))))),
              store(vr_challenge_id req := None)))))"

section \<open>Facts\<close>

lemma cleanup_Some:
  "cleanup_challenges now store k = Some (c, exp) \<longleftrightarrow> store k = Some (c, exp) \<and> now < exp"
  by (auto simp: cleanup_challenges_def split: option.splits)

lemma verify_cases:
  obtains (early) e where "verify L A E req store = (Inl e, store)"
  | (late) pk sig where "hex_decode L (vr_pubkey req) = Some pk" "length pk = 32"
      "hex_decode L (vr_signature req) = Some sig"
      "verify L A E req store =
        (let store = cleanup_challenges (unix_time E) store
         in case store (vr_challenge_id req) of
            None \<Rightarrow> (Inl (BadRequest ''challenge not found or expired''), store)
          | Some (challenge_bytes, _) \<Rightarrow>
             (and_then (require (ed_public_ok L pk) (BadRequest ''invalid pubkey'')) (\<lambda>_.
              and_then (require (length sig = 64) (BadRequest ''invalid signature encoding'')) (\<lambda>_.
              and_then (require (ed_verify L pk challenge_bytes sig)
                          (BadRequest ''signature verification failed'')) (\<lambda>_.
              and_then (ok_or (Internal ''auth key derivation failed'')
                          (derive_auth_key L (server_secret (app_server A)) pk)) (\<lambda>auth_key.
                Inr (hex_encode L auth_key))))),
              store(vr_challenge_id req := None)))"
proof (cases "hex_decode L (vr_pubkey req)")
  case pk: (Some pk)
  show ?thesis
  proof (cases "length pk = 32")
    case len: True
    show ?thesis
    proof (cases "hex_decode L (vr_signature req)")
      case (Some sig)
      with pk len show ?thesis by (intro late [of pk sig]) (simp_all add: verify_def)
    qed (use pk len in \<open>auto intro: early simp: verify_def\<close>)
  qed (use pk in \<open>auto intro: early simp: verify_def\<close>)
qed (auto intro: early simp: verify_def)

lemma verify_Inr:
  assumes "fst (verify L A E req store) = Inr key"
  obtains pk sig c exp where "hex_decode L (vr_pubkey req) = Some pk" "length pk = 32"
    "hex_decode L (vr_signature req) = Some sig" "length sig = 64"
    "store (vr_challenge_id req) = Some (c, exp)" "unix_time E < exp"
    "ed_public_ok L pk" "ed_verify L pk c sig"
    "map_option (hex_encode L) (derive_auth_key L (server_secret (app_server A)) pk) = Some key"
    "snd (verify L A E req store) = (cleanup_challenges (unix_time E) store)(vr_challenge_id req := None)"
proof (cases rule: verify_cases [of L A E req store])
  case (early e)
  with assms show ?thesis by simp
next
  case (late pk sig)
  show ?thesis
  proof (cases "cleanup_challenges (unix_time E) store (vr_challenge_id req)")
    case None
    with late assms show ?thesis by simp
  next
    case (Some ce)
    obtain c exp where ce: "ce = (c, exp)" by (cases ce)
    with Some have "store (vr_challenge_id req) = Some (c, exp)" "unix_time E < exp"
      by (simp_all add: cleanup_Some)
    with late assms Some ce show ?thesis by (intro that [of pk sig c exp]) auto
  qed
qed

lemma verify_keeps_closed:
  "store k = None \<Longrightarrow> snd (verify L A E req store) k = None"
  by (cases rule: verify_cases [of L A E req store])
     (auto simp: cleanup_challenges_def Let_def split: option.split)

interpretation challenge_once: single_use "\<lambda>(E, req). verify L A E req" is_ok "\<lambda>(E, req). vr_challenge_id req"
    "\<lambda>store. {k. store k = None}"
proof unfold_locales
  fix x :: "env \<times> verify_request" and s :: challenge_store
  obtain E req where x: "x = (E, req)" by (cases x)
  show "{k. s k = None} \<subseteq> {k. snd ((\<lambda>(E, req). verify L A E req) x s) k = None}"
    by (auto simp: x verify_keeps_closed)
  assume "is_ok (fst ((\<lambda>(E, req). verify L A E req) x s))"
  then obtain key where "fst (verify L A E req s) = Inr key" by (auto simp: x is_ok_iff)
  then have "s (vr_challenge_id req) \<noteq> None" "snd (verify L A E req s) (vr_challenge_id req) = None"
    by (auto elim!: verify_Inr)
  then show "(\<lambda>(E, req). vr_challenge_id req) x \<notin> {k. s k = None}"
    and "(\<lambda>(E, req). vr_challenge_id req) x \<in> {k. snd ((\<lambda>(E, req). verify L A E req) x s) k = None}"
    by (simp_all add: x)
qed

section \<open>Properties\<close>

text \<open>
  C18. A login succeeds only for the holder of the key: the challenge was open and not expired, the
  signature over its bytes verifies under the public key sent, and the key handed out is the one
  derived for that public key; the challenge is then closed, and whatever further login requests
  follow, none with this challenge id succeeds.
\<close>

theorem login_sound:
  assumes "fst (verify L A E req store) = Inr key"
  shows "(\<exists>pk sig c exp. hex_decode L (vr_pubkey req) = Some pk \<and> length pk = 32
       \<and> hex_decode L (vr_signature req) = Some sig \<and> length sig = 64
       \<and> store (vr_challenge_id req) = Some (c, exp) \<and> unix_time E < exp \<and> ed_verify L pk c sig
       \<and> map_option (hex_encode L) (derive_auth_key L (server_secret (app_server A)) pk) = Some key)
    \<and> (\<forall>j < length calls. vr_challenge_id (snd (calls ! j)) = vr_challenge_id req \<longrightarrow>
         \<not> is_ok (fst (run_ops (\<lambda>(E, req). verify L A E req) calls (snd (verify L A E req store))) ! j))"
proof (intro conjI allI impI)
  fix j assume "j < length calls" "vr_challenge_id (snd (calls ! j)) = vr_challenge_id req"
  moreover have "snd (verify L A E req store) (vr_challenge_id req) = None"
    using assms by (rule verify_Inr) simp
  ultimately show "\<not> is_ok (fst (run_ops (\<lambda>(E, req). verify L A E req) calls (snd (verify L A E req store))) ! j)"
    by (intro challenge_once.seen_rejected) (simp_all add: split_beta)
qed (rule verify_Inr [OF assms], blast)

definition sample_store :: challenge_store where
  "sample_store = [''ab'' \<mapsto> ([5], 36300)]"

definition sample_login :: verify_request where
  "sample_login = \<lparr>vr_pubkey = demo_hex (replicate 32 0), vr_challenge_id = ''ab'',
     vr_signature = demo_hex (replicate 64 9)\<rparr>"

lemma sample_login_ok: "\<exists>key. fst (verify demo_ext plain_app plain_env sample_login sample_store) = Inr key"
proof -
  have "hex_decode demo_ext (demo_hex b) = Some b" for b
    by (simp add: demo_ext_def demo_unhex_hex)
  then show ?thesis
    by (simp add: verify_def sample_login_def sample_store_def cleanup_challenges_def plain_env_def
        derive_auth_key_def Let_def) (simp add: demo_ext_def)
qed

lemma login_sound_witness:
  "\<not> is_ok (fst (verify demo_ext plain_app plain_env sample_login
      (snd (verify demo_ext plain_app plain_env sample_login sample_store))))"
proof -
  obtain key where "fst (verify demo_ext plain_app plain_env sample_login sample_store) = Inr key"
    using sample_login_ok by blast
  from login_sound [OF this, of "[(plain_env, sample_login)]"] show ?thesis by simp
qed

text \<open>
  From login to service: with the key a login returned, a client that computes the HMAC over
  its public key, the current hour, the path and a fresh nonce, and signs the challenge built from
  them, passes the authentication layer, and the handler sees its public key.
\<close>

theorem login_then_request:
  assumes "hex_ok L" "ed_ok L pub" "length (pub sk) = 32" "current_hour E \<le> u64_max"
    and "fst (verify L A E0 login store) = Inr (hex_encode L key)" "hex_decode L (vr_pubkey login) = Some (pub sk)"
    and "\<not> public_path (path req)"
    and "compute_hmac L key (pub sk) (current_hour E) (path req) nonce = Some mac"
    and "headers req = [(''x-auth-pubkey'', Some (hex_encode L (pub sk))), (''x-auth-hmac'', Some (hex_encode L mac)),
           (''x-auth-hour'', Some (dec (current_hour E))), (''x-auth-nonce'', Some (hex_encode L nonce)),
           (''x-auth-signature'', Some (hex_encode L (ed_sign L sk (build_challenge mac (pub sk) (current_hour E) nonce))))]"
    and "nonce \<notin> bucket (current_hour E) (nonce_buckets g)"
  shows "\<exists>cache. stateless_auth_middleware L A E nxt req g =
     nxt (req\<lparr>ext_pubkey := Some (blake3 L (pub sk)), ext_pubkey_bytes := Some (pub sk)\<rparr>)
       (g\<lparr>nonce_buckets := cache\<rparr>)"
proof -
  obtain pk where "hex_decode L (vr_pubkey login) = Some pk"
    "map_option (hex_encode L) (derive_auth_key L (server_secret (app_server A)) pk) = Some (hex_encode L key)"
    using assms(5) by (rule verify_Inr)
  then obtain k where k: "derive_auth_key L (server_secret (app_server A)) (pub sk) = Some k"
    "hex_encode L k = hex_encode L key"
    using assms(6) by auto
  have "k = key"
    using arg_cong [OF k(2), of "hex_decode L"] assms(1) by simp
  let ?h = "\<lparr>ah_pubkey = pub sk, ah_hmac = mac, ah_hour = current_hour E, ah_nonce = nonce,
       ah_sig = ed_sign L sk (build_challenge mac (pub sk) (current_hour E) nonce)\<rparr>"
  have read: "read_auth_headers L req = Inr ?h"
    using assms(1,3,4) by (simp add: read_auth_headers_def header_def header_raw_def assms(9) parse_u64_dec)
  have "check_credentials L A E (path req) ?h = Inr ()"
    using assms(2,8) k(1) \<open>k = key\<close>
    by (simp add: check_credentials_def verify_hmac_def verify_signature_def ed_ok_def Let_def)
  moreover have "fst (check_replay (current_hour E, nonce) (nonce_buckets g))"
    using assms(10) by (simp add: check_replay_fst)
  ultimately show ?thesis
    using assms(7) read
    by (intro exI [of _ "snd (check_replay (current_hour E, nonce) (nonce_buckets g))"])
       (simp add: stateless_auth_middleware_def split_beta Let_def hash_pubkey_def)
qed

definition signed_request :: http_request where
  "signed_request = \<lparr>http_method = ''GET'', path = ''/orders/01'',
     headers = [(''x-auth-pubkey'', Some (demo_hex (replicate 32 0))), (''x-auth-hmac'', Some (demo_hex (replicate 32 83))),
       (''x-auth-hour'', Some ''10''), (''x-auth-nonce'', Some (demo_hex [3])),
       (''x-auth-signature'', Some (demo_hex (replicate 64 9)))],
     ext_pubkey = None, ext_pubkey_bytes = None, ext_circuit = None\<rparr>"

lemma login_then_request_witness:
  "\<exists>cache. stateless_auth_middleware demo_ext plain_app plain_env (\<lambda>req g. (error_response, g)) signed_request empty_gateway =
     (error_response, empty_gateway\<lparr>nonce_buckets := cache\<rparr>)"
proof -
  have h: "current_hour plain_env = 10"
    by (simp add: current_hour_def plain_env_def trunc_div_def i64_as_u64_def)
  have d: "dec 10 = ''10''" by code_simp
  have login: "fst (verify demo_ext plain_app plain_env sample_login sample_store) =
      Inr (hex_encode demo_ext (replicate 32 54))"
    using demo_unhex_hex
    by (simp add: verify_def sample_login_def sample_store_def cleanup_challenges_def plain_env_def
        derive_auth_key_def Let_def demo_ext_def plain_app_def default_server_config_def)
  have pk: "hex_decode demo_ext (vr_pubkey sample_login) = Some (replicate 32 0)"
    by (simp add: sample_login_def demo_ext_def demo_unhex_hex)
  show ?thesis
    using login_then_request [where L = demo_ext and pub = "\<lambda>_. replicate 32 0" and sk = "[]" and E = plain_env
        and A = plain_app and ?E0.0 = plain_env and login = sample_login and store = sample_store
        and key = "replicate 32 54" and req = signed_request and nonce = "[3]" and mac = "replicate 32 83"
        and g = empty_gateway and nxt = "\<lambda>req g. (error_response, g)",
        OF demo_hex_ok demo_ed_ok] login pk
    by (simp add: h d u64_max_def public_path_def starts_with_def signed_request_def compute_hmac_def demo_ext_sel
        bucket_def empty_gateway_def)
qed

end
