(* ===== verification/Client_Crypto.thy ===== *)
theory Client_Crypto
  imports Oblivious Hmac_Auth Stateless_Auth Config
begin

text \<open>
  The client's side of the encryption: \<^verbatim>\<open>src/src/crypto/client.rs\<close>, the WASM module
  (\<^verbatim>\<open>src/wasm/src\<close>), the publication of the worker's payment key
  (\<^verbatim>\<open>crypto/worker_pubkey.rs\<close>, \<^verbatim>\<open>services/public.rs\<close>) and \<^verbatim>\<open>crypto/wallet.rs\<close>.
  Random bytes are arguments.
\<close>

section \<open>Key pairs\<close>

record keypair =
  kp_secret :: bytes
  kp_public :: bytes

definition keypair_from_secret :: "ext \<Rightarrow> bytes \<Rightarrow> keypair" where
  "keypair_from_secret L secret = \<lparr>kp_secret = secret, kp_public = x25519_public L secret\<rparr>"

definition keypair_generate :: "ext \<Rightarrow> bytes \<Rightarrow> keypair" where
  "keypair_generate L random = keypair_from_secret L random"

text \<open>The WASM key pair.\<close>

definition wasm_generate_keypair :: "ext \<Rightarrow> bytes \<Rightarrow> keypair" where
  "wasm_generate_keypair L random = \<lparr>kp_secret = random, kp_public = x25519_public L random\<rparr>"

section \<open>\<open>nonce || ciphertext\<close> under a plain key\<close>

text \<open>The steps all four encryptions share, with the message of a refused key and a failed cipher.\<close>

definition seal_with :: "ext \<Rightarrow> bytes \<Rightarrow> bytes \<Rightarrow> bytes \<Rightarrow> string \<Rightarrow> string \<Rightarrow> string + bytes" where
  "seal_with L nonce plaintext key bad_key failed =
     and_then (ok_or bad_key (cipher_new key)) (\<lambda>cipher.
     and_then (ok_or failed (aead_encrypt L cipher nonce plaintext)) (\<lambda>c. Inr (nonce @ c)))"

definition open_with :: "ext \<Rightarrow> bytes \<Rightarrow> bytes \<Rightarrow> string \<Rightarrow> string \<Rightarrow> string + bytes" where
  "open_with L blob key bad_key failed =
     and_then (ok_or bad_key (cipher_new key)) (\<lambda>cipher.
       ok_or failed (aead_decrypt L cipher (take 12 blob) (drop 12 blob)))"

definition encrypt_message :: "ext \<Rightarrow> bytes \<Rightarrow> bytes \<Rightarrow> bytes \<Rightarrow> bytes \<Rightarrow> string + bytes" where
  "encrypt_message L nonce plaintext recipient_pubkey sender_seckey =
     seal_with L nonce plaintext (x25519_dh L sender_seckey recipient_pubkey) ''Invalid key'' ''Encryption failed''"

definition decrypt_message :: "ext \<Rightarrow> bytes \<Rightarrow> bytes \<Rightarrow> bytes \<Rightarrow> string + bytes" where
  "decrypt_message L blob sender_pubkey recipient_seckey =
     (if length blob < 12 then Inl ''Ciphertext too short''
      else open_with L blob (x25519_dh L recipient_seckey sender_pubkey) ''Invalid key'' ''Decryption failed'')"

text \<open>\<open>to_vec\<close> serialises the object of title, description and metadata; \<open>from_slice\<close> parses it.\<close>

definition encrypt_listing_content ::
    "ext \<Rightarrow> (string \<Rightarrow> string \<Rightarrow> 'j \<Rightarrow> bytes option) \<Rightarrow> bytes \<Rightarrow> string \<Rightarrow> string \<Rightarrow> 'j \<Rightarrow> bytes \<Rightarrow> string + bytes" where
  "encrypt_listing_content L to_vec nonce title description metadata content_key =
     and_then (ok_or ''Serialization failed'' (to_vec title description metadata)) (\<lambda>plaintext.
       seal_with L nonce plaintext content_key ''Invalid key'' ''Encryption failed'')"

definition decrypt_listing_content :: "ext \<Rightarrow> (bytes \<Rightarrow> 'v option) \<Rightarrow> bytes \<Rightarrow> bytes \<Rightarrow> string + 'v" where
  "decrypt_listing_content L from_slice encrypted content_key =
     (if length encrypted < 12 then Inl ''Encrypted data too short''
      else and_then (open_with L encrypted content_key ''Invalid key'' ''Decryption failed'') (\<lambda>p.
             ok_or ''Deserialization failed'' (from_slice p)))"

definition wasm_encrypt_listing :: "ext \<Rightarrow> bytes \<Rightarrow> bytes \<Rightarrow> bytes \<Rightarrow> string + bytes" where
  "wasm_encrypt_listing L nonce plaintext content_key =
     (if length content_key \<noteq> 32 then Inl ''content_key must be 32 bytes''
      else seal_with L nonce plaintext content_key ''invalid content key'' ''listing encryption failed'')"

definition wasm_decrypt_listing :: "ext \<Rightarrow> bytes \<Rightarrow> bytes \<Rightarrow> string + bytes" where
  "wasm_decrypt_listing L blob content_key =
     (if length content_key \<noteq> 32 then Inl ''content_key must be 32 bytes''
      else if length blob < 12 + 1 then Inl ''ciphertext too short''
      else open_with L blob content_key ''invalid content key'' ''listing decryption failed'')"

section \<open>Orders for the worker\<close>

text \<open>\<open>Inl\<close>: the string thrown, or the message of the \<^verbatim>\<open>expect\<close> that panicked.\<close>

definition wasm_encrypt_order :: "ext \<Rightarrow> bytes \<Rightarrow> bytes \<Rightarrow> bytes \<Rightarrow> bytes \<Rightarrow> string + bytes" where
  "wasm_encrypt_order L ephemeral_sk nonce plaintext recipient_pubkey =
     (if length recipient_pubkey \<noteq> 32 then Inl ''recipient_pubkey must be 32 bytes''
      else
        let ephemeral_pk = x25519_public L ephemeral_sk;
            shared = x25519_dh L ephemeral_sk recipient_pubkey
        in and_then (ok_or ''HKDF expand must not fail'' (hkdf_sha256 L shared (as_bytes ''tor-marketplace-order-key-v1''))) (\<lambda>key.
           and_then (ok_or ''Key is 32 bytes'' (cipher_new key)) (\<lambda>cipher.
           and_then (ok_or ''Encryption must not fail'' (aead_encrypt L cipher nonce plaintext)) (\<lambda>c.
             Inr (ephemeral_pk @ nonce @ c)))))"

definition wasm_decrypt_order :: "ext \<Rightarrow> bytes \<Rightarrow> bytes \<Rightarrow> string + bytes" where
  "wasm_decrypt_order L blob secret_key =
     (if length secret_key \<noteq> 32 then Inl ''secret_key must be 32 bytes''
      else if length blob < 32 + 12 then Inl ''ciphertext too short''
      else
        let shared = x25519_dh L secret_key (take 32 blob)
        in and_then (ok_or ''HKDF expand failed'' (hkdf_sha256 L shared (as_bytes ''tor-marketplace-order-key-v1''))) (\<lambda>key.
           and_then (ok_or ''invalid key'' (cipher_new key)) (\<lambda>cipher.
             ok_or ''decryption failed'' (aead_decrypt L cipher (take 12 (drop 32 blob)) (drop (32 + 12) blob)))))"

section \<open>The worker's payment key\<close>

definition dev_pubkey_filename :: string where
  "dev_pubkey_filename = ''dev_worker_payment_pubkey.hex''"

text \<open>\<^verbatim>\<open>Path::join\<close> with a relative file name.\<close>

definition dev_pubkey_path :: "string \<Rightarrow> string" where
  "dev_pubkey_path dir =
     (if dir = [] \<or> last dir = CHR ''/'' then dir @ dev_pubkey_filename
      else dir @ ''/'' @ dev_pubkey_filename)"

text \<open>\<^const>\<open>None\<close>: the key derivation panics.\<close>

definition payment_pubkey_hex_from_worker_key :: "ext \<Rightarrow> bytes \<Rightarrow> string option" where
  "payment_pubkey_hex_from_worker_key L worker_key =
     map_option (\<lambda>sk. hex_encode L (x25519_public L sk)) (derive_domain_key L worker_key ''payment-decrypt'')"

definition is_hexdigit :: "char \<Rightarrow> bool" where
  "is_hexdigit c = (let n = (of_char c :: nat) in 48 \<le> n \<and> n \<le> 57 \<or> 65 \<le> n \<and> n \<le> 70 \<or> 97 \<le> n \<and> n \<le> 102)"

definition ascii_lower :: "string \<Rightarrow> string" where
  "ascii_lower s = map (\<lambda>c. let n = (of_char c :: nat) in if 65 \<le> n \<and> n \<le> 90 then char_of (n + 32) else c) s"

definition read_dev_pubkey_file :: "outside \<Rightarrow> string \<Rightarrow> string option" where
  "read_dev_pubkey_file X dir =
     (case read_file X (dev_pubkey_path dir) of
        Inl _ \<Rightarrow> None
      | Inr contents \<Rightarrow>
         (let t = trim contents
          in if length t = 64 \<and> list_all is_hexdigit t then Some (ascii_lower t) else None))"

definition resolve_worker_payment_pubkey :: "outside \<Rightarrow> string \<Rightarrow> string option \<Rightarrow> string option" where
  "resolve_worker_payment_pubkey X dir config_hex =
     (let env = (case env_var X ''WORKER_PAYMENT_PUBKEY_HEX'' of Some v \<Rightarrow> trim v | None \<Rightarrow> []);
          cfg = (case config_hex of Some h \<Rightarrow> trim h | None \<Rightarrow> [])
      in if env \<noteq> [] then Some env else if cfg \<noteq> [] then Some cfg else read_dev_pubkey_file X dir)"

text \<open>\<^verbatim>\<open>GET /public/worker-pubkey\<close>: the answer's only member.\<close>

definition worker_pubkey :: "outside \<Rightarrow> config \<Rightarrow> string option" where
  "worker_pubkey X G =
     resolve_worker_payment_pubkey X (data_dir (cfg_server G)) (worker_payment_pubkey_hex (cfg_security G))"

section \<open>Tokens\<close>

definition generate_single_token :: "ext \<Rightarrow> string \<Rightarrow> bytes \<Rightarrow> bytes" where
  "generate_single_token L keyword search_key = blake3 L (as_bytes keyword @ search_key)"

definition wasm_search_token :: "ext \<Rightarrow> string \<Rightarrow> bytes \<Rightarrow> bytes" where
  "wasm_search_token L keyword search_key = blake3 L (as_bytes keyword @ search_key)"

text \<open>\<^verbatim>\<open>split_whitespace\<close>: \<open>word\<close> is the word being read, in reverse.\<close>

function words_from :: "string \<Rightarrow> string \<Rightarrow> string list" where
  "words_from word s =
     (case strip_any whitespace s of
        Some t \<Rightarrow> (if word = [] then [] else [rev word]) @ words_from [] t
      | None \<Rightarrow> (case s of [] \<Rightarrow> (if word = [] then [] else [rev word]) | c # cs \<Rightarrow> words_from (c # word) cs))"
  by pat_completeness auto
termination
  by (relation "measure (\<lambda>(word, s). length s)") (auto dest: strip_any_shorter)

declare words_from.simps [simp del]

definition generate_search_tokens :: "ext \<Rightarrow> string \<Rightarrow> bytes \<Rightarrow> bytes list" where
  "generate_search_tokens L content search_key =
     map (\<lambda>w. blake3 L (as_bytes w @ search_key)) (filter (\<lambda>w. \<not> length w < 2) (words_from [] content))"

definition wasm_compute_hmac_token :: "ext \<Rightarrow> bytes \<Rightarrow> bytes \<Rightarrow> nat \<Rightarrow> string \<Rightarrow> bytes \<Rightarrow> bytes option" where
  "wasm_compute_hmac_token L auth_key pubkey hour p nonce =
     hmac_sha256 L auth_key (pubkey @ u64_le_bytes hour @ as_bytes p @ nonce)"

section \<open>Wallet signatures\<close>

datatype wallet_algorithm = Ed25519 | Secp256k1

text \<open>The \<^verbatim>\<open>k256\<close> crate: does the key parse, does the signature, and does it verify.\<close>

record k256 =
  k_key_ok :: "bytes \<Rightarrow> bool"
  k_sig_ok :: "bytes \<Rightarrow> bool"
  k_verify :: "bytes \<Rightarrow> bytes \<Rightarrow> bytes \<Rightarrow> bool"

definition verify_ed25519 :: "ext \<Rightarrow> bytes \<Rightarrow> bytes \<Rightarrow> bytes \<Rightarrow> string + unit" where
  "verify_ed25519 L pubkey message signature =
     and_then (require (length pubkey = 32) ''Invalid pubkey length'') (\<lambda>_.
     and_then (require (ed_public_ok L pubkey) ''Invalid public key'') (\<lambda>_.
     and_then (require (length signature = 64) ''Invalid signature'') (\<lambda>_.
       require (ed_verify L pubkey message signature) ''Signature verification failed'')))"

definition verify_secp256k1 :: "k256 \<Rightarrow> bytes \<Rightarrow> bytes \<Rightarrow> bytes \<Rightarrow> string + unit" where
  "verify_secp256k1 K pubkey message signature =
     and_then (require (k_key_ok K pubkey) ''Invalid public key'') (\<lambda>_.
     and_then (require (k_sig_ok K signature) ''Invalid signature'') (\<lambda>_.
       require (k_verify K pubkey message signature) ''Signature verification failed''))"

definition wallet_verify :: "ext \<Rightarrow> k256 \<Rightarrow> wallet_algorithm \<Rightarrow> bytes \<Rightarrow> bytes \<Rightarrow> bytes \<Rightarrow> string + unit" where
  "wallet_verify L K algorithm pubkey message signature =
     (case algorithm of
        Ed25519 \<Rightarrow> verify_ed25519 L pubkey message signature
      | Secp256k1 \<Rightarrow> verify_secp256k1 K pubkey message signature)"

section \<open>Round trips\<close>

lemma open_seal_with:
  assumes "aead_ok L" "length nonce = 12" "seal_with L nonce p key e1 e2 = Inr b"
  shows "open_with L b key e3 e4 = Inr p \<and> length b = length p + 28"
  using assms by (auto simp: seal_with_def open_with_def aead_roundtrip aead_length)

lemma message_roundtrip:
  assumes "aead_ok L" "x25519_ok L" "length nonce = 12"
    and "encrypt_message L nonce p (x25519_public L b) a = Inr c"
  shows "decrypt_message L c (x25519_public L a) b = Inr p"
proof -
  have "x25519_dh L b (x25519_public L a) = x25519_dh L a (x25519_public L b)"
    using assms(2) by (auto simp: x25519_ok_def)
  with open_seal_with [OF assms(1,3) assms(4) [unfolded encrypt_message_def]] show ?thesis
    by (simp add: decrypt_message_def)
qed

lemma listing_roundtrip:
  assumes "aead_ok L" "length nonce = 12" "wasm_encrypt_listing L nonce p k = Inr c"
  shows "wasm_decrypt_listing L c k = Inr p"
  using assms open_seal_with [OF assms(1,2)]
  by (auto simp: wasm_encrypt_listing_def wasm_decrypt_listing_def split: if_splits)

text \<open>The client's blob is the server's ECDH blob.\<close>

lemma wasm_encrypt_order_eq:
  "length pk = 32 \<Longrightarrow> wasm_encrypt_order L esk n p pk = Inr b \<longleftrightarrow> encrypt_ecdh_blob L esk n p pk = Some b"
  by (auto simp: wasm_encrypt_order_def encrypt_ecdh_blob_def ecdh_info_def split: option.splits)

lemma client_order_opens:
  assumes "aead_ok L" "x25519_ok L" "hex_ok L" "length nonce = 12"
    and "payment_pubkey_hex_from_worker_key L worker_key = Some published" "hex_decode L published = Some pk"
    and "wasm_encrypt_order L ephemeral_sk nonce plaintext pk = Inr blob"
  shows "\<exists>sk. derive_domain_key L worker_key ''payment-decrypt'' = Some sk
     \<and> decrypt_ecdh_blob L blob sk = Some plaintext \<and> length blob = length plaintext + 60"
proof -
  obtain sk where sk: "derive_domain_key L worker_key ''payment-decrypt'' = Some sk" "pk = x25519_public L sk"
    using assms(3,5,6) by (auto simp: payment_pubkey_hex_from_worker_key_def hex_ok_def)
  have "length pk = 32" using assms(2) sk(2) by (auto simp: x25519_ok_def)
  with assms(7) have enc: "encrypt_ecdh_blob L ephemeral_sk nonce plaintext (x25519_public L sk) = Some blob"
    by (simp add: wasm_encrypt_order_eq sk(2))
  moreover have "length (x25519_public L ephemeral_sk) = 32" using assms(2) by (auto simp: x25519_ok_def)
  ultimately have "length blob = length plaintext + 60"
    using assms(1,4) by (auto simp: encrypt_ecdh_blob_def aead_length split: option.splits)
  with ecdh_roundtrip [OF assms(1,2,4) enc] sk(1) show ?thesis by simp
qed

text \<open>
  C34. A browser's order reaches the worker: sealed by the WASM client for the key that the hex
  string published by the worker decodes to, the blob opens to the same plaintext with the payment key the worker
  derives from its own key, and is 60 bytes longer than the plaintext.
\<close>

theorem client_order_reaches_worker:
  assumes "aead_ok L" "x25519_ok L" "hex_ok L" "length nonce = 12"
    and "payment_pubkey_hex_from_worker_key L worker_key = Some published" "hex_decode L published = Some pk"
    and "wasm_encrypt_order L ephemeral_sk nonce plaintext pk = Inr blob"
  shows "\<exists>sk. derive_domain_key L worker_key ''payment-decrypt'' = Some sk
     \<and> decrypt_ecdh_blob L blob sk = Some plaintext \<and> length blob = length plaintext + 60"
  using assms by (rule client_order_opens)

lemma client_order_reaches_worker_witness:
  "\<exists>published pk blob sk. payment_pubkey_hex_from_worker_key demo_ext (replicate 32 3) = Some published
     \<and> hex_decode demo_ext published = Some pk \<and> wasm_encrypt_order demo_ext [1] (replicate 12 0) [5, 6] pk = Inr blob
     \<and> derive_domain_key demo_ext (replicate 32 3) ''payment-decrypt'' = Some sk \<and> decrypt_ecdh_blob demo_ext blob sk = Some [5, 6]"
proof -
  obtain published pk where p: "payment_pubkey_hex_from_worker_key demo_ext (replicate 32 3) = Some published"
    "hex_decode demo_ext published = Some pk" "length pk = 32"
    by (simp add: payment_pubkey_hex_from_worker_key_def derive_domain_key_def demo_ext_sel demo_unhex_hex)
  obtain blob where b: "wasm_encrypt_order demo_ext [1] (replicate 12 0) [5, 6] pk = Inr blob"
    using p(3) by (simp add: wasm_encrypt_order_def demo_ext_sel cipher_new_def)
  have "length (replicate 12 0 :: bytes) = 12" by simp
  from client_order_reaches_worker [OF demo_aead_ok demo_x25519_ok demo_hex_ok this p(1,2) b] p b show ?thesis by blast
qed

text \<open>The server's middleware accepts the token the WASM client computes.\<close>

lemma wasm_token_verifies:
  "wasm_compute_hmac_token L k pk hour p nonce = Some t \<Longrightarrow> verify_hmac L k pk hour p nonce t"
  by (simp add: wasm_compute_hmac_token_def verify_hmac_def compute_hmac_def)

text \<open>All three search tokens are the same function.\<close>

lemma search_tokens_agree:
  "wasm_search_token L = generate_single_token L" "generate_single_token L = search_token_generate L"
  by (simp_all add: fun_eq_iff wasm_search_token_def generate_single_token_def search_token_generate_def)

end
