(* ===== verification/Time_Lock.thy ===== *)
theory Time_Lock
  imports Sealed_Orders
begin

text \<open>
  \<^verbatim>\<open>src/src/background/time_lock.rs\<close>: the worker pass that lets orders run into their time locks.
  Each handler is the decision it takes on the order's data, then the write.
\<close>

section \<open>Decisions\<close>

definition has_active_dispute :: "order_data \<Rightarrow> bool" where
  "has_active_dispute d = (case dispute d of Some x \<Rightarrow> resolved_at x = None | None \<Rightarrow> False)"

definition release_step :: "int \<Rightarrow> order_data \<Rightarrow> order_data option" where
  "release_step now d =
     (if has_active_dispute d then None
      else if \<not> can_transition_to d ''released'' then None
      else let shipped = unwrap_or (shipped_at d) (created_at d);
               release_time = saturating_add_i64 shipped (time_lock_seconds d)
           in if now \<ge> release_time
              then Some (d\<lparr>order_state := ''released'', released_at := Some now\<rparr>)
              else None)"

definition auto_dispute_data :: "ext \<Rightarrow> string \<Rightarrow> int \<Rightarrow> order_data \<Rightarrow> dispute_data" where
  "auto_dispute_data L uuid now d =
     \<lparr>dd_id = uuid, opened_by = hex_encode L (buyer_pubkey_hash d),
      reason = ''Auto-dispute: seller timeout after 2x time lock'',
      resolution = None, resolved_by = None, resolved_at = None, dd_created_at = now, evidence = []\<rparr>"

definition abandon_step :: "ext \<Rightarrow> string \<Rightarrow> int \<Rightarrow> order_data \<Rightarrow> order_data option" where
  "abandon_step L uuid now d =
     (if has_active_dispute d then None
      else if \<not> can_transition_to d ''disputed'' then None
      else let funded = unwrap_or (funded_at d) (created_at d);
               ship_window = saturating_mul_i64 (time_lock_seconds d) 2;
               abandon_time = saturating_add_i64 funded ship_window
           in if now \<ge> abandon_time
              then Some (d\<lparr>order_state := ''disputed'', disputed_at := Some now,
                           expires_at := Some (saturating_add_i64 now (time_lock_seconds d)),
                           dispute_id := Some uuid, dispute := Some (auto_dispute_data L uuid now d)\<rparr>)
              else None)"

definition auto_resolve :: "int \<Rightarrow> dispute_data \<Rightarrow> dispute_data" where
  "auto_resolve now x =
     (if resolved_at x = None
      then x\<lparr>resolution := Some ''refund'', resolved_by := Some ''auto_system'', resolved_at := Some now\<rparr>
      else x)"

definition refund_step :: "int \<Rightarrow> order_data \<Rightarrow> order_data option" where
  "refund_step now d =
     (if \<not> can_transition_to d ''refunded'' then None
      else let expires = unwrap_or (expires_at d) (saturating_add_i64 (created_at d) (time_lock_seconds d))
           in if now \<ge> expires
              then Some (d\<lparr>dispute := map_option (auto_resolve now) (dispute d),
                           order_state := ''refunded'', refunded_at := Some now\<rparr>)
              else None)"

section \<open>Handlers and the pass\<close>

definition write_step ::
    "ext \<Rightarrow> wenv \<Rightarrow> bytes \<Rightarrow> bytes \<Rightarrow> order_data option \<Rightarrow> int \<Rightarrow> orders \<Rightarrow> (string + unit) \<times> orders" where
  "write_step L W key i d' version rows =
     (case d' of None \<Rightarrow> (Inr (), rows) | Some d \<Rightarrow> write_order L W key i d version rows)"

definition handle_shipped ::
    "ext \<Rightarrow> wenv \<Rightarrow> bytes \<Rightarrow> bytes \<Rightarrow> order_data \<Rightarrow> int \<Rightarrow> int \<Rightarrow> orders \<Rightarrow> (string + unit) \<times> orders" where
  "handle_shipped L W key i d now version rows = write_step L W key i (release_step now d) version rows"

definition handle_funded ::
    "ext \<Rightarrow> wenv \<Rightarrow> bytes \<Rightarrow> bytes \<Rightarrow> order_data \<Rightarrow> int \<Rightarrow> int \<Rightarrow> orders \<Rightarrow> (string + unit) \<times> orders" where
  "handle_funded L W key i d now version rows =
     write_step L W key i (abandon_step L (w_uuid W i) now d) version rows"

definition handle_disputed ::
    "ext \<Rightarrow> wenv \<Rightarrow> bytes \<Rightarrow> bytes \<Rightarrow> order_data \<Rightarrow> int \<Rightarrow> int \<Rightarrow> orders \<Rightarrow> (string + unit) \<times> orders" where
  "handle_disputed L W key i d now version rows = write_step L W key i (refund_step now d) version rows"

text \<open>One iteration, on the row as it was loaded and the table as it is now.\<close>

definition time_lock_order ::
    "ext \<Rightarrow> wenv \<Rightarrow> bytes \<Rightarrow> int \<Rightarrow> order \<Rightarrow> orders \<Rightarrow> (string + unit) \<times> orders" where
  "time_lock_order L W key now r rows =
     (case open_order L key r of
        None \<Rightarrow> (Inr (), rows)
      | Some d \<Rightarrow>
         (if order_state d = ''shipped'' then handle_shipped L W key (o_id r) d now (o_version r) rows
          else if order_state d = ''funded'' then handle_funded L W key (o_id r) d now (o_version r) rows
          else if order_state d = ''disputed'' then handle_disputed L W key (o_id r) d now (o_version r) rows
          else (Inr (), rows)))"

definition check_time_locks :: "ext \<Rightarrow> app \<Rightarrow> wenv \<Rightarrow> orders \<Rightarrow> (string + unit) \<times> orders" where
  "check_time_locks L A W rows =
     (let now = floor_timestamp_6h (w_time W)
      in then_do (get_worker_key A, rows) (\<lambda>key rows.
           case w_load_fault W of
             Some e \<Rightarrow> (Inl e, rows)
           | None \<Rightarrow> for_each (time_lock_order L W key now) rows rows))"

section \<open>The steps obey the state machine\<close>

interpretation release: guarded_step "release_step now"
  by unfold_locales (auto simp: release_step_def Let_def split: if_splits)

interpretation abandon: guarded_step "abandon_step L uuid now"
  by unfold_locales (auto simp: abandon_step_def Let_def split: if_splits)

interpretation refund: guarded_step "refund_step now"
  by unfold_locales (auto simp: refund_step_def Let_def split: if_splits)

text \<open>What the pass decides for an order's data.\<close>

definition time_lock_step :: "ext \<Rightarrow> string \<Rightarrow> int \<Rightarrow> order_data \<Rightarrow> order_data option" where
  "time_lock_step L uuid now d =
     (if order_state d = ''shipped'' then release_step now d
      else if order_state d = ''funded'' then abandon_step L uuid now d
      else if order_state d = ''disputed'' then refund_step now d else None)"

lemma time_lock_step_cases:
  assumes "time_lock_step L uuid now d = Some d'"
  obtains (release) "release_step now d = Some d'" | (abandon) "abandon_step L uuid now d = Some d'"
  | (refund) "refund_step now d = Some d'"
  using assms unfolding time_lock_step_def by (meson option.distinct(1))

interpretation time_lock: guarded_step "time_lock_step L uuid now"
  by unfold_locales (erule time_lock_step_cases, (erule release.step_allowed abandon.step_allowed refund.step_allowed)+)

lemma time_lock_order_eq:
  "time_lock_order L W key now r rows =
     (case open_order L key r of None \<Rightarrow> (Inr (), rows)
      | Some d \<Rightarrow> write_step L W key (o_id r) (time_lock_step L (w_uuid W (o_id r)) now d) (o_version r) rows)"
  by (auto simp: time_lock_order_def time_lock_step_def handle_shipped_def handle_funded_def
      handle_disputed_def write_step_def split: option.split)

text \<open>A shipped order is never released: the state machine has no such transition.\<close>

lemma release_step_shipped: "order_state d = ''shipped'' \<Longrightarrow> release_step now d = None"
  by (simp add: release_step_def transitions_of_def)

lemma write_step_frame:
  "orders_wf rows \<Longrightarrow> orders_wf (snd (write_step L W key i d' v rows))"
  "orders_evolve rows (snd (write_step L W key i d' v rows))"
  "j \<noteq> i \<Longrightarrow> select_order j (snd (write_step L W key i d' v rows)) = select_order j rows"
  by (auto simp: write_step_def write_order_def write_sealed_wf write_sealed_evolves write_sealed_other split: option.split)

text \<open>What the pass makes of a loaded row, if the ciphers and the serialisation invert.\<close>

definition time_lock_done :: "ext \<Rightarrow> wenv \<Rightarrow> bytes \<Rightarrow> int \<Rightarrow> order \<Rightarrow> order \<Rightarrow> order \<Rightarrow> bool" where
  "time_lock_done L W key now x r r' \<longleftrightarrow>
     (x = r \<longrightarrow>
       (case open_order L key r of None \<Rightarrow> r' = r
        | Some d \<Rightarrow> (case time_lock_step L (w_uuid W (o_id r)) now d of None \<Rightarrow> r' = r
            | Some d' \<Rightarrow> worker_laws L W \<longrightarrow> rewritten L key d' r r'
                \<and> expiry_bucket r' = map_option floor_timestamp_6h (expires_at d'))))"

interpretation locks: row_pass "time_lock_order L W key now" "\<lambda>rows. rows" o_id "time_lock_done L W key now" o_id o_version
  unfolding row_pass_def orders_wf_def [symmetric]
proof (intro conjI allI impI)
  fix rows :: orders and x r j
  show "orders_wf rows \<Longrightarrow> orders_wf (snd (time_lock_order L W key now x rows))"
    by (simp add: time_lock_order_eq write_step_frame split: option.split)
  show "orders_evolve rows (snd (time_lock_order L W key now x rows))"
    by (simp add: time_lock_order_eq write_step_frame split: option.split)
  show "j \<noteq> o_id x \<Longrightarrow> select_order j (snd (time_lock_order L W key now x rows)) = select_order j rows"
    by (simp add: time_lock_order_eq write_step_frame split: option.split)
  assume wf: "orders_wf rows" and r: "select_order (o_id x) rows = Some r"
  show "\<exists>r'. select_order (o_id x) (snd (time_lock_order L W key now x rows)) = Some r'
         \<and> (if is_ok (fst (time_lock_order L W key now x rows)) then time_lock_done L W key now x r r' else r' = r)"
  proof (cases "\<exists>d d'. open_order L key x = Some d \<and> time_lock_step L (w_uuid W (o_id x)) now d = Some d'")
    case False
    then have "time_lock_order L W key now x rows = (Inr (), rows)"
      by (auto simp: time_lock_order_eq write_step_def split: option.split)
    then show ?thesis using False r by (auto simp: time_lock_done_def split: option.split)
  next
    case True
    then obtain d d' where d: "open_order L key x = Some d" "time_lock_step L (w_uuid W (o_id x)) now d = Some d'"
      by blast
    then have eq: "time_lock_order L W key now x rows = write_sealed L W key (o_id x) d' (set_blob_expiry d') (o_version x) rows"
      by (simp add: time_lock_order_eq write_step_def write_order_def)
    show ?thesis
      using wf r
    proof (cases rule: write_sealed_cases [of rows "o_id x" r L W key d' "set_blob_expiry d'" "o_version x"])
      case failed
      then show ?thesis by (simp add: eq)
    next
      case (written blob)
      have "worker_laws L W \<Longrightarrow> x = r \<Longrightarrow> rewritten L key d' r (apply_order_write (set_blob_expiry d' blob) r)"
        using written(2) by (intro sealed_rewritten) simp_all
      with written d show ?thesis by (auto simp: eq time_lock_done_def apply_order_write_def)
    qed
  qed
qed

section \<open>The pass\<close>

text \<open>The result of a pass over all rows, row by row.\<close>

lemma check_time_locks_row:
  assumes "app_worker_key A = Some key" "orders_wf rows" "select_order i rows = Some r"
    and "check_time_locks L A W rows = (res, rows')"
  obtains r' where "select_order i rows' = Some r'"
    "time_lock_done L W key (floor_timestamp_6h (w_time W)) r r r' \<or> (r' = r \<and> \<not> is_ok res)"
proof (cases "w_load_fault W")
  case None
  have r: "r \<in> set rows" "o_id r = i" using select_by_Some [OF assms(3)] by simp_all
  have "for_each (time_lock_order L W key (floor_timestamp_6h (w_time W))) rows rows = (res, rows')"
    using assms(1,4) None by (simp add: check_time_locks_def get_worker_key_def)
  with locks.pass_row [folded orders_wf_def, of rows rows r r L W key "floor_timestamp_6h (w_time W)"] r assms(2,3) that
  show thesis by (auto simp: orders_wf_def)
next
  case (Some e)
  with assms that show thesis by (auto simp: check_time_locks_def get_worker_key_def)
qed

lemma check_time_locks_wf: "orders_wf rows \<Longrightarrow> orders_wf (snd (check_time_locks L A W rows))"
  by (cases "app_worker_key A"; cases "w_load_fault W")
     (simp_all add: check_time_locks_def get_worker_key_def Let_def locks.pass_wf [folded orders_wf_def])

lemma check_time_locks_ok:
  assumes "check_time_locks L A W rows = (Inr (), rows')" "app_worker_key A = Some key" "orders_wf rows"
    and "select_order i rows = Some r" "open_order L key r = Some d"
    and "worker_laws L W"
    and "time_lock_step L (w_uuid W i) (floor_timestamp_6h (w_time W)) d = Some d'"
  obtains r' where "select_order i rows' = Some r'" "open_order L key r' = Some d'"
    "o_version r' = o_version r + 1"
proof -
  obtain r' where r': "select_order i rows' = Some r'"
    "time_lock_done L W key (floor_timestamp_6h (w_time W)) r r r'"
    using check_time_locks_row [OF assms(2,3,4,1)] by auto
  have "o_id r = i" using select_by_Some [OF assms(4)] by simp
  with r' assms(5-7) that show thesis by (simp add: time_lock_done_def rewritten_def)
qed

lemma has_active_dispute_iff: "has_active_dispute d \<longleftrightarrow> (\<exists>x. dispute d = Some x \<and> resolved_at x = None)"
  by (simp add: has_active_dispute_def split: option.split)

text \<open>
  C14. A funded order that the seller abandons ends in a refund to the buyer.  A successful pass at
  or after funding plus twice the time lock opens a dispute in the buyer's name; a successful pass
  at or after that plus the time lock resolves it as a refund.  Times are floored to 6 hours.
\<close>

theorem abandoned_order_refunded:
  assumes "worker_laws L W1" "worker_laws L W2" "app_worker_key A = Some key"
    and "orders_wf rows" "select_order i rows = Some r" "open_order L key r = Some d"
    and "order_state d = ''funded''" "\<not> has_active_dispute d" "funded_at d = Some f"
    and "0 \<le> f" "0 \<le> time_lock_seconds d" "f + 2 * time_lock_seconds d \<le> floor_timestamp_6h (w_time W1)"
    and "floor_timestamp_6h (w_time W1) + time_lock_seconds d \<le> floor_timestamp_6h (w_time W2)"
    and "floor_timestamp_6h (w_time W2) \<le> i64_max"
    and "check_time_locks L A W1 rows = (Inr (), rows1)" "check_time_locks L A W2 rows1 = (Inr (), rows2)"
  shows "\<exists>r2 d2 x. select_order i rows2 = Some r2 \<and> o_version r2 = o_version r + 2
     \<and> open_order L key r2 = Some d2 \<and> order_state d2 = ''refunded''
     \<and> refunded_at d2 = Some (floor_timestamp_6h (w_time W2))
     \<and> dispute d2 = Some x \<and> opened_by x = hex_encode L (buyer_pubkey_hash d)
     \<and> resolution x = Some ''refund'' \<and> dd_created_at x = floor_timestamp_6h (w_time W1)"
proof -
  let ?t1 = "floor_timestamp_6h (w_time W1)" and ?t2 = "floor_timestamp_6h (w_time W2)"
  have sat: "saturating_mul_i64 (time_lock_seconds d) 2 = 2 * time_lock_seconds d"
    "saturating_add_i64 f (2 * time_lock_seconds d) = f + 2 * time_lock_seconds d"
    "saturating_add_i64 ?t1 (time_lock_seconds d) = ?t1 + time_lock_seconds d"
    using assms(10-14) by (auto simp: saturating_mul_i64_def saturating_add_i64_def sat_i64_id i64_defs)
  obtain d1 where d1: "time_lock_step L (w_uuid W1 i) ?t1 d = Some d1" "order_state d1 = ''disputed''"
    "expires_at d1 = Some (?t1 + time_lock_seconds d)" "dispute d1 = Some (auto_dispute_data L (w_uuid W1 i) ?t1 d)"
    using assms(7-12) sat
    by (simp add: time_lock_step_def abandon_step_def transitions_of_def unwrap_or_def Let_def)
  obtain r1 where r1: "select_order i rows1 = Some r1" "open_order L key r1 = Some d1" "o_version r1 = o_version r + 1"
    using check_time_locks_ok [OF assms(15,3,4,5,6,1) d1(1)] .
  have wf1: "orders_wf rows1" using check_time_locks_wf [OF assms(4), of L A W1] assms(15) by simp
  obtain d2 where d2: "time_lock_step L (w_uuid W2 i) ?t2 d1 = Some d2" "order_state d2 = ''refunded''"
    "refunded_at d2 = Some ?t2" "dispute d2 = map_option (auto_resolve ?t2) (dispute d1)"
    using d1(2,3) assms(13) by (simp add: time_lock_step_def refund_step_def transitions_of_def unwrap_or_def)
  obtain r2 where "select_order i rows2 = Some r2" "open_order L key r2 = Some d2" "o_version r2 = o_version r1 + 1"
    using check_time_locks_ok [OF assms(16,3) wf1 r1(1,2) assms(2) d2(1)] .
  with d2 d1(4) r1(3) show ?thesis by (auto simp: auto_resolve_def auto_dispute_data_def)
qed

definition demo_funded :: order_data where
  "demo_funded = demo_order\<lparr>order_state := ''funded'', funded_at := Some 0\<rparr>"

definition demo_disputed :: order_data where
  "demo_disputed = demo_funded\<lparr>order_state := ''disputed'', disputed_at := Some 172800,
     expires_at := Some 259200, dispute_id := Some ''u'',
     dispute := Some (auto_dispute_data (demo_worker []) ''u'' 172800 demo_funded)\<rparr>"

definition demo_refunded :: order_data where
  "demo_refunded = demo_disputed\<lparr>order_state := ''refunded'', refunded_at := Some 259200,
     dispute := map_option (auto_resolve 259200) (dispute demo_disputed)\<rparr>"

lemma demo_abandon: "time_lock_step (demo_worker ds) ''u'' 172800 demo_funded = Some demo_disputed"
  by (simp add: time_lock_step_def abandon_step_def demo_funded_def demo_disputed_def demo_order_def
      has_active_dispute_def transitions_of_def unwrap_or_def auto_dispute_data_def demo_worker_def
      saturating_mul_i64_def saturating_add_i64_def sat_i64_def i64_min_def i64_max_def)

lemma demo_refund: "time_lock_step (demo_worker ds) ''u'' 259200 demo_disputed = Some demo_refunded"
  by (simp add: time_lock_step_def refund_step_def demo_funded_def demo_disputed_def demo_refunded_def
      demo_order_def transitions_of_def unwrap_or_def)

lemma check_time_locks_single:
  assumes "open_order (demo_worker ds) (replicate 32 3) r = Some d"
    "time_lock_step (demo_worker ds) ''u'' (floor_timestamp_6h t) d = Some d'"
    "demo_to_json ds d' = Some (replicate k 0)"
  shows "check_time_locks (demo_worker ds) demo_app (demo_wenv t) [r] =
     (Inr (), [apply_order_write (SetBlobExpiry (demo_blob k) (map_option floor_timestamp_6h (expires_at d'))) r])"
proof -
  have "w_uuid (demo_wenv t) (o_id r) = ''u''" "w_time (demo_wenv t) = t" "w_load_fault (demo_wenv t) = None"
    by (simp_all add: demo_wenv_def)
  with assms demo_write [OF assms(3) refl refl] show ?thesis
    by (simp add: check_time_locks_def get_worker_key_def demo_app_def time_lock_order_eq write_step_def)
qed

lemma abandoned_order_refunded_witness:
  "let L = demo_worker [demo_funded, demo_disputed, demo_refunded]; r = new_order_row [1] (demo_blob 0) 0 None in
   \<exists>rows1 rows2 r2 d2. check_time_locks L demo_app (demo_wenv 180000) [r] = (Inr (), rows1)
     \<and> check_time_locks L demo_app (demo_wenv 260000) rows1 = (Inr (), rows2)
     \<and> select_order [1] rows2 = Some r2 \<and> open_order L (replicate 32 3) r2 = Some d2
     \<and> order_state d2 = ''refunded''"
proof -
  let ?ds = "[demo_funded, demo_disputed, demo_refunded]"
  let ?r = "new_order_row [1] (demo_blob 0) 0 None"
  have fl: "floor_timestamp_6h 180000 = 172800" "floor_timestamp_6h 260000 = 259200"
    by (simp_all add: floor_timestamp_6h_def trunc_div_def)
  have open0: "open_order (demo_worker ?ds) (replicate 32 3) ?r = Some demo_funded"
    using demo_open [of ?r 0 ?ds] by (simp add: new_order_row_def)
  have j1: "demo_to_json ?ds demo_disputed = Some (replicate (Suc 0) 0)"
    by (simp add: demo_to_json_def upt_rec demo_disputed_def demo_funded_def demo_order_def)
  have j2: "demo_to_json ?ds demo_refunded = Some (replicate (Suc (Suc 0)) 0)"
    by (simp add: demo_to_json_def upt_rec demo_refunded_def demo_disputed_def demo_funded_def demo_order_def)
  obtain r1 where r1: "check_time_locks (demo_worker ?ds) demo_app (demo_wenv 180000) [?r] = (Inr (), [r1])"
    "encrypted_order_blob r1 = demo_blob (Suc 0)" "o_id r1 = [1]"
    using check_time_locks_single [OF open0 _ j1, of 180000] demo_abandon
    by (simp add: fl apply_order_write_def new_order_row_def)
  have "open_order (demo_worker ?ds) (replicate 32 3) r1 = Some demo_disputed"
    using demo_open [OF r1(2), of ?ds] by simp
  then obtain rows2 where rows2: "check_time_locks (demo_worker ?ds) demo_app (demo_wenv 260000) [r1] = (Inr (), rows2)"
    using check_time_locks_single [OF _ _ j2, of r1 demo_disputed 260000] demo_refund by (simp add: fl)
  have "order_state demo_funded = ''funded''" "funded_at demo_funded = Some 0" "dispute demo_funded = None"
    "time_lock_seconds demo_funded = 86400"
    by (simp_all add: demo_funded_def demo_order_def)
  moreover have "app_worker_key demo_app = Some (replicate 32 3)" "w_time (demo_wenv t) = t"
    for t by (simp_all add: demo_wenv_def demo_app_def)
  moreover have "orders_wf [?r]" "select_order [1] [?r] = Some ?r"
    by (simp_all add: orders_wf_def select_by_def new_order_row_def)
  ultimately show ?thesis
    using abandoned_order_refunded [OF demo_worker_laws [of ?ds 180000] demo_worker_laws [of ?ds 260000],
        where A = demo_app and key = "replicate 32 3" and rows = "[?r]" and i = "[1]" and r = ?r
        and d = demo_funded and f = 0 and ?rows1.0 = "[r1]" and ?rows2.0 = rows2] open0 r1(1) rows2
    by (auto simp: Let_def fl has_active_dispute_def i64_max_def)
qed

text \<open>
  The pass moves only funded and disputed orders: whatever the clock and whether or not the
  pass succeeds, the row of an order in any other state is left alone.  In particular a shipped
  order is never released, although the pass has a handler for it.
\<close>

theorem time_lock_moves_only:
  assumes "app_worker_key A = Some key" "orders_wf rows" "select_order i rows = Some r"
    and "open_order L key r = Some d" "order_state d \<noteq> ''funded''" "order_state d \<noteq> ''disputed''"
    and "check_time_locks L A W rows = (res, rows')"
  shows "select_order i rows' = Some r"
proof -
  have "time_lock_step L (w_uuid W (o_id r)) (floor_timestamp_6h (w_time W)) d = None"
    using assms(5,6) release_step_shipped by (simp add: time_lock_step_def)
  moreover obtain r' where "select_order i rows' = Some r'"
    "time_lock_done L W key (floor_timestamp_6h (w_time W)) r r r' \<or> (r' = r \<and> \<not> is_ok res)"
    using check_time_locks_row [OF assms(1,2,3,7)] .
  ultimately show ?thesis using assms(4) by (auto simp: time_lock_done_def)
qed

lemma time_lock_moves_only_witness:
  "let L = demo_worker [demo_order\<lparr>order_state := ''shipped''\<rparr>]; r = new_order_row [1] (demo_blob 0) 0 None in
   select_order [1] (snd (check_time_locks L demo_app (demo_wenv 99999999) [r])) = Some r"
proof -
  let ?d = "demo_order\<lparr>order_state := ''shipped''\<rparr>"
  let ?r = "new_order_row [1] (demo_blob 0) 0 None"
  have "open_order (demo_worker [?d]) (replicate 32 3) ?r = Some ?d"
    using demo_open [of ?r 0 "[?d]"] by (simp add: new_order_row_def)
  moreover have "orders_wf [?r]" "select_order [1] [?r] = Some ?r" "app_worker_key demo_app = Some (replicate 32 3)"
    by (simp_all add: orders_wf_def select_by_def new_order_row_def demo_app_def)
  moreover have "check_time_locks (demo_worker [?d]) demo_app (demo_wenv 99999999) [?r] =
      (fst (check_time_locks (demo_worker [?d]) demo_app (demo_wenv 99999999) [?r]),
       snd (check_time_locks (demo_worker [?d]) demo_app (demo_wenv 99999999) [?r]))" by (rule prod.collapse [symmetric])
  moreover have "order_state ?d \<noteq> ''funded''" "order_state ?d \<noteq> ''disputed''" by simp_all
  ultimately show ?thesis
    unfolding Let_def using time_lock_moves_only by metis
qed

end
