(* ===== verification/Listing_Expiry.thy ===== *)
theory Listing_Expiry
  imports Sealed_Orders
begin

text \<open>
  \<^verbatim>\<open>src/src/background/listing_expiry.rs\<close>: the worker pass that expires listings.
\<close>

section \<open>The pass\<close>

definition open_listing :: "ext \<Rightarrow> bytes \<Rightarrow> listing \<Rightarrow> listing_data option" where
  "open_listing L key r =
     (case decrypt_listing_blob L (encrypted_listing_blob r) key (l_id r) of
        None \<Rightarrow> None
      | Some raw \<Rightarrow> (case listing_from_json L raw of Inl _ \<Rightarrow> None | Inr d \<Rightarrow> Some d))"

definition seal_listing :: "ext \<Rightarrow> wenv \<Rightarrow> bytes \<Rightarrow> bytes \<Rightarrow> listing_data \<Rightarrow> bytes option" where
  "seal_listing L W key i d =
     (case listing_to_json L d of
        None \<Rightarrow> None
      | Some json \<Rightarrow> encrypt_listing_blob L (w_nonce W i) json key i)"

definition listing_expired :: "int \<Rightarrow> listing_data \<Rightarrow> bool" where
  "listing_expired now d = (case ld_expires_at d of Some t \<Rightarrow> now \<ge> t | None \<Rightarrow> False)"

definition mark_expired :: "int \<Rightarrow> listing_data \<Rightarrow> listing_data" where
  "mark_expired now d = d\<lparr>ld_status := ''expired'', updated_at := now\<rparr>"

text \<open>Zero affected rows are skipped over, like the listings that do not open.\<close>

definition expire_listing :: "ext \<Rightarrow> wenv \<Rightarrow> bytes \<Rightarrow> int \<Rightarrow> listing \<Rightarrow> listings \<Rightarrow> (string + unit) \<times> listings" where
  "expire_listing L W key now r rows =
     (case open_listing L key r of
        None \<Rightarrow> (Inr (), rows)
      | Some d \<Rightarrow>
         (if \<not> listing_expired now d then (Inr (), rows)
          else case seal_listing L W key (l_id r) (mark_expired now d) of
                 None \<Rightarrow> (Inr (), rows)
               | Some blob \<Rightarrow>
                  (case w_write_fault W (l_id r) of
                     Some e \<Rightarrow> (Inl e, rows)
                   | None \<Rightarrow> (Inr (), fst (update_listings (ExpireListing blob) (l_id r) (l_version r) rows)))))"

definition check_listing_expiry :: "ext \<Rightarrow> app \<Rightarrow> wenv \<Rightarrow> listings \<Rightarrow> (string + unit) \<times> listings" where
  "check_listing_expiry L A W rows =
     (case app_worker_key A of
        None \<Rightarrow> (Inr (), rows)
      | Some key \<Rightarrow>
         (let now = floor_timestamp_6h (w_time W) in
          case w_load_fault W of
            Some e \<Rightarrow> (Inl e, rows)
          | None \<Rightarrow> for_each (expire_listing L W key now) (filter (\<lambda>r. l_status r = ''active'') rows) rows))"

section \<open>What the pass does to a listing\<close>

definition expires :: "ext \<Rightarrow> wenv \<Rightarrow> bytes \<Rightarrow> int \<Rightarrow> listing \<Rightarrow> bool" where
  "expires L W key now r =
     (case open_listing L key r of
        None \<Rightarrow> False
      | Some d \<Rightarrow> listing_expired now d \<and> seal_listing L W key (l_id r) (mark_expired now d) \<noteq> None)"

definition expired_row :: "ext \<Rightarrow> bytes \<Rightarrow> int \<Rightarrow> listing \<Rightarrow> listing \<Rightarrow> bool" where
  "expired_row L key now r r' \<longleftrightarrow> l_status r' = ''expired'' \<and> l_version r' = l_version r + 1
     \<and> search_token r' = search_token r \<and> l_currency r' = l_currency r
     \<and> open_listing L key r' = map_option (mark_expired now) (open_listing L key r)"

definition visit_done :: "ext \<Rightarrow> wenv \<Rightarrow> bytes \<Rightarrow> int \<Rightarrow> listing \<Rightarrow> listing \<Rightarrow> listing \<Rightarrow> bool" where
  "visit_done L W key now x r r' \<longleftrightarrow> (x = r \<longrightarrow>
     (if expires L W key now r then worker_laws L W \<longrightarrow> expired_row L key now r r' else r' = r))"

lemma seal_then_open_listing:
  assumes "worker_laws L W" "seal_listing L W key (l_id r) d = Some blob" "encrypted_listing_blob r = blob"
  shows "open_listing L key r = Some d"
proof -
  obtain json where json: "listing_to_json L d = Some json" "encrypt_listing_blob L (w_nonce W (l_id r)) json key (l_id r) = Some blob"
    using assms(2) by (auto simp: seal_listing_def split: option.splits)
  then have "decrypt_listing_blob L blob key (l_id r) = Some json"
    using assms(1) by (auto simp: worker_laws_def nonces_ok_def intro: lb.unseal_seal)
  then show ?thesis
    using assms(1,3) json(1) listing_json_roundtrip by (auto simp: open_listing_def worker_laws_def)
qed

lemma expire_listing_cases:
  obtains (stay) "expire_listing L W key now x rows = (Inr (), rows)" "\<not> expires L W key now x"
  | (fault) e where "expire_listing L W key now x rows = (Inl e, rows)"
  | (written) d blob where "open_listing L key x = Some d" "listing_expired now d"
      "seal_listing L W key (l_id x) (mark_expired now d) = Some blob"
      "expire_listing L W key now x rows = (Inr (), fst (update_listings (ExpireListing blob) (l_id x) (l_version x) rows))"
proof (cases "expires L W key now x")
  case False
  then have "expire_listing L W key now x rows = (Inr (), rows)"
    by (auto simp: expire_listing_def expires_def split: option.splits)
  with False show ?thesis by (rule stay [rotated])
next
  case True
  then obtain d blob where d: "open_listing L key x = Some d" "listing_expired now d"
      "seal_listing L W key (l_id x) (mark_expired now d) = Some blob"
    by (auto simp: expires_def split: option.splits)
  show ?thesis
    using d fault written by (cases "w_write_fault W (l_id x)") (simp_all add: expire_listing_def)
qed

interpretation expiry: row_pass "expire_listing L W key now" "\<lambda>rows. rows" l_id "visit_done L W key now" l_id l_version
proof unfold_locales
  fix rows :: listings and x r j
  show "distinct (map l_id rows) \<Longrightarrow> distinct (map l_id (snd (expire_listing L W key now x rows)))"
    by (cases rule: expire_listing_cases [of L W key now x rows]) (simp_all add: update_listings_def lst.keys_cas)
  show "listings_evolve rows (snd (expire_listing L W key now x rows))"
    by (cases rule: expire_listing_cases [of L W key now x rows]) (simp_all add: listings_evolve_update)
  show "j \<noteq> l_id x \<Longrightarrow> select_listing j (snd (expire_listing L W key now x rows)) = select_listing j rows"
    by (cases rule: expire_listing_cases [of L W key now x rows]) (simp_all add: update_listings_def lst.select_cas_other)
  assume r: "distinct (map l_id rows)" "select_listing (l_id x) rows = Some r"
  show "\<exists>r'. select_listing (l_id x) (snd (expire_listing L W key now x rows)) = Some r'
      \<and> (if is_ok (fst (expire_listing L W key now x rows)) then visit_done L W key now x r r' else r' = r)"
  proof (cases rule: expire_listing_cases [of L W key now x rows])
    case (written d blob)
    let ?r = "apply_listing_write (ExpireListing blob) r"
    have sel: "select_listing (l_id x) (snd (expire_listing L W key now x rows)) = Some (if l_version r = l_version x then ?r else r)"
      using r(2) written(4) by (auto simp: update_listings_def lst.select_cas dest: select_by_Some)
    have "visit_done L W key now x r (if l_version r = l_version x then ?r else r)"
    proof (cases "x = r")
      case True
      have "worker_laws L W \<Longrightarrow> open_listing L key ?r = Some (mark_expired now d)"
        using written(3) True by (auto intro!: seal_then_open_listing simp: apply_listing_write_def)
      with True written(1-3) show ?thesis
        by (simp add: visit_done_def expires_def expired_row_def apply_listing_write_def)
    qed (simp add: visit_done_def)
    with sel written(4) show ?thesis by simp
  qed (use r in \<open>auto simp: visit_done_def\<close>)
qed


definition demo_listing :: listing_data where
  "demo_listing = \<lparr>ld_seller_pubkey_hash = [2], ld_seller_pubkey = None, encrypted_data = [], encrypted_search = None,
     ld_currency = ''XMR'', price_amount = ''1'', ld_status = ''active'', ld_created_at = 0,
     ld_expires_at = Some 86400, updated_at = 0\<rparr>"

definition demo_market :: "listing_data list \<Rightarrow> ext" where
  "demo_market ds = (demo_worker [])\<lparr>listing_to_json := demo_to_json ds, listing_from_json := demo_from_json ds\<rparr>"

definition demo_listing_row :: listing where
  "demo_listing_row = \<lparr>l_id = [1], encrypted_listing_blob = demo_blob 0, l_day_bucket = 0, search_token = None,
     l_status = ''active'', l_currency = ''XMR'', l_version = 0\<rparr>"

lemma demo_market_laws: "worker_laws (demo_market ds) (demo_wenv t)"
  using demo_worker_laws [of "[]" t] demo_json_ok
  by (simp add: worker_laws_def demo_market_def json_ok_def aead_ok_def)


end
