(* ===== verification/Tor_Service.thy ===== *)
theory Tor_Service
  imports Config
begin

text \<open>
  \<^verbatim>\<open>src/src/tor/mod.rs\<close>: the files of the hidden service.  The service directory is the list of its
  entries; the process that is started is not modelled.
\<close>

section \<open>The service directory\<close>

datatype entry = File string | Subdir

text \<open>\<open>fs_write_fault\<close>: the errors of creating the directory and of writing, reading and listing in it.\<close>

record service_fs =
  dir_entries :: "(string \<times> entry) list option"  \<comment> \<open>\<^const>\<open>None\<close>: the directory does not exist\<close>

record fs_env =
  create_dir_fault :: "string option"
  write_fault :: "string option"
  read_fault :: "string option"
  list_fault :: "string option"
  removable :: "string \<Rightarrow> bool"

definition entries :: "service_fs \<Rightarrow> (string \<times> entry) list" where
  "entries F = unwrap_or (dir_entries F) []"

definition crlf :: string where "crlf = [CHR 0x0A]"

definition torrc_content :: "tor_config \<Rightarrow> string" where
  "torrc_content C =
     ''HiddenServiceDir '' @ tor_service_dir C @ crlf
     @ ''HiddenServiceVersion 3'' @ crlf
     @ ''HiddenServicePort '' @ dec (tor_port C) @ '' 127.0.0.1:'' @ dec (tor_port C) @ crlf
     @ ''HiddenServiceMaxStreams 1024'' @ crlf
     @ ''CircuitIsolation 1'' @ crlf
     @ ''HiddenServiceAnonymousMode 1'' @ crlf
     @ ''IsolateSOCKSAuth 1'' @ crlf"

definition fail_if :: "string option \<Rightarrow> string + unit" where
  "fail_if f = (case f of Some e \<Rightarrow> Inl e | None \<Rightarrow> Inr ())"

definition bootstrap :: "fs_env \<Rightarrow> tor_config \<Rightarrow> service_fs \<Rightarrow> (string + unit) \<times> service_fs" where
  "bootstrap E C F =
     (if \<not> tor_enabled C then (Inr (), F)
      else then_do (fail_if (create_dir_fault E), F) (\<lambda>_ F.
        let F = F\<lparr>dir_entries := Some (entries F)\<rparr> in
        if map_of (entries F) ''torrc'' = None
        then then_do (fail_if (write_fault E), F) (\<lambda>_ F.
          (Inr (), F\<lparr>dir_entries := Some (entries F @ [(''torrc'', File (torrc_content C))])\<rparr>))
        else (Inr (), F)))"

definition get_onion_address :: "fs_env \<Rightarrow> service_fs \<Rightarrow> string + string" where
  "get_onion_address E F =
     (case map_of (entries F) ''hostname'' of
        Some (File contents) \<Rightarrow> and_then (fail_if (read_fault E)) (\<lambda>_. Inr (trim contents))
      | Some Subdir \<Rightarrow> Inl ''Is a directory (os error 21)''
      | None \<Rightarrow> Inl ''Tor hostname file not found. Has Tor started?'')"

definition essential :: "string \<Rightarrow> bool" where
  "essential name \<longleftrightarrow> name = ''hostname'' \<or> name = ''hs_ed25519_secret_key''
     \<or> name = ''hs_ed25519_public_key'' \<or> name = ''torrc''"

text \<open>\<^verbatim>\<open>remove_file\<close> fails on a directory; its error is dropped.\<close>

definition survives_removal :: "fs_env \<Rightarrow> string \<times> entry \<Rightarrow> bool" where
  "survives_removal E e \<longleftrightarrow> snd e = Subdir \<or> \<not> removable E (fst e)"

definition cleanup_old_keys :: "fs_env \<Rightarrow> service_fs \<Rightarrow> (string + unit) \<times> service_fs" where
  "cleanup_old_keys E F =
     (case dir_entries F of
        None \<Rightarrow> (Inr (), F)
      | Some es \<Rightarrow>
         (case list_fault E of
            Some e \<Rightarrow> (Inl e, F)
          | None \<Rightarrow> (Inr (), F\<lparr>dir_entries := Some (filter (\<lambda>e. essential (fst e) \<or> survives_removal E e) es)\<rparr>)))"

text \<open>What both processes do before they start Tor.\<close>

definition prepare_tor :: "fs_env \<Rightarrow> tor_config \<Rightarrow> service_fs \<Rightarrow> (string + unit) \<times> service_fs" where
  "prepare_tor E C F =
     (if tor_enabled C then then_do (bootstrap E C F) (\<lambda>_ F. cleanup_old_keys E F) else (Inr (), F))"

section \<open>Properties\<close>

lemma map_of_filter_key:
  "map_of (filter (\<lambda>e. P (fst e) \<or> Q e) es) k = map_of es k" if "P k"
  using that by (induction es) auto

lemma prepare_tor_noop:
  assumes "create_dir_fault E = None" "list_fault E = None" "dir_entries F = Some es" "map_of es ''torrc'' \<noteq> None"
    and "filter (\<lambda>e. essential (fst e) \<or> survives_removal E e) es = es"
  shows "prepare_tor E C F = (Inr (), F)"
proof -
  obtain f where "map_of es ''torrc'' = Some f" using assms(4) by blast
  moreover have "F\<lparr>dir_entries := Some es\<rparr> = F" using assms(3) by simp
  ultimately show ?thesis
    using assms by (simp add: prepare_tor_def bootstrap_def cleanup_old_keys_def fail_if_def entries_def unwrap_or_def Let_def)
qed

text \<open>
  Preparing Tor keeps the service's identity and is idempotent: the key files, the host name and an
  existing \<open>torrc\<close> are as they were, a missing \<open>torrc\<close> is created with the configured port, of the other
  files only those that cannot be removed are left, and a second start changes nothing.
\<close>

theorem prepare_tor_keeps_identity:
  assumes "prepare_tor E C F = (Inr (), F')" "tor_enabled C"
  shows "map_of (entries F') ''hs_ed25519_secret_key'' = map_of (entries F) ''hs_ed25519_secret_key''
     \<and> map_of (entries F') ''hs_ed25519_public_key'' = map_of (entries F) ''hs_ed25519_public_key''
     \<and> get_onion_address E F' = get_onion_address E F
     \<and> map_of (entries F') ''torrc'' =
         (case map_of (entries F) ''torrc'' of None \<Rightarrow> Some (File (torrc_content C)) | Some f \<Rightarrow> Some f)
     \<and> list_all (\<lambda>e. essential (fst e) \<or> survives_removal E e) (entries F')
     \<and> prepare_tor E C F' = (Inr (), F')"
proof -
  define es where "es = (if map_of (entries F) ''torrc'' = None then entries F @ [(''torrc'', File (torrc_content C))] else entries F)"
  define fs where "fs = filter (\<lambda>e. essential (fst e) \<or> survives_removal E e) es"
  have F': "F' = F\<lparr>dir_entries := Some fs\<rparr>" "list_fault E = None" "create_dir_fault E = None"
    using assms by (auto simp: prepare_tor_def bootstrap_def cleanup_old_keys_def then_do_def fail_if_def entries_def
        unwrap_or_def Let_def es_def fs_def split: option.splits if_splits)
  have same: "map_of fs k = map_of es k" if "essential k" for k
    unfolding fs_def using that by (rule map_of_filter_key)
  have other: "map_of es k = map_of (entries F) k" if "k \<noteq> ''torrc''" for k
    using that by (auto simp: es_def map_add_def split: option.split)
  have "map_of es ''torrc'' = (case map_of (entries F) ''torrc'' of None \<Rightarrow> Some (File (torrc_content C)) | Some f \<Rightarrow> Some f)"
    by (auto simp: es_def map_add_def split: option.split)
  then have torrc: "map_of fs ''torrc'' = (case map_of (entries F) ''torrc'' of None \<Rightarrow> Some (File (torrc_content C)) | Some f \<Rightarrow> Some f)"
    by (simp add: same essential_def)
  have e: "entries F' = fs" by (simp add: F'(1) entries_def unwrap_or_def)
  have "map_of fs ''torrc'' \<noteq> None" unfolding torrc by (simp split: option.split)
  then have "prepare_tor E C F' = (Inr (), F')"
    by (intro prepare_tor_noop [where es = fs] F'(2,3)) (simp_all add: F'(1) fs_def)
  moreover have "list_all (\<lambda>e. essential (fst e) \<or> survives_removal E e) fs" by (simp add: fs_def list_all_iff)
  ultimately show ?thesis
    using torrc e by (simp add: same other essential_def get_onion_address_def)
qed

lemma prepare_tor_keeps_identity_witness:
  "\<exists>F'. prepare_tor \<lparr>create_dir_fault = None, write_fault = None, read_fault = None, list_fault = None, removable = (\<lambda>_. True)\<rparr>
       default_tor_config \<lparr>dir_entries = Some [(''hostname'', File ''a.onion''), (''lock'', File [])]\<rparr> = (Inr (), F')
     \<and> map_of (entries F') ''lock'' = None \<and> map_of (entries F') ''torrc'' \<noteq> None"
proof -
  let ?E = "\<lparr>create_dir_fault = None, write_fault = None, read_fault = None, list_fault = None, removable = (\<lambda>_. True)\<rparr> :: fs_env"
  let ?F = "\<lparr>dir_entries = Some [(''hostname'', File ''a.onion''), (''lock'', File [])]\<rparr>"
  obtain F' where run: "prepare_tor ?E default_tor_config ?F = (Inr (), F')"
    by (simp add: prepare_tor_def bootstrap_def cleanup_old_keys_def fail_if_def default_tor_config_def entries_def unwrap_or_def Let_def)
  have "tor_enabled default_tor_config" by (simp add: default_tor_config_def)
  from prepare_tor_keeps_identity [OF run this] have "map_of (entries F') ''torrc'' \<noteq> None"
    "list_all (\<lambda>e. essential (fst e) \<or> survives_removal ?E e) (entries F')"
    by (simp_all split: option.splits)
  moreover have "map_of (entries F') ''lock'' = None"
    using run by (auto simp: prepare_tor_def bootstrap_def cleanup_old_keys_def fail_if_def default_tor_config_def entries_def
        unwrap_or_def Let_def essential_def survives_removal_def)
  ultimately show ?thesis using run by blast
qed

end
