(* ===== verification/Socks_Pool.thy ===== *)
theory Socks_Pool
  imports External
begin

text \<open>
  \<^verbatim>\<open>src/src/gateway/socks_pool.rs\<close>: a pool of HTTP clients, one Tor circuit each.  A client is the
  proxy URL it was built with (\<^const>\<open>None\<close>: direct) and a serial number, as each build opens new
  connections.
\<close>

section \<open>The pool\<close>

record http_client =
  proxy_url :: "string option"
  build_no :: nat

record pool_slot =
  slot_client :: http_client
  healthy :: bool

record socks5_pool =
  slots :: "pool_slot list"
  pool_addr :: string
  pool_enabled :: bool

text \<open>
  The \<^verbatim>\<open>reqwest\<close> crate: \<open>Proxy::all\<close> on a URL and \<open>ClientBuilder::build\<close>, the \<open>n\<close>-th time, with the texts of their
  errors.
\<close>

record reqwest =
  proxy_all :: "string \<Rightarrow> string + unit"
  client_build :: "nat \<Rightarrow> string + unit"

definition slot_proxy_url :: "string \<Rightarrow> nat \<Rightarrow> string" where
  "slot_proxy_url addr i =
     (if i = 0 then ''socks5://'' @ addr
      else ''socks5://tor-marketplace-'' @ dec i @ '':isolated@'' @ addr)"

text \<open>The builder both functions use; \<open>bad\<close> is the message around a refused proxy.\<close>

definition build_slot_client ::
    "reqwest \<Rightarrow> (string \<Rightarrow> string \<Rightarrow> string) \<Rightarrow> string \<Rightarrow> bool \<Rightarrow> nat \<Rightarrow> nat \<Rightarrow> string + http_client" where
  "build_slot_client R bad addr enabled i n =
     and_then (if enabled then map_err (bad (slot_proxy_url addr i)) (proxy_all R (slot_proxy_url addr i)) else Inr ()) (\<lambda>_.
     and_then (client_build R n) (\<lambda>_.
       Inr \<lparr>proxy_url = if enabled then Some (slot_proxy_url addr i) else None, build_no = n\<rparr>))"

definition new_pool_message :: "string \<Rightarrow> string \<Rightarrow> string" where
  "new_pool_message url e = ''Invalid SOCKS5 proxy '' @ [CHR 0x27] @ url @ [CHR 0x27] @ '': '' @ e"

fun new_slots :: "reqwest \<Rightarrow> string \<Rightarrow> bool \<Rightarrow> nat list \<Rightarrow> string + pool_slot list" where
  "new_slots R addr enabled [] = Inr []"
| "new_slots R addr enabled (i # js) =
     and_then (build_slot_client R new_pool_message addr enabled i i) (\<lambda>c.
     and_then (new_slots R addr enabled js) (\<lambda>ss. Inr (\<lparr>slot_client = c, healthy = True\<rparr> # ss)))"

definition socks5_pool_new :: "reqwest \<Rightarrow> string \<Rightarrow> nat \<Rightarrow> bool \<Rightarrow> string + socks5_pool" where
  "socks5_pool_new R addr pool_size enabled =
     and_then (new_slots R addr enabled [0..<pool_size]) (\<lambda>ss.
       Inr \<lparr>slots = ss, pool_addr = addr, pool_enabled = enabled\<rparr>)"

definition pool_size :: "socks5_pool \<Rightarrow> nat" where
  "pool_size P = length (slots P)"

definition slot_index :: "ext \<Rightarrow> socks5_pool \<Rightarrow> bytes \<Rightarrow> nat" where
  "slot_index L P key =
     (if slots P = [] then 0 else le_value (take 8 (blake3 L key)) mod length (slots P))"

text \<open>\<^const>\<open>None\<close>: the index panics.\<close>

definition get_client :: "ext \<Rightarrow> socks5_pool \<Rightarrow> bytes \<Rightarrow> http_client option" where
  "get_client L P key =
     (let idx = slot_index L P key
      in if idx < length (slots P) then Some (slot_client (slots P ! idx)) else None)"

definition get_client_by_index :: "socks5_pool \<Rightarrow> nat \<Rightarrow> http_client option" where
  "get_client_by_index P idx = (if idx < length (slots P) then Some (slot_client (slots P ! idx)) else None)"

definition healthy_count :: "socks5_pool \<Rightarrow> nat" where
  "healthy_count P = foldl (\<lambda>n s. if healthy s then n + 1 else n) 0 (slots P)"

text \<open>The \<open>n\<close>-th build of the process.\<close>

definition rotate_slot :: "reqwest \<Rightarrow> nat \<Rightarrow> nat \<Rightarrow> socks5_pool \<Rightarrow> (string + unit) \<times> socks5_pool" where
  "rotate_slot R n idx P =
     (if idx \<ge> length (slots P) then (Inl (''Slot index '' @ dec idx @ '' out of range''), P)
      else case build_slot_client R (\<lambda>_ e. ''Invalid SOCKS5 proxy: '' @ e) (pool_addr P) (pool_enabled P) idx n of
             Inl e \<Rightarrow> (Inl e, P)
           | Inr c \<Rightarrow> (Inr (), P\<lparr>slots := (slots P)[idx := \<lparr>slot_client = c, healthy = True\<rparr>]\<rparr>))"

section \<open>The health check\<close>

text \<open>
  One round of \<open>health_check_loop\<close>: every slot is probed (\<open>probe\<close>: did the request through this client succeed in
  time), then every unhealthy slot is rotated; \<open>n\<close> counts the builds.
\<close>

definition probe_slots :: "(http_client \<Rightarrow> bool) \<Rightarrow> socks5_pool \<Rightarrow> socks5_pool" where
  "probe_slots probe P = P\<lparr>slots := map (\<lambda>s. s\<lparr>healthy := probe (slot_client s)\<rparr>) (slots P)\<rparr>"

fun rotate_unhealthy :: "reqwest \<Rightarrow> nat list \<Rightarrow> nat \<times> socks5_pool \<Rightarrow> nat \<times> socks5_pool" where
  "rotate_unhealthy R [] nP = nP"
| "rotate_unhealthy R (i # js) (n, P) =
     rotate_unhealthy R js
       (if \<not> healthy (slots P ! i) then (n + 1, snd (rotate_slot R n i P)) else (n, P))"

definition health_check_round :: "reqwest \<Rightarrow> (http_client \<Rightarrow> bool) \<Rightarrow> nat \<times> socks5_pool \<Rightarrow> nat \<times> socks5_pool" where
  "health_check_round R probe nP =
     rotate_unhealthy R [0..<length (slots (snd nP))] (fst nP, probe_slots probe (snd nP))"

section \<open>Facts\<close>

definition pool_ok :: "socks5_pool \<Rightarrow> bool" where
  "pool_ok P \<longleftrightarrow> (\<forall>i < length (slots P).
     proxy_url (slot_client (slots P ! i)) = (if pool_enabled P then Some (slot_proxy_url (pool_addr P) i) else None))"

lemma build_slot_client_url:
  "build_slot_client R bad addr enabled i n = Inr c \<Longrightarrow>
     proxy_url c = (if enabled then Some (slot_proxy_url addr i) else None) \<and> build_no c = n"
  by (auto simp: build_slot_client_def)

lemma new_slots_at:
  "new_slots R addr enabled js = Inr ss \<Longrightarrow> length ss = length js \<and>
     (\<forall>k < length js. proxy_url (slot_client (ss ! k)) = (if enabled then Some (slot_proxy_url addr (js ! k)) else None)
        \<and> healthy (ss ! k))"
proof (induction js arbitrary: ss)
  case (Cons i js)
  then obtain c ss' where c: "build_slot_client R new_pool_message addr enabled i i = Inr c"
    "new_slots R addr enabled js = Inr ss'" "ss = \<lparr>slot_client = c, healthy = True\<rparr> # ss'"
    by auto
  with Cons.IH [OF c(2)] build_slot_client_url [OF c(1)] show ?case
    by (auto simp: nth_Cons split: nat.splits)
qed simp

lemma socks5_pool_new_ok:
  assumes "socks5_pool_new R addr k enabled = Inr P"
  shows "pool_ok P \<and> length (slots P) = k \<and> pool_addr P = addr \<and> pool_enabled P = enabled"
  using assms new_slots_at by (fastforce simp: socks5_pool_new_def pool_ok_def)

lemma rotate_slot_frame:
  "pool_addr (snd (rotate_slot R n i P)) = pool_addr P \<and> pool_enabled (snd (rotate_slot R n i P)) = pool_enabled P
     \<and> length (slots (snd (rotate_slot R n i P))) = length (slots P)
     \<and> (\<forall>k. k \<noteq> i \<longrightarrow> slots (snd (rotate_slot R n i P)) ! k = slots P ! k)"
  by (auto simp: rotate_slot_def split: sum.split)

lemma rotate_slot_ok: "pool_ok P \<Longrightarrow> pool_ok (snd (rotate_slot R n i P))"
  using build_slot_client_url by (fastforce simp: rotate_slot_def pool_ok_def nth_list_update split: sum.split)

lemma rotate_slot_result:
  assumes "i < length (slots P)" "\<not> healthy (slots P ! i)"
  shows "healthy (slots (snd (rotate_slot R n i P)) ! i) \<longleftrightarrow> is_ok (fst (rotate_slot R n i P))"
  using assms by (auto simp: rotate_slot_def is_ok_iff split: sum.split)

text \<open>A round reaches every slot once.\<close>

lemma rotate_unhealthy_other:
  assumes "i \<notin> set js"
  shows "slots (snd (rotate_unhealthy R js (n, P))) ! i = slots P ! i"
  using assms by (induction js arbitrary: n P) (simp_all add: rotate_slot_frame)

lemma rotate_unhealthy_frame:
  "pool_addr (snd (rotate_unhealthy R js (n, P))) = pool_addr P
     \<and> pool_enabled (snd (rotate_unhealthy R js (n, P))) = pool_enabled P
     \<and> length (slots (snd (rotate_unhealthy R js (n, P)))) = length (slots P)
     \<and> n \<le> fst (rotate_unhealthy R js (n, P))"
proof (induction js arbitrary: n P)
  case (Cons j js)
  show ?case
    using Cons.IH [of "if \<not> healthy (slots P ! j) then n + 1 else n" "if \<not> healthy (slots P ! j) then snd (rotate_slot R n j P) else P"]
      rotate_slot_frame [of R n j P] by (auto split: if_splits)
qed simp

lemma rotate_unhealthy_ok: "pool_ok P \<Longrightarrow> pool_ok (snd (rotate_unhealthy R js (n, P)))"
  by (induction js arbitrary: n P) (simp_all add: rotate_slot_ok)

lemma rotate_unhealthy_at:
  assumes "i \<in> set js" "distinct js"
  shows "slots (snd (rotate_unhealthy R js (n, P))) ! i =
     (if healthy (slots P ! i) then slots P ! i
      else slots (snd (rotate_slot R (n + length (filter (\<lambda>j. \<not> healthy (slots P ! j)) (takeWhile (\<lambda>j. j \<noteq> i) js))) i P)) ! i)"
  using assms
proof (induction js arbitrary: n P)
  case (Cons j js)
  show ?case
  proof (cases "j = i")
    case True
    then show ?thesis using Cons.prems by (simp add: rotate_unhealthy_other)
  next
    case False
    let ?P = "if healthy (slots P ! j) then P else snd (rotate_slot R n j P)"
    have same: "slots ?P ! k = slots P ! k" if "k \<noteq> j" for k
      using that rotate_slot_frame by simp
    have "slots (snd (rotate_slot R m i ?P)) ! i = slots (snd (rotate_slot R m i P)) ! i" for m
      using same [of i] False rotate_slot_frame [of R n j P]
      by (cases "i < length (slots P)") (simp_all add: rotate_slot_def split: sum.split)
    moreover have "filter (\<lambda>j. \<not> healthy (slots ?P ! j)) (takeWhile (\<lambda>j. j \<noteq> i) js)
        = filter (\<lambda>j. \<not> healthy (slots P ! j)) (takeWhile (\<lambda>j. j \<noteq> i) js)"
      using Cons.prems(2) same by (intro filter_cong refl) (metis distinct.simps(2) set_takeWhileD)
    ultimately show ?thesis
      using Cons.IH [of "if healthy (slots P ! j) then n else n + 1" ?P] Cons.prems False same [of i]
      by (auto simp: if_distrib [of healthy])
  qed
qed simp

section \<open>Properties\<close>

lemma probe_slots_sel [simp]:
  "slots (probe_slots probe P) = map (\<lambda>s. s\<lparr>healthy := probe (slot_client s)\<rparr>) (slots P)"
  "pool_addr (probe_slots probe P) = pool_addr P" "pool_enabled (probe_slots probe P) = pool_enabled P"
  by (simp_all add: probe_slots_def)

text \<open>Can the slot be built again?\<close>

definition rebuildable :: "reqwest \<Rightarrow> socks5_pool \<Rightarrow> nat \<Rightarrow> nat \<Rightarrow> bool" where
  "rebuildable R P i n \<longleftrightarrow>
     is_ok (build_slot_client R (\<lambda>_ e. ''Invalid SOCKS5 proxy: '' @ e) (pool_addr P) (pool_enabled P) i n)"

lemma rotated_slot:
  assumes "i < length (slots P)"
  shows "slots (snd (rotate_slot R n i P)) ! i =
     (if rebuildable R P i n
      then \<lparr>slot_client = \<lparr>proxy_url = if pool_enabled P then Some (slot_proxy_url (pool_addr P) i) else None, build_no = n\<rparr>,
            healthy = True\<rparr>
      else slots P ! i)"
proof (cases "build_slot_client R (\<lambda>_ e. ''Invalid SOCKS5 proxy: '' @ e) (pool_addr P) (pool_enabled P) i n")
  case (Inr c)
  have "c = \<lparr>proxy_url = if pool_enabled P then Some (slot_proxy_url (pool_addr P) i) else None, build_no = n\<rparr>"
    using build_slot_client_url [OF Inr] by simp
  with assms show ?thesis unfolding rotate_slot_def rebuildable_def Inr by simp
next
  case (Inl e)
  show ?thesis using assms unfolding rotate_slot_def rebuildable_def Inl by simp
qed

text \<open>
  A round of the health check replaces exactly the circuits that need it: a slot whose probe
  succeeds keeps its client and is healthy; one whose probe fails is rebuilt on its own circuit
  with a client no slot had before the round, and is healthy, or, if the client cannot be
  built, keeps the old client and stays unhealthy.
\<close>

theorem health_check_exact:
  assumes "pool_ok P" "i < length (slots P)"
  shows "\<exists>k \<ge> n. pool_ok (snd (health_check_round R probe (n, P)))
     \<and> slots (snd (health_check_round R probe (n, P))) ! i =
        (let s = slots P ! i in
         if probe (slot_client s) then s\<lparr>healthy := True\<rparr>
         else if rebuildable R P i k then \<lparr>slot_client = (slot_client s)\<lparr>build_no := k\<rparr>, healthy = True\<rparr>
         else s\<lparr>healthy := False\<rparr>)"
proof -
  let ?Q = "probe_slots probe P"
  let ?k = "n + length (filter (\<lambda>j. \<not> healthy (slots ?Q ! j)) (takeWhile (\<lambda>j. j \<noteq> i) [0..<length (slots P)]))"
  have "pool_ok ?Q" using assms(1) by (simp add: pool_ok_def)
  then have "pool_ok (snd (health_check_round R probe (n, P)))"
    by (simp add: health_check_round_def rotate_unhealthy_ok)
  moreover have "slots (snd (health_check_round R probe (n, P))) ! i =
      (if healthy (slots ?Q ! i) then slots ?Q ! i else slots (snd (rotate_slot R ?k i ?Q)) ! i)"
    using assms(2) rotate_unhealthy_at [of i "[0..<length (slots P)]" R n ?Q] by (simp add: health_check_round_def)
  moreover have "rebuildable R ?Q i ?k = rebuildable R P i ?k" by (simp add: rebuildable_def)
  moreover have "(slot_client (slots P ! i))\<lparr>build_no := x\<rparr> =
      \<lparr>proxy_url = if pool_enabled P then Some (slot_proxy_url (pool_addr P) i) else None, build_no = x\<rparr>" for x
    using assms by (simp add: pool_ok_def)
  ultimately have "pool_ok (snd (health_check_round R probe (n, P)))
     \<and> slots (snd (health_check_round R probe (n, P))) ! i =
        (let s = slots P ! i in
         if probe (slot_client s) then s\<lparr>healthy := True\<rparr>
         else if rebuildable R P i ?k then \<lparr>slot_client = (slot_client s)\<lparr>build_no := ?k\<rparr>, healthy = True\<rparr>
         else s\<lparr>healthy := False\<rparr>)"
    using assms(2) rotated_slot [of i ?Q R ?k] by (simp add: Let_def)
  then show ?thesis using le_add1 by blast
qed

text \<open>
  Circuit isolation: however many rounds of the health check have run on a new pool, no two of
  its slots share a proxy URL when Tor is enabled, every key is served by a slot, always the
  same one, and only a pool of size zero, which the constructor accepts, panics at the first
  request for a client.
\<close>

theorem circuits_isolated:
  assumes "socks5_pool_new R addr k True = Inr P"
  shows "let P' = snd ((health_check_round R probe ^^ rounds) (k, P)) in
     inj_on (\<lambda>i. proxy_url (slot_client (slots P' ! i))) {..<length (slots P')}
     \<and> slot_index L P' key = slot_index L P key
     \<and> (if k = 0 then get_client L P' key = None
        else slot_index L P' key < length (slots P')
           \<and> get_client L P' key = Some (slot_client (slots P' ! slot_index L P key)))"
proof -
  let ?Q = "\<lambda>m. snd ((health_check_round R probe ^^ m) (k, P))"
  have round: "pool_ok (snd (health_check_round R probe nP)) \<and> length (slots (snd (health_check_round R probe nP))) = length (slots (snd nP))
      \<and> pool_addr (snd (health_check_round R probe nP)) = pool_addr (snd nP)
      \<and> pool_enabled (snd (health_check_round R probe nP)) = pool_enabled (snd nP)" if "pool_ok (snd nP)" for nP
  proof -
    have "pool_ok (probe_slots probe (snd nP))" using that by (simp add: pool_ok_def)
    then show ?thesis
      using rotate_unhealthy_frame rotate_unhealthy_ok by (simp add: health_check_round_def)
  qed
  have inv: "pool_ok (?Q m) \<and> length (slots (?Q m)) = k \<and> pool_addr (?Q m) = addr \<and> pool_enabled (?Q m)" for m
  proof (induction m)
    case 0
    then show ?case using socks5_pool_new_ok [OF assms] by simp
  next
    case (Suc m)
    with round [of "(health_check_round R probe ^^ m) (k, P)"] show ?case by simp
  qed
  have "slot_proxy_url addr i = slot_proxy_url addr j \<longleftrightarrow> i = j" for i j
    by (auto simp: slot_proxy_url_def)
  then have "inj_on (\<lambda>i. proxy_url (slot_client (slots (?Q rounds) ! i))) {..<length (slots (?Q rounds))}"
    using inv [of rounds] by (auto simp: inj_on_def pool_ok_def)
  moreover have "slot_index L (?Q rounds) key = slot_index L P key"
    using inv [of rounds] inv [of 0] by (auto simp: slot_index_def)
  moreover have "slot_index L (?Q rounds) key < length (slots (?Q rounds))" if "k \<noteq> 0"
    using inv [of rounds] that by (auto simp: slot_index_def)
  ultimately show ?thesis
    using inv [of rounds] by (cases "k = 0") (simp_all add: Let_def get_client_def slot_index_def)
qed

definition demo_reqwest :: reqwest where
  "demo_reqwest = \<lparr>proxy_all = (\<lambda>_. Inr ()), client_build = (\<lambda>n. if n < 4 then Inr () else Inl ''no descriptors'')\<rparr>"

lemma circuits_isolated_witness:
  "\<exists>P. socks5_pool_new demo_reqwest ''127.0.0.1:9050'' 2 True = Inr P
     \<and> (let P' = snd ((health_check_round demo_reqwest (\<lambda>_. False) ^^ 1) (2, P)) in
        \<exists>c. get_client demo_ext P' [1] = Some c)"
proof -
  obtain P where P: "socks5_pool_new demo_reqwest ''127.0.0.1:9050'' 2 True = Inr P"
    by (simp add: socks5_pool_new_def demo_reqwest_def build_slot_client_def upt_rec)
  from circuits_isolated [OF P, where probe = "\<lambda>_. False" and rounds = 1 and L = demo_ext and key = "[1]"] P show ?thesis by (simp add: Let_def)
qed

end
