(* ===== verification/Migrations.thy ===== *)
theory Migrations
  imports Rust_Std
begin

text \<open>
  \<^verbatim>\<open>src/src/db/mod.rs\<close>: the schema migrations.  The statements are those of the code, one constructor
  per form of SQL used; tables keep their columns in order and their rows as value lists.  Names are
  compared exactly, as all of them are lower case.
\<close>

section \<open>Tables\<close>

datatype sql_value = NullV | IntV int | TextV string | BlobV bytes

datatype sql_type = INTEGER | TEXT | BLOB

record column =
  c_name :: string
  c_type :: sql_type
  c_not_null :: bool
  c_unique :: bool  \<comment> \<open>UNIQUE or PRIMARY KEY\<close>
  c_default :: sql_value

record table =
  cols :: "column list"
  rows :: "sql_value list list"

record db =
  tables :: "string \<rightharpoonup> table"
  indexes :: "string \<rightharpoonup> string \<times> string list"

definition empty_db :: db where
  "empty_db = \<lparr>tables = Map.empty, indexes = Map.empty\<rparr>"

definition col :: "string \<Rightarrow> sql_type \<Rightarrow> column" where
  "col n t = \<lparr>c_name = n, c_type = t, c_not_null = False, c_unique = False, c_default = NullV\<rparr>"

definition primary :: "column \<Rightarrow> column" where "primary c = c\<lparr>c_unique := True\<rparr>"
definition unique :: "column \<Rightarrow> column" where "unique c = c\<lparr>c_unique := True\<rparr>"
definition not_null :: "column \<Rightarrow> column" where "not_null c = c\<lparr>c_not_null := True\<rparr>"
definition or_default :: "sql_value \<Rightarrow> column \<Rightarrow> column" where "or_default v c = c\<lparr>c_default := v\<rparr>"

definition col_names :: "table \<Rightarrow> string list" where
  "col_names t = map c_name (cols t)"

section \<open>Statements\<close>

datatype sql_expr = Col string | Lit sql_value

datatype stmt =
    CreateTable string "column list"  \<comment> \<open>IF NOT EXISTS\<close>
  | CreateIndex string string "string list"  \<comment> \<open>IF NOT EXISTS\<close>
  | DropTable string
  | DropTableIfExists string
  | DropIndex string  \<comment> \<open>IF EXISTS\<close>
  | AddColumn string column
  | RenameTable string string
  | InsertSelect string "(string \<times> sql_expr) list" string
  | InsertValues string "(string \<times> sql_value) list"

text \<open>Inserting rows: NOT NULL and uniqueness are checked, NULLs being distinct from each other; all rows or none.\<close>

definition row_ok :: "column list \<Rightarrow> sql_value list \<Rightarrow> bool" where
  "row_ok cs r = list_all2 (\<lambda>c v. c_not_null c \<longrightarrow> v \<noteq> NullV) cs r"

fun keys_ok :: "column list \<Rightarrow> sql_value list list \<Rightarrow> bool" where
  "keys_ok [] rs = True"
| "keys_ok (c # cs) rs =
     ((c_unique c \<longrightarrow> distinct (filter (\<lambda>v. v \<noteq> NullV) (map hd rs))) \<and> keys_ok cs (map tl rs))"

definition insert_rows :: "table \<Rightarrow> sql_value list list \<Rightarrow> string + table" where
  "insert_rows t rs =
     (if \<not> list_all (row_ok (cols t)) rs then Inl ''NOT NULL constraint failed''
      else if \<not> keys_ok (cols t) (rows t @ rs) then Inl ''UNIQUE constraint failed''
      else Inr (t\<lparr>rows := rows t @ rs\<rparr>))"

definition new_row :: "table \<Rightarrow> (string \<times> sql_value) list \<Rightarrow> sql_value list" where
  "new_row t vals = map (\<lambda>c. case map_of vals (c_name c) of Some v \<Rightarrow> v | None \<Rightarrow> c_default c) (cols t)"

definition eval_expr :: "table \<Rightarrow> sql_value list \<Rightarrow> sql_expr \<Rightarrow> sql_value" where
  "eval_expr t r e =
     (case e of Col n \<Rightarrow> unwrap_or (map_of (zip (col_names t) r) n) NullV | Lit v \<Rightarrow> v)"

definition known_col :: "table \<Rightarrow> sql_expr \<Rightarrow> bool" where
  "known_col t e = (case e of Col n \<Rightarrow> n \<in> set (col_names t) | Lit _ \<Rightarrow> True)"

definition put_table :: "string \<Rightarrow> string + table \<Rightarrow> db \<Rightarrow> (string + unit) \<times> db" where
  "put_table n res D = (case res of Inl e \<Rightarrow> (Inl e, D) | Inr t \<Rightarrow> (Inr (), D\<lparr>tables := (tables D)(n \<mapsto> t)\<rparr>))"

definition drop_table :: "string \<Rightarrow> db \<Rightarrow> db" where
  "drop_table n D = D\<lparr>tables := (tables D)(n := None),
     indexes := (\<lambda>i. case indexes D i of Some (t, cs) \<Rightarrow> if t = n then None else Some (t, cs) | None \<Rightarrow> None)\<rparr>"

fun exec :: "stmt \<Rightarrow> db \<Rightarrow> (string + unit) \<times> db" where
  "exec (CreateTable n cs) D =
     (if tables D n \<noteq> None then (Inr (), D)
      else if indexes D n \<noteq> None then (Inl ''there is already an index with that name'', D)
      else (Inr (), D\<lparr>tables := (tables D)(n \<mapsto> \<lparr>cols = cs, rows = []\<rparr>)\<rparr>))"
| "exec (CreateIndex i n cs) D =
     (case tables D n of
        None \<Rightarrow> (Inl ''no such table'', D)
      | Some t \<Rightarrow>
         (if tables D i \<noteq> None then (Inl ''there is already a table with that name'', D)
          else if indexes D i \<noteq> None then (Inr (), D)
          else if \<not> list_all (\<lambda>c. c \<in> set (col_names t)) cs then (Inl ''no such column'', D)
          else (Inr (), D\<lparr>indexes := (indexes D)(i \<mapsto> (n, cs))\<rparr>)))"
| "exec (DropTable n) D =
     (if tables D n = None then (Inl ''no such table'', D) else (Inr (), drop_table n D))"
| "exec (DropTableIfExists n) D = (Inr (), if tables D n = None then D else drop_table n D)"
| "exec (DropIndex i) D = (Inr (), D\<lparr>indexes := (indexes D)(i := None)\<rparr>)"
| "exec (AddColumn n c) D =
     (case tables D n of
        None \<Rightarrow> (Inl ''no such table'', D)
      | Some t \<Rightarrow>
         (if c_name c \<in> set (col_names t) then (Inl ''duplicate column name'', D)
          else if c_unique c then (Inl ''Cannot add a UNIQUE column'', D)
          else if c_not_null c \<and> c_default c = NullV then (Inl ''Cannot add a NOT NULL column with default value NULL'', D)
          else put_table n (Inr (t\<lparr>cols := cols t @ [c], rows := map (\<lambda>r. r @ [c_default c]) (rows t)\<rparr>)) D))"
| "exec (RenameTable a b) D =
     (case tables D a of
        None \<Rightarrow> (Inl ''no such table'', D)
      | Some t \<Rightarrow>
         (if tables D b \<noteq> None \<or> indexes D b \<noteq> None then (Inl ''there is already another table or index with this name'', D)
          else (Inr (), D\<lparr>tables := (tables D)(a := None, b \<mapsto> t),
                  indexes := (\<lambda>i. map_option (\<lambda>(n, cs). (if n = a then b else n, cs)) (indexes D i))\<rparr>)))"
| "exec (InsertSelect n es m) D =
     (case (tables D n, tables D m) of
        (Some t, Some s) \<Rightarrow>
          (if \<not> list_all (\<lambda>(c, e). c \<in> set (col_names t) \<and> known_col s e) es then (Inl ''no such column'', D)
           else put_table n (insert_rows t (map (\<lambda>r. new_row t (map (\<lambda>(c, e). (c, eval_expr s r e)) es)) (rows s))) D)
      | _ \<Rightarrow> (Inl ''no such table'', D))"
| "exec (InsertValues n vs) D =
     (case tables D n of
        None \<Rightarrow> (Inl ''no such table'', D)
      | Some t \<Rightarrow>
         (if \<not> list_all (\<lambda>(c, _). c \<in> set (col_names t)) vs then (Inl ''no such column'', D)
          else put_table n (insert_rows t [new_row t vs]) D))"

section \<open>Running statements\<close>

text \<open>
  What a run meets: the statements and queries that fail (a full disk, a lost connection, or the
  process being killed there), and the clock at each migration.
\<close>

record sqlite_env =
  stmt_fault :: "stmt \<Rightarrow> string option"
  query_fault :: "string \<Rightarrow> string option"
  clock :: "nat \<Rightarrow> int"

definition healthy :: "sqlite_env \<Rightarrow> bool" where
  "healthy E \<longleftrightarrow> (\<forall>x. stmt_fault E x = None) \<and> (\<forall>q. query_fault E q = None)"

definition execute :: "sqlite_env \<Rightarrow> stmt \<Rightarrow> db \<Rightarrow> (string + unit) \<times> db" where
  "execute E x D = (case stmt_fault E x of Some e \<Rightarrow> (Inl e, D) | None \<Rightarrow> exec x D)"

definition column_exists :: "sqlite_env \<Rightarrow> db \<Rightarrow> string \<Rightarrow> string \<Rightarrow> bool" where
  "column_exists E D n c =
     (case query_fault E (''PRAGMA table_info('' @ n @ '')'') of
        Some _ \<Rightarrow> False
      | None \<Rightarrow> (case tables D n of None \<Rightarrow> False | Some t \<Rightarrow> c \<in> set (col_names t)))"

text \<open>
  \<open>Try_column\<close>: add the column if it is missing and only warn when that fails; \<open>Need_column\<close>: fail then.
\<close>

datatype step = Exec stmt | Try_column string column | Need_column string column

fun run_step :: "sqlite_env \<Rightarrow> step \<Rightarrow> db \<Rightarrow> (string + unit) \<times> db" where
  "run_step E (Exec x) D = execute E x D"
| "run_step E (Try_column n c) D =
     (if \<not> column_exists E D n (c_name c) then ignore (execute E (AddColumn n c) D) else (Inr (), D))"
| "run_step E (Need_column n c) D =
     (if \<not> column_exists E D n (c_name c) then execute E (AddColumn n c) D else (Inr (), D))"

definition run_steps :: "sqlite_env \<Rightarrow> step list \<Rightarrow> db \<Rightarrow> (string + unit) \<times> db" where
  "run_steps E xs = for_each (run_step E) xs"

definition record_version :: "int \<Rightarrow> int \<Rightarrow> string \<Rightarrow> stmt" where
  "record_version n now descr =
     InsertValues ''schema_migrations''
       [(''version'', IntV n), (''applied_at'', IntV now), (''description'', TextV descr)]"

section \<open>The migrations\<close>

definition run_migration_v1 :: "int \<Rightarrow> step list" where
  "run_migration_v1 now =
     [Exec (CreateTable ''users''
        [primary (col ''pubkey_hash'' BLOB),
         not_null (col ''encrypted_meta'' BLOB),
         not_null (col ''created_at'' INTEGER),
         not_null (col ''last_active'' INTEGER),
         or_default (TextV ''active'') (col ''status'' TEXT)]),
      Exec (CreateTable ''listings''
        [primary (col ''id'' BLOB),
         not_null (col ''seller_pubkey_hash'' BLOB),
         col ''seller_pubkey'' TEXT,
         not_null (col ''encrypted_data'' BLOB),
         col ''encrypted_search'' BLOB,
         or_default (TextV ''XMR'') (not_null (col ''currency'' TEXT)),
         not_null (col ''price_amount'' TEXT),
         or_default (TextV ''active'') (not_null (col ''status'' TEXT)),
         not_null (col ''created_at'' INTEGER),
         col ''expires_at'' INTEGER,
         not_null (col ''updated_at'' INTEGER)]),
      Exec (CreateTable ''orders''
        [primary (col ''id'' BLOB),
         not_null (col ''listing_id'' BLOB),
         not_null (col ''buyer_pubkey_hash'' BLOB),
         not_null (col ''seller_pubkey_hash'' BLOB),
         col ''buyer_pubkey'' TEXT,
         col ''seller_pubkey'' TEXT,
         or_default (TextV ''pending'') (not_null (col ''state'' TEXT)),
         not_null (col ''currency'' TEXT),
         col ''escrow_address'' TEXT,
         col ''escrow_amount'' TEXT,
         or_default (IntV 604800) (not_null (col ''time_lock_seconds'' INTEGER)),
         not_null (col ''created_at'' INTEGER),
         col ''funded_at'' INTEGER,
         col ''shipped_at'' INTEGER,
         col ''confirmed_at'' INTEGER,
         col ''released_at'' INTEGER,
         col ''refunded_at'' INTEGER,
         col ''disputed_at'' INTEGER,
         col ''expires_at'' INTEGER,
         col ''encrypted_blob'' BLOB]),
      Exec (CreateTable ''chat_messages''
        [primary (col ''id'' BLOB),
         not_null (col ''order_id'' BLOB),
         not_null (col ''sender_pubkey_hash'' BLOB),
         not_null (col ''encrypted_body'' BLOB),
         not_null (col ''created_at'' INTEGER),
         not_null (col ''expires_at'' INTEGER)]),
      Exec (CreateIndex ''idx_listings_seller'' ''listings'' [''seller_pubkey_hash'']),
      Exec (CreateIndex ''idx_listings_status'' ''listings'' [''status'']),
      Exec (CreateIndex ''idx_orders_buyer'' ''orders'' [''buyer_pubkey_hash'']),
      Exec (CreateIndex ''idx_orders_seller'' ''orders'' [''seller_pubkey_hash'']),
      Exec (CreateIndex ''idx_orders_state'' ''orders'' [''state'']),
      Exec (CreateIndex ''idx_chat_order'' ''chat_messages'' [''order_id'']),
      Exec (record_version 1 now
        ''Initial schema with users, listings, orders, chat_messages'')]"

definition run_migration_v2 :: "int \<Rightarrow> step list" where
  "run_migration_v2 now =
     [Exec (CreateTable ''audit_logs''
        [primary (col ''id'' TEXT),
         not_null (col ''event_type'' TEXT),
         col ''pubkey_hash'' TEXT,
         col ''resource_id'' TEXT,
         col ''resource_type'' TEXT,
         col ''details'' TEXT,
         not_null (col ''timestamp'' INTEGER),
         not_null (col ''severity'' TEXT),
         col ''ip_hash'' TEXT,
         col ''user_agent'' TEXT]),
      Exec (CreateTable ''payment_audits''
        [primary (col ''id'' TEXT),
         not_null (col ''order_id'' TEXT),
         not_null (col ''tx_hash'' TEXT),
         not_null (col ''address'' TEXT),
         not_null (col ''amount'' INTEGER),
         col ''credited_height'' INTEGER,
         not_null (col ''credited_at'' INTEGER),
         or_default (IntV 0) (col ''verified'' INTEGER),
         col ''rollback_at'' INTEGER,
         not_null (col ''created_at'' INTEGER)]),
      Exec (CreateIndex ''idx_orders_escrow'' ''orders'' [''escrow_address'']),
      Exec (CreateIndex ''idx_listings_search'' ''listings'' [''encrypted_search'']),
      Exec (CreateIndex ''idx_audit_timestamp'' ''audit_logs'' [''timestamp'']),
      Exec (CreateIndex ''idx_audit_event'' ''audit_logs'' [''event_type'']),
      Exec (CreateIndex ''idx_payment_audit_tx'' ''payment_audits'' [''tx_hash'']),
      Exec (CreateIndex ''idx_payment_audit_order'' ''payment_audits'' [''order_id'']),
      Exec (CreateIndex ''idx_listings_expires'' ''listings'' [''expires_at'']),
      Exec (record_version 2 now
        ''Added audit_logs, payment_audits tables and additional indexes'')]"

definition run_migration_v3 :: "int \<Rightarrow> step list" where
  "run_migration_v3 now =
     [Exec (CreateTable ''disputes''
        [primary (col ''id'' TEXT),
         not_null (unique (col ''order_id'' TEXT)),
         not_null (col ''opened_by'' TEXT),
         not_null (col ''reason'' TEXT),
         col ''resolution'' TEXT,
         col ''resolved_by'' TEXT,
         col ''resolved_at'' INTEGER,
         not_null (col ''created_at'' INTEGER)]),
      Exec (CreateTable ''dispute_evidence''
        [primary (col ''id'' TEXT),
         not_null (col ''dispute_id'' TEXT),
         not_null (col ''submitted_by'' TEXT),
         not_null (col ''encrypted_content'' BLOB),
         not_null (col ''content_type'' TEXT),
         not_null (col ''created_at'' INTEGER)]),
      Exec (CreateIndex ''idx_disputes_order'' ''disputes'' [''order_id'']),
      Exec (CreateIndex ''idx_dispute_evidence_dispute'' ''dispute_evidence'' [''dispute_id'']),
      Try_column ''orders'' (col ''disputed_at'' INTEGER),
      Try_column ''orders'' (col ''dispute_id'' TEXT),
      Exec (record_version 3 now
        ''Added disputes, dispute_evidence tables, dispute_id and disputed_at on orders'')]"

definition run_migration_v4 :: "int \<Rightarrow> step list" where
  "run_migration_v4 now =
     [Try_column ''orders'' (col ''owner_pubkey'' TEXT),
      Try_column ''orders'' (col ''fee_percent'' INTEGER),
      Try_column ''orders'' (col ''fee_address'' TEXT),
      Try_column ''orders'' (col ''multi_sig_key'' BLOB),
      Try_column ''orders'' (col ''multi_sig_redeem_script'' TEXT),
      Try_column ''orders'' (col ''buyer_sig'' BLOB),
      Try_column ''orders'' (col ''seller_sig'' BLOB),
      Exec (record_version 4 now
        ''Added escrow/multi-sig columns: owner_pubkey, fee_percent, fee_address, multi_sig_key, multi_sig_redeem_script, buyer_sig, seller_sig'')]"

definition run_migration_v5 :: "int \<Rightarrow> step list" where
  "run_migration_v5 now =
     [Try_column ''orders'' (col ''updated_at'' INTEGER),
      Exec (record_version 5 now
        ''Added updated_at column to orders for state transition timestamps'')]"

definition run_migration_v6 :: "int \<Rightarrow> step list" where
  "run_migration_v6 now =
     [Exec (DropTableIfExists ''audit_logs''),
      Exec (DropTableIfExists ''payment_audits''),
      Exec (record_version 6 now
        ''Dropped audit_logs and payment_audits tables (anti-anonymity metadata)'')]"

definition run_migration_v7 :: "int \<Rightarrow> step list" where
  "run_migration_v7 now =
     [Exec (DropTableIfExists ''users''),
      Exec (record_version 7 now
        (''Dropped users table (stateless HMAC auth '' @ utf8_bytes [226, 128, 148] @ '' no DB writes on register)''))]"

definition run_migration_v8 :: "int \<Rightarrow> step list" where
  "run_migration_v8 now =
     [Exec (DropTableIfExists ''chat_messages''),
      Exec (DropTableIfExists ''disputes''),
      Exec (DropTableIfExists ''dispute_evidence''),
      Exec (DropIndex ''idx_chat_order''),
      Exec (DropIndex ''idx_disputes_order''),
      Exec (DropIndex ''idx_dispute_evidence_dispute''),
      Exec (record_version 8 now
        ''Dropped chat_messages, disputes, dispute_evidence tables'')]"

definition run_migration_v9 :: "int \<Rightarrow> step list" where
  "run_migration_v9 now =
     [Try_column ''orders'' (col ''encrypted_order_blob'' BLOB),
      Try_column ''orders'' (col ''day_bucket'' INTEGER),
      Try_column ''orders'' (col ''expiry_bucket'' INTEGER),
      Exec (DropIndex ''idx_orders_buyer''),
      Exec (DropIndex ''idx_orders_seller''),
      Exec (DropIndex ''idx_orders_state''),
      Exec (DropIndex ''idx_orders_escrow''),
      Exec (CreateIndex ''idx_orders_day_bucket'' ''orders'' [''day_bucket'']),
      Exec (CreateIndex ''idx_orders_expiry_bucket'' ''orders'' [''expiry_bucket'']),
      Exec (record_version 9 now
        ''Added encrypted_order_blob, day_bucket, expiry_bucket to orders; new indexes'')]"

definition run_migration_v10 :: "int \<Rightarrow> step list" where
  "run_migration_v10 now =
     [Exec (CreateTable ''orders_new''
        [primary (col ''id'' BLOB),
         col ''encrypted_order_blob'' BLOB,
         col ''day_bucket'' INTEGER,
         col ''expiry_bucket'' INTEGER]),
      Exec (InsertSelect ''orders_new''
        [(''id'', Col ''id''), (''encrypted_order_blob'', Col ''encrypted_order_blob''),
         (''day_bucket'', Col ''day_bucket''), (''expiry_bucket'', Col ''expiry_bucket'')] ''orders''),
      Exec (DropTable ''orders''),
      Exec (RenameTable ''orders_new'' ''orders''),
      Exec (CreateIndex ''idx_orders_day_bucket'' ''orders'' [''day_bucket'']),
      Exec (CreateIndex ''idx_orders_expiry_bucket'' ''orders'' [''expiry_bucket'']),
      Exec (record_version 10 now
        ''Dropped legacy columns from orders (kept: id, encrypted_order_blob, day_bucket, expiry_bucket)'')]"

definition run_migration_v11 :: "int \<Rightarrow> step list" where
  "run_migration_v11 now =
     [Exec (CreateTable ''listings_new''
        [primary (col ''id'' BLOB),
         or_default (BlobV []) (not_null (col ''encrypted_listing_blob'' BLOB)),
         or_default (IntV 0) (not_null (col ''day_bucket'' INTEGER)),
         col ''search_token'' BLOB]),
      Exec (InsertSelect ''listings_new''
        [(''id'', Col ''id''), (''encrypted_listing_blob'', Lit (BlobV [])),
         (''day_bucket'', Lit (IntV 0)), (''search_token'', Col ''encrypted_search'')] ''listings''),
      Exec (DropIndex ''idx_listings_seller''),
      Exec (DropIndex ''idx_listings_status''),
      Exec (DropIndex ''idx_listings_search''),
      Exec (DropIndex ''idx_listings_expires''),
      Exec (DropTable ''listings''),
      Exec (RenameTable ''listings_new'' ''listings''),
      Exec (CreateIndex ''idx_listings_day_bucket'' ''listings'' [''day_bucket'']),
      Exec (record_version 11 now
        ''Rebuilt listings table: encrypted_listing_blob, day_bucket, search_token (dropped 11 plaintext columns)'')]"

definition run_migration_v12 :: "int \<Rightarrow> step list" where
  "run_migration_v12 now =
     [Try_column ''orders'' (or_default (IntV 1) (not_null (col ''version'' INTEGER))),
      Exec (record_version 12 now
        ''Added version column to orders for TOCTOU guard on concurrent writes'')]"

definition run_migration_v13 :: "int \<Rightarrow> step list" where
  "run_migration_v13 now =
     [Need_column ''orders'' (or_default (IntV 0) (not_null (col ''has_dispute'' INTEGER))),
      Exec (CreateIndex ''idx_orders_has_dispute'' ''orders'' [''has_dispute'']),
      Exec (record_version 13 now
        ''Added has_dispute column to orders (prevents full-table scans for dispute lookups)'')]"

definition run_migration_v14 :: "int \<Rightarrow> step list" where
  "run_migration_v14 now =
     [Need_column ''listings'' (or_default (TextV ''active'') (not_null (col ''status'' TEXT))),
      Need_column ''listings'' (or_default (TextV ''XMR'') (not_null (col ''currency'' TEXT))),
      Need_column ''listings'' (or_default (IntV 1) (not_null (col ''version'' INTEGER))),
      Exec (CreateIndex ''idx_listings_status'' ''listings'' [''status'']),
      Exec (CreateIndex ''idx_listings_currency'' ''listings'' [''currency'']),
      Exec (CreateIndex ''idx_listings_status_currency'' ''listings'' [''status'', ''currency'']),
      Exec (record_version 14 now
        ''Added status, currency, version columns to listings with indexes'')]"

definition run_migration_v15 :: "int \<Rightarrow> step list" where
  "run_migration_v15 now =
     [Need_column ''orders'' (col ''client_encrypted_blob'' BLOB),
      Exec (record_version 15 now
        ''Added client_encrypted_blob to orders for E2E client-side encryption'')]"

definition run_migration_v16 :: "int \<Rightarrow> step list" where
  "run_migration_v16 now =
     [Need_column ''orders'' (col ''dispute_client_blob'' BLOB),
      Exec (record_version 16 now
        ''Added dispute_client_blob to orders for E2E dispute encryption'')]"

definition run_migration_v17 :: "int \<Rightarrow> step list" where
  "run_migration_v17 now =
     [Need_column ''orders'' (col ''chat_encrypted_blob'' BLOB),
      Exec (record_version 17 now
        ''Added chat_encrypted_blob to orders for E2E chat encryption'')]"

definition run_migration_v18 :: "int \<Rightarrow> step list" where
  "run_migration_v18 now =
     [Exec (CreateTable ''notification_tracker''
        [primary (col ''tx_hash'' BLOB),
         not_null (col ''order_id'' BLOB),
         not_null (col ''buyer_pubkey'' BLOB),
         not_null (col ''processed_at'' INTEGER)]),
      Exec (record_version 18 now
        ''Added notification_tracker table for OP_RETURN notification scanning'')]"

section \<open>The runner\<close>

definition create_schema_migrations :: stmt where
  "create_schema_migrations =
     CreateTable ''schema_migrations''
       [primary (col ''version'' INTEGER), not_null (col ''applied_at'' INTEGER), col ''description'' TEXT]"

text \<open>
  \<^verbatim>\<open>SELECT MAX(version)\<close>, decoded as \<^verbatim>\<open>i64\<close>: the NULL of an empty table decodes to zero, a text or blob
  (which sort above the numbers) not at all.
\<close>

definition max_version :: "sql_value list \<Rightarrow> string + int" where
  "max_version vs =
     (if list_ex (\<lambda>v. case v of TextV _ \<Rightarrow> True | BlobV _ \<Rightarrow> True | _ \<Rightarrow> False) vs then Inl ''mismatched types''
      else case List.map_filter (\<lambda>v. case v of IntV i \<Rightarrow> Some i | _ \<Rightarrow> None) vs of
             [] \<Rightarrow> Inr 0 | i # is \<Rightarrow> Inr (foldr max is i))"

definition get_schema_version :: "sqlite_env \<Rightarrow> db \<Rightarrow> string + int" where
  "get_schema_version E D =
     (case query_fault E ''SELECT MAX(version) FROM schema_migrations'' of
        Some e \<Rightarrow> Inl e
      | None \<Rightarrow>
         (case tables D ''schema_migrations'' of
            None \<Rightarrow> Inl ''no such table''
          | Some t \<Rightarrow> (if ''version'' \<notin> set (col_names t) then Inl ''no such column''
                       else max_version (map (\<lambda>r. eval_expr t r (Col ''version'')) (rows t)))))"

definition migrations :: "(nat \<times> (int \<Rightarrow> step list)) list" where
  "migrations =
     [(1, run_migration_v1), (2, run_migration_v2), (3, run_migration_v3), (4, run_migration_v4),
      (5, run_migration_v5), (6, run_migration_v6), (7, run_migration_v7), (8, run_migration_v8),
      (9, run_migration_v9), (10, run_migration_v10), (11, run_migration_v11), (12, run_migration_v12),
      (13, run_migration_v13), (14, run_migration_v14), (15, run_migration_v15), (16, run_migration_v16),
      (17, run_migration_v17), (18, run_migration_v18)]"

definition run_sqlite_migrations :: "sqlite_env \<Rightarrow> db \<Rightarrow> (string + unit) \<times> db" where
  "run_sqlite_migrations E D =
     then_do (execute E create_schema_migrations D) (\<lambda>_ D.
     then_do (get_schema_version E D, D) (\<lambda>db_version D.
       for_each (\<lambda>(n, m) D. if db_version < int n then run_steps E (m (clock E n)) D else (Inr (), D)) migrations D))"

section \<open>Reading the definitions\<close>

lemma column_simps [simp]:
  "c_name (col n t) = n" "c_name (primary c) = c_name c" "c_name (unique c) = c_name c" "c_name (not_null c) = c_name c"
  "c_name (or_default v c) = c_name c"
  "c_not_null (col n t) = False" "c_not_null (primary c) = c_not_null c" "c_not_null (unique c) = c_not_null c"
  "c_not_null (not_null c) = True" "c_not_null (or_default v c) = c_not_null c"
  "c_unique (col n t) = False" "c_unique (primary c) = True" "c_unique (unique c) = True" "c_unique (not_null c) = c_unique c"
  "c_unique (or_default v c) = c_unique c"
  "c_default (col n t) = NullV" "c_default (primary c) = c_default c" "c_default (unique c) = c_default c"
  "c_default (not_null c) = c_default c" "c_default (or_default v c) = v"
  by (simp_all add: col_def primary_def unique_def not_null_def or_default_def)

lemma healthy_simps [simp]:
  "healthy E \<Longrightarrow> execute E x D = exec x D" "healthy E \<Longrightarrow> query_fault E q = None"
  by (simp_all add: healthy_def execute_def)

lemma put_table_simps [simp]:
  "put_table n (Inl e) D = (Inl e, D)" "put_table n (Inr t) D = (Inr (), D\<lparr>tables := (tables D)(n \<mapsto> t)\<rparr>)"
  by (simp_all add: put_table_def)

lemma for_each_append: "for_each f (xs @ ys) s = then_do (for_each f xs s) (\<lambda>_. for_each f ys)"
  by (induction xs arbitrary: s) (auto simp: then_do_def split: sum.split)

section \<open>The log of applied migrations\<close>

text \<open>A statement that leaves the table \<^verbatim>\<open>schema_migrations\<close> alone.\<close>

fun quiet :: "stmt \<Rightarrow> bool" where
  "quiet (CreateTable n cs) \<longleftrightarrow> n \<noteq> ''schema_migrations''"
| "quiet (CreateIndex i n cs) \<longleftrightarrow> True"
| "quiet (DropTable n) \<longleftrightarrow> n \<noteq> ''schema_migrations''"
| "quiet (DropTableIfExists n) \<longleftrightarrow> n \<noteq> ''schema_migrations''"
| "quiet (DropIndex i) \<longleftrightarrow> True"
| "quiet (AddColumn n c) \<longleftrightarrow> n \<noteq> ''schema_migrations''"
| "quiet (RenameTable a b) \<longleftrightarrow> a \<noteq> ''schema_migrations'' \<and> b \<noteq> ''schema_migrations''"
| "quiet (InsertSelect n es m) \<longleftrightarrow> n \<noteq> ''schema_migrations''"
| "quiet (InsertValues n vs) \<longleftrightarrow> n \<noteq> ''schema_migrations''"

fun quiet_step :: "step \<Rightarrow> bool" where
  "quiet_step (Exec x) \<longleftrightarrow> quiet x"
| "quiet_step (Try_column n c) \<longleftrightarrow> n \<noteq> ''schema_migrations''"
| "quiet_step (Need_column n c) \<longleftrightarrow> n \<noteq> ''schema_migrations''"

lemma quiet_exec: "quiet x \<Longrightarrow> tables (snd (exec x D)) ''schema_migrations'' = tables D ''schema_migrations''"
  by (cases "(x, D)" rule: exec.cases)
     (auto simp: drop_table_def put_table_def split: option.split sum.split)

lemma quiet_run: "quiet_step x \<Longrightarrow> tables (snd (run_step E x D)) ''schema_migrations'' = tables D ''schema_migrations''"
  by (cases x) (auto simp: execute_def quiet_exec split: option.split)

text \<open>The applied versions, as the table has them; its version column holds integers only.\<close>

definition versions :: "db \<Rightarrow> sql_value list" where
  "versions D = (case tables D ''schema_migrations'' of None \<Rightarrow> []
     | Some t \<Rightarrow> map (\<lambda>r. eval_expr t r (Col ''version'')) (rows t))"

definition log_ok :: "db \<Rightarrow> bool" where
  "log_ok D \<longleftrightarrow> (\<exists>t. tables D ''schema_migrations'' = Some t \<and> ''version'' \<in> set (col_names t)) \<and> is_ok (max_version (versions D))"

lemma get_schema_version_Inr:
  "get_schema_version E D = Inr v \<Longrightarrow> log_ok D \<and> max_version (versions D) = Inr v"
  by (auto simp: get_schema_version_def log_ok_def versions_def split: option.splits if_splits)

lemma get_schema_version_log:
  "log_ok D \<Longrightarrow> healthy E \<Longrightarrow> get_schema_version E D = max_version (versions D)"
  by (auto simp: get_schema_version_def log_ok_def versions_def)

lemma max_version_ge: "max_version vs = Inr v \<Longrightarrow> IntV n \<in> set vs \<Longrightarrow> n \<le> v"
proof -
  assume *: "max_version vs = Inr v" "IntV n \<in> set vs"
  then have "n \<in> set (List.map_filter (\<lambda>v. case v of IntV i \<Rightarrow> Some i | _ \<Rightarrow> None) vs)"
    by (force simp: List.map_filter_def)
  moreover have "k \<in> set (i # js) \<Longrightarrow> k \<le> foldr max js (i :: int)" for k i js
    by (induction js) auto
  ultimately show "n \<le> v"
    using *(1) by (auto simp: max_version_def split: if_splits list.splits)
qed

lemma max_version_snoc: "is_ok (max_version vs) \<Longrightarrow> is_ok (max_version (vs @ [IntV n]))"
  by (auto simp: max_version_def split: if_splits list.splits)

text \<open>Recording a version adds it to the log, whatever columns the table has.\<close>

lemma new_row_version:
  "''version'' \<in> set (map c_name cs) \<Longrightarrow> map_of vs ''version'' = Some v \<Longrightarrow>
     map_of (zip (map c_name cs) (map (\<lambda>c. case map_of vs (c_name c) of Some v \<Rightarrow> v | None \<Rightarrow> c_default c) cs)) ''version'' = Some v"
  by (induction cs) auto

lemma record_version_logs:
  assumes "log_ok D" "fst (exec (record_version n now d) D) = Inr ()"
  shows "versions (snd (exec (record_version n now d) D)) = versions D @ [IntV n] \<and> log_ok (snd (exec (record_version n now d) D))"
proof -
  obtain t where t: "tables D ''schema_migrations'' = Some t" "''version'' \<in> set (map c_name (cols t))"
    using assms(1) by (auto simp: log_ok_def col_names_def)
  let ?vs = "[(''version'', IntV n), (''applied_at'', IntV now), (''description'', TextV d)]"
  let ?t = "t\<lparr>rows := rows t @ [new_row t ?vs]\<rparr>"
  have run: "snd (exec (record_version n now d) D) = D\<lparr>tables := (tables D)(''schema_migrations'' \<mapsto> ?t)\<rparr>"
    using assms(2) t(1) by (auto simp: record_version_def put_table_def insert_rows_def split: if_splits)
  have "eval_expr t (new_row t ?vs) (Col ''version'') = IntV n"
    using new_row_version [OF t(2), of ?vs] by (simp add: eval_expr_def new_row_def col_names_def)
  then have "versions (snd (exec (record_version n now d) D)) = versions D @ [IntV n]"
    using t(1) by (simp add: run versions_def eval_expr_def col_names_def)
  moreover have "is_ok (max_version (versions D @ [IntV n]))"
    using assms(1) max_version_snoc by (auto simp: log_ok_def)
  ultimately show ?thesis
    using t by (simp add: log_ok_def run col_names_def)
qed

text \<open>Every migration is a series of statements on other tables, then the record of its version.\<close>

lemmas migration_defs =
  run_migration_v1_def run_migration_v2_def run_migration_v3_def run_migration_v4_def run_migration_v5_def
  run_migration_v6_def run_migration_v7_def run_migration_v8_def run_migration_v9_def run_migration_v10_def
  run_migration_v11_def run_migration_v12_def run_migration_v13_def run_migration_v14_def run_migration_v15_def
  run_migration_v16_def run_migration_v17_def run_migration_v18_def

definition records :: "nat \<Rightarrow> step \<Rightarrow> bool" where
  "records n x \<longleftrightarrow> (\<exists>now d. x = Exec (record_version (int n) now d))"

lemma migrations_shape:
  "(n, m) \<in> set migrations \<Longrightarrow> \<exists>init d. m now = init @ [Exec (record_version (int n) now d)] \<and> list_all quiet_step init"
proof -
  assume "(n, m) \<in> set migrations"
  then have "m now = butlast (m now) @ [last (m now)] \<and> list_all quiet_step (butlast (m now))
      \<and> (\<exists>d. last (m now) = Exec (record_version (int n) now d))"
    unfolding migrations_def
    by (elim set_ConsD [elim_format] disjE) (simp_all add: migration_defs record_version_def)
  then show ?thesis by metis
qed

lemma quiet_steps_run:
  "list_all quiet_step xs \<Longrightarrow> tables (snd (run_steps E xs D)) ''schema_migrations'' = tables D ''schema_migrations''"
  by (induction xs arbitrary: D) (auto simp: run_steps_def then_do_def quiet_run split: sum.split)

lemma versions_cong: "tables D ''schema_migrations'' = tables D' ''schema_migrations'' \<Longrightarrow> versions D = versions D' \<and> log_ok D = log_ok D'"
  by (simp add: versions_def log_ok_def)

lemma migration_logs:
  assumes "(n, m) \<in> set migrations" "log_ok D" "run_steps E (m now) D = (Inr (), D')"
  shows "versions D' = versions D @ [IntV (int n)] \<and> log_ok D'"
proof -
  obtain init d where m: "m now = init @ [Exec (record_version (int n) now d)]" "list_all quiet_step init"
    using migrations_shape [OF assms(1)] by blast
  let ?D = "snd (run_steps E init D)"
  have "fst (run_steps E init D) = Inr ()" "execute E (record_version (int n) now d) ?D = (Inr (), D')"
    using assms(3) m(1) by (auto simp: run_steps_def for_each_append then_do_Inr)
  then have "exec (record_version (int n) now d) ?D = (Inr (), D')"
    by (auto simp: execute_def split: option.splits)
  moreover have "versions ?D = versions D" "log_ok ?D"
    using versions_cong [OF quiet_steps_run [OF m(2)]] assms(2) by auto
  ultimately show ?thesis using record_version_logs [of ?D "int n" now d] by simp
qed

text \<open>The part of a run behind the version query.\<close>

definition run_from :: "sqlite_env \<Rightarrow> int \<Rightarrow> (nat \<times> (int \<Rightarrow> step list)) list \<Rightarrow> db \<Rightarrow> (string + unit) \<times> db" where
  "run_from E v ms = for_each (\<lambda>(n, m) D. if v < int n then run_steps E (m (clock E n)) D else (Inr (), D)) ms"

lemma run_from_done: "\<forall>(n, m) \<in> set ms. int n \<le> v \<Longrightarrow> run_from E v ms D = (Inr (), D)"
  unfolding run_from_def by (induction ms) auto

lemma run_from_logs:
  assumes "set ms \<subseteq> set migrations" "log_ok D" "run_from E v ms D = (Inr (), D')"
  shows "log_ok D' \<and> set (versions D) \<subseteq> set (versions D') \<and> (\<forall>(n, m) \<in> set ms. v < int n \<longrightarrow> IntV (int n) \<in> set (versions D'))"
  using assms
proof (induction ms arbitrary: D)
  case (Cons p ms)
  obtain n m where p: "p = (n, m)" by fastforce
  show ?case
  proof (cases "v < int n")
    case True
    then obtain D1 where D1: "run_steps E (m (clock E n)) D = (Inr (), D1)" "run_from E v ms D1 = (Inr (), D')"
      using Cons.prems(3) by (auto simp: run_from_def p then_do_Inr)
    have l: "versions D1 = versions D @ [IntV (int n)]" "log_ok D1"
      using migration_logs [of n m D E "clock E n" D1, OF _ Cons.prems(2) D1(1)] Cons.prems(1) p by auto
    from Cons.IH [OF _ l(2) D1(2)] Cons.prems(1) l(1) p show ?thesis by auto
  next
    case False
    then have "run_from E v ms D = (Inr (), D')" using Cons.prems(3) by (simp add: run_from_def p)
    from Cons.IH [OF _ Cons.prems(2) this] Cons.prems(1) False p show ?thesis by auto
  qed
qed (auto simp: run_from_def)

lemma run_sqlite_migrations_eq:
  "run_sqlite_migrations E D =
     then_do (execute E create_schema_migrations D) (\<lambda>_ D.
     then_do (get_schema_version E D, D) (\<lambda>v. run_from E v migrations))"
  by (simp add: run_sqlite_migrations_def run_from_def)

text \<open>With a log that is in order, only the migrations above the newest version run.\<close>

lemma healthy_run:
  assumes "healthy E" "log_ok D" "max_version (versions D) = Inr v"
  shows "run_sqlite_migrations E D = run_from E v migrations D"
proof -
  have "exec create_schema_migrations D = (Inr (), D)"
    using assms(2) by (auto simp: create_schema_migrations_def log_ok_def)
  then show ?thesis
    using assms get_schema_version_log [OF assms(2,1)] by (simp add: run_sqlite_migrations_eq)
qed

text \<open>
  C32. Starting again after the migrations have succeeded changes nothing: whatever the database and
  the faults of the first run, after its success the schema version is at least 18 and a
  healthy second run succeeds at once and leaves the database as it is.
\<close>

theorem migrations_run_once:
  assumes "run_sqlite_migrations E D = (Inr (), D')" "healthy E'"
  shows "(\<exists>v \<ge> 18. get_schema_version E' D' = Inr v) \<and> run_sqlite_migrations E' D' = (Inr (), D')"
proof -
  obtain D1 v where D1: "get_schema_version E D1 = Inr v" "run_from E v migrations D1 = (Inr (), D')"
    using assms(1) by (auto simp: run_sqlite_migrations_eq then_do_Inr)
  have log: "log_ok D1" "max_version (versions D1) = Inr v" using get_schema_version_Inr [OF D1(1)] by auto
  have out: "log_ok D'" "set (versions D1) \<subseteq> set (versions D')" "v < 18 \<Longrightarrow> IntV 18 \<in> set (versions D')"
    using run_from_logs [OF _ log(1) D1(2)] by (auto simp: migrations_def)
  obtain w where w: "max_version (versions D') = Inr w"
    using out(1) by (auto simp: log_ok_def is_ok_iff)
  have "18 \<le> w"
  proof (cases "v < 18")
    case True
    then show ?thesis using max_version_ge [OF w out(3)] by simp
  next
    case False
    then have "run_from E v migrations D1 = (Inr (), D1)" by (intro run_from_done) (simp add: migrations_def)
    then show ?thesis using D1(2) log(2) w False by simp
  qed
  moreover from this have "run_from E' w migrations D' = (Inr (), D')" by (intro run_from_done) (simp add: migrations_def)
  ultimately show ?thesis
    using healthy_run [OF assms(2) out(1) w] get_schema_version_log [OF out(1) assms(2)] w by simp
qed

section \<open>The rebuild of the orders table\<close>

definition rebuilt_cols :: "column list" where
  "rebuilt_cols = [primary (col ''id'' BLOB), col ''encrypted_order_blob'' BLOB, col ''day_bucket'' INTEGER,
     col ''expiry_bucket'' INTEGER]"

definition rebuilt_rows :: "table \<Rightarrow> sql_value list list" where
  "rebuilt_rows t = map (\<lambda>r. map (\<lambda>n. eval_expr t r (Col n)) (map c_name rebuilt_cols)) (rows t)"

definition copy_orders :: stmt where
  "copy_orders = InsertSelect ''orders_new''
     [(''id'', Col ''id''), (''encrypted_order_blob'', Col ''encrypted_order_blob''),
      (''day_bucket'', Col ''day_bucket''), (''expiry_bucket'', Col ''expiry_bucket'')] ''orders''"

text \<open>The ids of a table's rows are distinct, as its primary key promises.\<close>

definition ids_distinct :: "table \<Rightarrow> bool" where
  "ids_distinct t \<longleftrightarrow> distinct (filter (\<lambda>v. v \<noteq> NullV) (map (\<lambda>r. eval_expr t r (Col ''id'')) (rows t)))"

lemma insert_rebuilt:
  "insert_rows \<lparr>cols = rebuilt_cols, rows = old\<rparr> (rebuilt_rows t) =
     (if distinct (filter (\<lambda>v. v \<noteq> NullV) (map hd old @ map (\<lambda>r. eval_expr t r (Col ''id'')) (rows t)))
      then Inr \<lparr>cols = rebuilt_cols, rows = old @ rebuilt_rows t\<rparr> else Inl ''UNIQUE constraint failed'')"
  by (simp add: insert_rows_def rebuilt_rows_def rebuilt_cols_def row_ok_def list_all_iff comp_def)

lemma exec_copy:
  assumes "tables D ''orders'' = Some t" "set (map c_name rebuilt_cols) \<subseteq> set (col_names t)"
    and "tables D ''orders_new'' = Some \<lparr>cols = rebuilt_cols, rows = old\<rparr>"
  shows "exec copy_orders D = put_table ''orders_new'' (insert_rows \<lparr>cols = rebuilt_cols, rows = old\<rparr> (rebuilt_rows t)) D"
proof -
  have "new_row \<lparr>cols = rebuilt_cols, rows = old\<rparr> (map (\<lambda>(c, e). (c, eval_expr t r e))
      [(''id'', Col ''id''), (''encrypted_order_blob'', Col ''encrypted_order_blob''),
      (''day_bucket'', Col ''day_bucket''), (''expiry_bucket'', Col ''expiry_bucket'')])
    = map (\<lambda>n. eval_expr t r (Col n)) (map c_name rebuilt_cols)" for r
    by (simp add: new_row_def rebuilt_cols_def)
  then show ?thesis
    using assms by (simp add: copy_orders_def col_names_def known_col_def rebuilt_rows_def rebuilt_cols_def)
qed

lemma migration_v10_steps:
  "run_migration_v10 now = [Exec (CreateTable ''orders_new'' rebuilt_cols), Exec copy_orders, Exec (DropTable ''orders''),
     Exec (RenameTable ''orders_new'' ''orders''),
     Exec (CreateIndex ''idx_orders_day_bucket'' ''orders'' [''day_bucket'']),
     Exec (CreateIndex ''idx_orders_expiry_bucket'' ''orders'' [''expiry_bucket'']),
     Exec (record_version 10 now
        ''Dropped legacy columns from orders (kept: id, encrypted_order_blob, day_bucket, expiry_bucket)'')]"
  by (simp add: run_migration_v10_def rebuilt_cols_def copy_orders_def)

text \<open>The names the rebuild uses are free, or taken as the migrations before it leave them.\<close>

definition rebuild_ready :: "db \<Rightarrow> table \<Rightarrow> bool" where
  "rebuild_ready D t \<longleftrightarrow> tables D ''orders'' = Some t \<and> set (map c_name rebuilt_cols) \<subseteq> set (col_names t)
     \<and> ids_distinct t \<and> tables D ''orders_new'' = None
     \<and> (\<forall>n \<in> {''orders_new'', ''orders''}. indexes D n = None)
     \<and> (\<forall>n \<in> {''idx_orders_day_bucket'', ''idx_orders_expiry_bucket''}. tables D n = None)"

lemma record_version_cong:
  "tables D ''schema_migrations'' = tables D' ''schema_migrations'' \<Longrightarrow>
     fst (exec (record_version n now d) D) = fst (exec (record_version n now d) D')"
  by (auto simp: record_version_def put_table_def split: option.split sum.split)

lemma record_version_tables:
  "m \<noteq> ''schema_migrations'' \<Longrightarrow> tables (snd (exec (record_version n now d) D)) m = tables D m"
  by (auto simp: record_version_def put_table_def split: option.split sum.split)

lemma create_index_runs:
  assumes "tables D n = Some t" "tables D i = None" "set cs \<subseteq> set (col_names t)"
  shows "\<exists>D'. exec (CreateIndex i n cs) D = (Inr (), D') \<and> tables D' = tables D"
  using assms by (auto simp: list_all_iff)

text \<open>
  C33. The rebuild of version ten loses no order: on a database whose orders table has the four columns
  kept and distinct ids, with the names free and version ten not yet recorded, it succeeds; the new
  table has exactly those columns and, in the same order, each row's values in them.  Other tables stay as they are.
\<close>

theorem orders_rebuild_keeps_rows:
  assumes "healthy E" "rebuild_ready D t" "\<And>d. fst (exec (record_version 10 now d) D) = Inr ()"
  shows "\<exists>D'. run_steps E (run_migration_v10 now) D = (Inr (), D')
     \<and> tables D' ''orders'' = Some \<lparr>cols = rebuilt_cols, rows = rebuilt_rows t\<rparr> \<and> tables D' ''orders_new'' = None
     \<and> (\<forall>n. n \<notin> {''orders'', ''orders_new'', ''schema_migrations''} \<longrightarrow> tables D' n = tables D n)"
proof -
  note ready = assms(2) [unfolded rebuild_ready_def]
  let ?new = "\<lparr>cols = rebuilt_cols, rows = rebuilt_rows t\<rparr>"
  let ?D1 = "D\<lparr>tables := (tables D)(''orders_new'' \<mapsto> \<lparr>cols = rebuilt_cols, rows = []\<rparr>)\<rparr>"
  let ?D2 = "D\<lparr>tables := (tables D)(''orders_new'' \<mapsto> ?new)\<rparr>"
  let ?D3 = "drop_table ''orders'' ?D2"
  let ?tables = "(tables D)(''orders_new'' := None, ''orders'' \<mapsto> ?new)"
  have s1: "exec (CreateTable ''orders_new'' rebuilt_cols) D = (Inr (), ?D1)" using ready by simp
  have s2: "exec copy_orders ?D1 = (Inr (), ?D2)"
    using exec_copy [of ?D1 t "[]"] insert_rebuilt [of "[]" t] ready by (simp add: ids_distinct_def)
  have s3: "exec (DropTable ''orders'') ?D2 = (Inr (), ?D3)" using ready by simp
  obtain D4 where s4: "exec (RenameTable ''orders_new'' ''orders'') ?D3 = (Inr (), D4)" "tables D4 = ?tables"
    using ready by (auto simp: drop_table_def fun_eq_iff)
  have cols: "set [''day_bucket''] \<subseteq> set (col_names ?new)" "set [''expiry_bucket''] \<subseteq> set (col_names ?new)"
    by (simp_all add: col_names_def rebuilt_cols_def)
  obtain D5 where s5: "exec (CreateIndex ''idx_orders_day_bucket'' ''orders'' [''day_bucket'']) D4 = (Inr (), D5)" "tables D5 = ?tables"
    using create_index_runs [OF _ _ cols(1), of D4 "''orders''" "''idx_orders_day_bucket''"] ready s4(2) by auto
  obtain D6 where s6: "exec (CreateIndex ''idx_orders_expiry_bucket'' ''orders'' [''expiry_bucket'']) D5 = (Inr (), D6)" "tables D6 = ?tables"
    using create_index_runs [OF _ _ cols(2), of D5 "''orders''" "''idx_orders_expiry_bucket''"] ready s5(2) by auto
  define descr where "descr = ''Dropped legacy columns from orders (kept: id, encrypted_order_blob, day_bucket, expiry_bucket)''"
  have "fst (exec (record_version 10 now descr) D6) = Inr ()"
    using record_version_cong [of D6 D 10 now descr] assms(3) [of descr] by (simp add: s6(2) del: exec.simps)
  then obtain D7 where s7: "exec (record_version 10 now descr) D6 = (Inr (), D7)" by (cases "exec (record_version 10 now descr) D6") simp
  have "run_steps E (run_migration_v10 now) D = (Inr (), D7)"
    unfolding migration_v10_steps run_steps_def for_each.simps run_step.simps descr_def [symmetric]
    using assms(1) s1 s2 s3 s4(1) s5(1) s6(1) s7 by (simp del: exec.simps)
  moreover have "tables D7 n = ?tables n" if "n \<noteq> ''schema_migrations''" for n
    using record_version_tables [OF that, of 10 now descr D6] s6(2) s7 by simp
  ultimately show ?thesis by auto
qed

text \<open>A database for witnesses: version nine is the newest, and one order is stored.\<close>

definition demo_orders :: table where
  "demo_orders = \<lparr>cols = col ''state'' TEXT # rebuilt_cols, rows = [[TextV ''pending'', BlobV [1], BlobV [2], IntV 0, NullV]]\<rparr>"

definition demo_log :: table where
  "demo_log = \<lparr>cols = [primary (col ''version'' INTEGER), not_null (col ''applied_at'' INTEGER), col ''description'' TEXT],
     rows = [[IntV 9, IntV 0, NullV]]\<rparr>"

definition demo_db :: db where
  "demo_db = \<lparr>tables = [''orders'' \<mapsto> demo_orders, ''schema_migrations'' \<mapsto> demo_log], indexes = Map.empty\<rparr>"

definition demo_sqlite :: sqlite_env where
  "demo_sqlite = \<lparr>stmt_fault = (\<lambda>_. None), query_fault = (\<lambda>_. None), clock = (\<lambda>_. 0)\<rparr>"

lemma demo_sqlite_healthy: "healthy demo_sqlite"
  by (simp add: healthy_def demo_sqlite_def)

lemma demo_rebuild_ready: "rebuild_ready demo_db demo_orders"
  by (simp add: rebuild_ready_def demo_db_def demo_orders_def col_names_def rebuilt_cols_def ids_distinct_def)

lemma orders_rebuild_keeps_rows_witness:
  "\<exists>D'. run_steps demo_sqlite (run_migration_v10 0) demo_db = (Inr (), D')
     \<and> map_option rows (tables D' ''orders'') = Some [[BlobV [1], BlobV [2], IntV 0, NullV]]"
proof -
  have "fst (exec (record_version 10 0 d) demo_db) = Inr ()" for d
    by (simp add: record_version_def demo_db_def demo_log_def col_names_def new_row_def insert_rows_def row_ok_def)
  moreover have "rebuilt_rows demo_orders = [[BlobV [1], BlobV [2], IntV 0, NullV]]"
    by (simp add: rebuilt_rows_def demo_orders_def rebuilt_cols_def eval_expr_def col_names_def)
  ultimately show ?thesis
    using orders_rebuild_keeps_rows [OF demo_sqlite_healthy demo_rebuild_ready, of 0] by auto
qed

text \<open>
  The rebuild is not one transaction.  If the process stops after the copy, at the DROP of the old
  table, the copy stays behind as \<open>orders_new\<close>; every later start finds version nine, copies again,
  violates the primary key and fails without changing anything, so the marketplace never starts again by itself.
\<close>

theorem interrupted_rebuild_sticks:
  assumes "rebuild_ready D t" "get_schema_version E D = Inr 9"
    and "r \<in> set (rows t)" "eval_expr t r (Col ''id'') \<noteq> NullV"
    and "stmt_fault E = (\<lambda>x. if x = DropTable ''orders'' then Some e else None)" "healthy E'"
  shows "\<exists>D1. run_sqlite_migrations E D = (Inl e, D1) \<and> run_sqlite_migrations E' D1 = (Inl ''UNIQUE constraint failed'', D1)"
proof -
  note ready = assms(1) [unfolded rebuild_ready_def]
  let ?D1 = "D\<lparr>tables := (tables D)(''orders_new'' \<mapsto> \<lparr>cols = rebuilt_cols, rows = []\<rparr>)\<rparr>"
  let ?D2 = "D\<lparr>tables := (tables D)(''orders_new'' \<mapsto> \<lparr>cols = rebuilt_cols, rows = rebuilt_rows t\<rparr>)\<rparr>"
  have log: "log_ok D" "max_version (versions D) = Inr 9" using get_schema_version_Inr [OF assms(2)] by auto
  have ok: "execute E x C = exec x C" if "x \<noteq> DropTable ''orders''" for x C using assms(5) that by (simp add: execute_def)
  have skip: "run_from F 9 migrations C = then_do (run_steps F (run_migration_v10 (clock F 10)) C) (\<lambda>_. run_from F 9 (drop 10 migrations))" for F C
    by (simp add: run_from_def migrations_def)
  have "exec create_schema_migrations D = (Inr (), D)"
    using log(1) by (auto simp: create_schema_migrations_def log_ok_def)
  moreover have "create_schema_migrations \<noteq> DropTable ''orders''" by (simp add: create_schema_migrations_def)
  ultimately have "run_sqlite_migrations E D = run_from E 9 migrations D"
    using assms(2) ok by (simp add: run_sqlite_migrations_eq)
  moreover have "exec (CreateTable ''orders_new'' rebuilt_cols) D = (Inr (), ?D1)" using ready by simp
  moreover have "exec copy_orders ?D1 = (Inr (), ?D2)"
    using exec_copy [of ?D1 t "[]"] insert_rebuilt [of "[]" t] ready by (simp add: ids_distinct_def)
  moreover have "execute E (DropTable ''orders'') ?D2 = (Inl e, ?D2)" using assms(5) by (simp add: execute_def)
  moreover have "copy_orders \<noteq> DropTable ''orders''" by (simp add: copy_orders_def)
  ultimately have first: "run_sqlite_migrations E D = (Inl e, ?D2)"
    by (simp add: skip migration_v10_steps run_steps_def ok del: exec.simps)
  have "map hd (rebuilt_rows t) = map (\<lambda>r. eval_expr t r (Col ''id'')) (rows t)"
    by (simp add: rebuilt_rows_def rebuilt_cols_def)
  then have "insert_rows \<lparr>cols = rebuilt_cols, rows = rebuilt_rows t\<rparr> (rebuilt_rows t) = Inl ''UNIQUE constraint failed''"
    using assms(3,4) insert_rebuilt [of "rebuilt_rows t" t] by (auto simp: distinct_append filter_empty_conv)
  then have "exec copy_orders ?D2 = (Inl ''UNIQUE constraint failed'', ?D2)"
    using exec_copy [of ?D2 t "rebuilt_rows t"] ready by simp
  moreover have "exec (CreateTable ''orders_new'' rebuilt_cols) ?D2 = (Inr (), ?D2)" by simp
  moreover have "run_sqlite_migrations E' ?D2 = run_from E' 9 migrations ?D2"
    using healthy_run [OF assms(6)] versions_cong [of ?D2 D] log by simp
  ultimately have "run_sqlite_migrations E' ?D2 = (Inl ''UNIQUE constraint failed'', ?D2)"
    using assms(6) by (simp add: skip migration_v10_steps run_steps_def del: exec.simps)
  with first show ?thesis by blast
qed

definition migrated_db :: db where
  "migrated_db = demo_db\<lparr>tables := (tables demo_db)(''schema_migrations'' \<mapsto> demo_log\<lparr>rows := [[IntV 18, IntV 0, NullV]]\<rparr>)\<rparr>"

lemma migrated_db:
  "get_schema_version demo_sqlite migrated_db = Inr 18" "run_sqlite_migrations demo_sqlite migrated_db = (Inr (), migrated_db)"
proof -
  show v: "get_schema_version demo_sqlite migrated_db = Inr 18"
    by (simp add: migrated_db_def get_schema_version_def demo_sqlite_def demo_db_def demo_log_def col_names_def eval_expr_def
        max_version_def List.map_filter_simps)
  have "log_ok migrated_db" "max_version (versions migrated_db) = Inr 18"
    using get_schema_version_Inr [OF v] by auto
  then have "run_sqlite_migrations demo_sqlite migrated_db = run_from demo_sqlite 18 migrations migrated_db"
    by (rule healthy_run [OF demo_sqlite_healthy])
  also have "\<dots> = (Inr (), migrated_db)" by (rule run_from_done) (simp add: migrations_def)
  finally show "run_sqlite_migrations demo_sqlite migrated_db = (Inr (), migrated_db)" .
qed

lemma migrations_run_once_witness:
  "run_sqlite_migrations demo_sqlite migrated_db = (Inr (), migrated_db)
     \<and> (\<exists>v \<ge> 18. get_schema_version demo_sqlite migrated_db = Inr v)"
  using migrations_run_once [OF migrated_db(2) demo_sqlite_healthy] by simp

lemma interrupted_rebuild_sticks_witness:
  "let E = demo_sqlite\<lparr>stmt_fault := (\<lambda>x. if x = DropTable ''orders'' then Some ''killed'' else None)\<rparr> in
   \<exists>D1. run_sqlite_migrations E demo_db = (Inl ''killed'', D1)
     \<and> run_sqlite_migrations demo_sqlite D1 = (Inl ''UNIQUE constraint failed'', D1)"
proof -
  let ?E = "demo_sqlite\<lparr>stmt_fault := (\<lambda>x. if x = DropTable ''orders'' then Some ''killed'' else None)\<rparr>"
  have "get_schema_version ?E demo_db = Inr 9"
    by (simp add: get_schema_version_def demo_sqlite_def demo_db_def demo_log_def col_names_def eval_expr_def max_version_def
        List.map_filter_simps)
  moreover have "[TextV ''pending'', BlobV [1], BlobV [2], IntV 0, NullV] \<in> set (rows demo_orders)"
    "eval_expr demo_orders [TextV ''pending'', BlobV [1], BlobV [2], IntV 0, NullV] (Col ''id'') \<noteq> NullV"
    by (simp_all add: demo_orders_def eval_expr_def col_names_def rebuilt_cols_def)
  ultimately show ?thesis
    using interrupted_rebuild_sticks [OF demo_rebuild_ready _ _ _ _ demo_sqlite_healthy, of ?E] by (simp add: Let_def)
qed

end
