(* ===== verification/Float64.thy ===== *)
theory Float64
  imports Rust_Std Complex_Main
begin

text \<open>
  The type \<^verbatim>\<open>f64\<close>, as far as the sources use it: IEEE 754 binary64 with rounding to the nearest, ties to
  even.  A finite value is the rational it denotes.  The two zeros are one value, since none of the
  operations below tells them apart.  \<^verbatim>\<open>max\<close>, \<^verbatim>\<open>round\<close>, the casts and \<^verbatim>\<open>str::parse\<close> are those of Rust.
\<close>

section \<open>Rounding\<close>

function bit_length :: "int \<Rightarrow> int" where
  "bit_length n = (if n \<le> 0 then 0 else bit_length (n div 2) + 1)"
  by pat_completeness auto
termination by (relation "measure nat") auto

declare bit_length.simps [simp del]

text \<open>The exponent of the power of two below a positive number.\<close>

definition binade :: "rat \<Rightarrow> int" where
  "binade x =
     (let (n, d) = quotient_of x;
          k = bit_length n - bit_length d
      in if 2 powi k \<le> x then k else k - 1)"

text \<open>The distance of neighbours around \<open>x\<close>: 53 significant bits, and no bit below \<open>2 ^ - 1074\<close>.\<close>

definition ulp :: "rat \<Rightarrow> rat" where
  "ulp x = 2 powi max (binade \<bar>x\<bar> - 52) (- 1074)"

definition round_half_even :: "rat \<Rightarrow> int" where
  "round_half_even y =
     (let n = \<lfloor>y\<rfloor>; r = y - of_int n
      in if r < 1 / 2 \<or> (r = 1 / 2 \<and> even n) then n else n + 1)"

definition nearest :: "rat \<Rightarrow> rat" where
  "nearest x = (if x = 0 then 0 else of_int (round_half_even (x / ulp x)) * ulp x)"

datatype f64 = Finite rat | Infinite bool | Not_A_Number

definition to_f64 :: "rat \<Rightarrow> f64" where
  "to_f64 x = (let y = nearest x in if y = 0 \<or> binade \<bar>y\<bar> < 1024 then Finite y else Infinite (y < 0))"

section \<open>Operations\<close>

fun f64_mul :: "f64 \<Rightarrow> f64 \<Rightarrow> f64" where
  "f64_mul (Finite x) (Finite y) = to_f64 (x * y)"
| "f64_mul (Finite x) (Infinite s) = (if x = 0 then Not_A_Number else Infinite ((x < 0) \<noteq> s))"
| "f64_mul (Infinite s) (Finite y) = (if y = 0 then Not_A_Number else Infinite (s \<noteq> (y < 0)))"
| "f64_mul (Infinite s) (Infinite t) = Infinite (s \<noteq> t)"
| "f64_mul Not_A_Number y = Not_A_Number"
| "f64_mul x Not_A_Number = Not_A_Number"

text \<open>The sources never divide by zero; a zero divisor counts as the positive one.\<close>

fun f64_div :: "f64 \<Rightarrow> f64 \<Rightarrow> f64" where
  "f64_div (Finite x) (Finite y) =
     (if y \<noteq> 0 then to_f64 (x / y) else if x = 0 then Not_A_Number else Infinite (x < 0))"
| "f64_div (Finite x) (Infinite s) = Finite 0"
| "f64_div (Infinite s) (Finite y) = Infinite (s \<noteq> (y < 0))"
| "f64_div (Infinite s) (Infinite t) = Not_A_Number"
| "f64_div Not_A_Number y = Not_A_Number"
| "f64_div x Not_A_Number = Not_A_Number"

fun f64_neg :: "f64 \<Rightarrow> f64" where
  "f64_neg (Finite x) = Finite (- x)"
| "f64_neg (Infinite s) = Infinite (\<not> s)"
| "f64_neg Not_A_Number = Not_A_Number"

fun f64_abs :: "f64 \<Rightarrow> f64" where
  "f64_abs (Finite x) = Finite \<bar>x\<bar>"
| "f64_abs (Infinite s) = Infinite False"
| "f64_abs Not_A_Number = Not_A_Number"

fun f64_add :: "f64 \<Rightarrow> f64 \<Rightarrow> f64" where
  "f64_add (Finite x) (Finite y) = to_f64 (x + y)"
| "f64_add (Finite x) (Infinite s) = Infinite s"
| "f64_add (Infinite s) (Finite y) = Infinite s"
| "f64_add (Infinite s) (Infinite t) = (if s = t then Infinite s else Not_A_Number)"
| "f64_add Not_A_Number y = Not_A_Number"
| "f64_add x Not_A_Number = Not_A_Number"

definition f64_sub :: "f64 \<Rightarrow> f64 \<Rightarrow> f64" where
  "f64_sub x y = f64_add x (f64_neg y)"

text \<open>\<^verbatim>\<open>max\<close> with a positive finite number, which it also gives for not a number.\<close>

fun f64_max_pos :: "f64 \<Rightarrow> rat \<Rightarrow> f64" where
  "f64_max_pos (Finite x) y = Finite (max x y)"
| "f64_max_pos (Infinite s) y = (if s then Finite y else Infinite False)"
| "f64_max_pos Not_A_Number y = Finite y"

text \<open>\<^verbatim>\<open>f64::MIN_POSITIVE\<close>\<close>

definition min_positive :: rat where "min_positive = 2 powi (- 1022)"

fun f64_ge_zero :: "f64 \<Rightarrow> bool" where
  "f64_ge_zero (Finite x) = (0 \<le> x)"
| "f64_ge_zero (Infinite s) = (\<not> s)"
| "f64_ge_zero Not_A_Number = False"

fun f64_le_zero :: "f64 \<Rightarrow> bool" where
  "f64_le_zero (Finite x) = (x \<le> 0)"
| "f64_le_zero (Infinite s) = s"
| "f64_le_zero Not_A_Number = False"

text \<open>\<^verbatim>\<open>round\<close>: to the nearest integer, halves away from zero.\<close>

definition round_half_away :: "rat \<Rightarrow> int" where
  "round_half_away x = (if x < 0 then - \<lfloor>1 / 2 - x\<rfloor> else \<lfloor>x + 1 / 2\<rfloor>)"

fun f64_round :: "f64 \<Rightarrow> f64" where
  "f64_round (Finite x) = Finite (of_int (round_half_away x))"
| "f64_round x = x"

text \<open>\<^verbatim>\<open>as u64\<close> and \<^verbatim>\<open>as i64\<close> truncate and saturate; not a number gives zero.\<close>

definition round_to_zero :: "rat \<Rightarrow> int" where
  "round_to_zero x = (if x < 0 then \<lceil>x\<rceil> else \<lfloor>x\<rfloor>)"

fun f64_as_u64 :: "f64 \<Rightarrow> nat" where
  "f64_as_u64 (Finite x) = min u64_max (nat (round_to_zero x))"
| "f64_as_u64 (Infinite s) = (if s then 0 else u64_max)"
| "f64_as_u64 Not_A_Number = 0"

fun f64_as_i64 :: "f64 \<Rightarrow> int" where
  "f64_as_i64 (Finite x) = max i64_min (min i64_max (round_to_zero x))"
| "f64_as_i64 (Infinite s) = (if s then i64_min else i64_max)"
| "f64_as_i64 Not_A_Number = 0"

definition u64_as_f64 :: "nat \<Rightarrow> f64" where "u64_as_f64 n = to_f64 (of_nat n)"
definition i64_as_f64 :: "int \<Rightarrow> f64" where "i64_as_f64 i = to_f64 (of_int i)"

section \<open>Reading a number\<close>

text \<open>
  The grammar of \<^verbatim>\<open>f64::from_str\<close>: a sign, then \<^verbatim>\<open>inf\<close>, \<^verbatim>\<open>infinity\<close>, \<^verbatim>\<open>nan\<close> in any case, or digits with an
  optional point and exponent.  The value is the nearest number.  The digits of an exponent are no
  longer added once it has reached \<open>2 ^ 16\<close>.
\<close>

definition take_sign :: "string \<Rightarrow> bool \<times> string" where
  "take_sign s =
     (case s of [] \<Rightarrow> (False, [])
      | c # cs \<Rightarrow> if c = CHR ''-'' then (True, cs) else if c = CHR ''+'' then (False, cs) else (False, s))"

definition lower_ascii :: "char \<Rightarrow> char" where
  "lower_ascii c = (if 65 \<le> (of_char c :: nat) \<and> (of_char c :: nat) \<le> 90 then char_of ((of_char c :: nat) + 32) else c)"

definition exponent_val :: "string \<Rightarrow> nat" where
  "exponent_val s = foldl (\<lambda>a c. if a < 65536 then 10 * a + digit_val c else a) 0 s"

definition parse_exponent :: "string \<Rightarrow> int option" where
  "parse_exponent s =
     (case s of [] \<Rightarrow> Some 0
      | c # cs \<Rightarrow>
          if lower_ascii c \<noteq> CHR ''e'' then None
          else let (neg, t) = take_sign cs
               in if all_digits t then Some (if neg then - int (exponent_val t) else int (exponent_val t)) else None)"

text \<open>The exact value of an unsigned decimal.\<close>

definition parse_decimal :: "string \<Rightarrow> rat option" where
  "parse_decimal s =
     (let whole = takeWhile is_digit s;
          rest = dropWhile is_digit s;
          after = (case rest of c # cs \<Rightarrow> if c = CHR ''.'' then cs else [] | [] \<Rightarrow> []);
          point = (case rest of c # _ \<Rightarrow> c = CHR ''.'' | [] \<Rightarrow> False);
          frac_part = (if point then takeWhile is_digit after else []);
          tail = (if point then dropWhile is_digit after else rest)
      in if whole @ frac_part = [] then None
         else map_option (\<lambda>e. of_nat (digits_val (whole @ frac_part)) * 10 powi (e - int (length frac_part)))
                (parse_exponent tail))"

definition parse_f64 :: "string \<Rightarrow> f64 option" where
  "parse_f64 s =
     (let (neg, t) = take_sign s;
          word = map lower_ascii t
      in if word = ''inf'' \<or> word = ''infinity'' then Some (Infinite neg)
         else if word = ''nan'' then Some Not_A_Number
         else map_option (\<lambda>x. to_f64 (if neg then - x else x)) (parse_decimal t))"

section \<open>Error of a rounding\<close>

lemma bit_length_pos: "0 < n \<Longrightarrow> \<exists>k. bit_length n = int k + 1 \<and> 2 ^ k \<le> n \<and> n < 2 ^ (k + 1)"
proof (induction n rule: bit_length.induct)
  case (1 n)
  show ?case
  proof (cases "n = 1")
    case True
    then show ?thesis by (intro exI [of _ 0]) (simp add: bit_length.simps)
  next
    case False
    with 1 obtain k where "bit_length (n div 2) = int k + 1" "2 ^ k \<le> n div 2" "n div 2 < 2 ^ (k + 1)"
      by fastforce
    moreover from this have "2 ^ (k + 1) \<le> n" "n < 2 ^ (k + 2)" by auto
    ultimately show ?thesis
      using "1.prems" by (intro exI [of _ "k + 1"]) (simp add: bit_length.simps [of n])
  qed
qed

lemma bit_length_powi:
  assumes "0 < n"
  shows "(2::rat) powi (bit_length n - 1) \<le> of_int n" "of_int n < (2::rat) powi bit_length n"
proof -
  obtain k where k: "bit_length n = int k + 1" "2 ^ k \<le> n" "n < 2 ^ (k + 1)"
    using bit_length_pos [OF assms] by blast
  have "(2::rat) ^ k \<le> of_int n" using k(2) by (metis of_int_le_iff of_int_numeral of_int_power)
  moreover have "of_int n < (2::rat) ^ (k + 1)" using k(3) by (metis of_int_less_iff of_int_numeral of_int_power)
  moreover have "(2::rat) powi (int k + 1) = 2 ^ (k + 1)" by (simp add: power_int_add_1')
  ultimately show "(2::rat) powi (bit_length n - 1) \<le> of_int n" "of_int n < (2::rat) powi bit_length n"
    by (simp_all add: k(1))
qed

lemma powi_2_pos [simp]: "0 < (2::rat) powi k"
  by (simp add: zero_less_power_int)

lemma powi_2_less_iff [simp]: "(2::rat) powi j < 2 powi k \<longleftrightarrow> j < k"
  by (meson power_int_strict_increasing power_int_increasing not_less one_less_numeral_iff semiring_norm(76) one_le_numeral)

lemma powi_2_Suc: "(2::rat) powi (k + 1) = 2 * 2 powi k"
  by (simp add: power_int_add_1')

lemma binade_bounds:
  assumes "0 < x"
  shows "2 powi binade x \<le> x" "x < 2 powi (binade x + 1)"
proof -
  obtain n d where q: "quotient_of x = (n, d)" by (cases "quotient_of x")
  have x: "x = of_int n / of_int d" and d: "0 < d"
    using quotient_of_div [OF q] quotient_of_denom_pos [OF q] by auto
  with assms have n: "0 < n" by (simp add: zero_less_divide_iff)
  define k where "k = bit_length n - bit_length d"
  have "x < 2 powi bit_length n / of_int d"
    unfolding x using bit_length_powi [OF n] d by (simp add: divide_strict_right_mono)
  also have "\<dots> \<le> 2 powi bit_length n / 2 powi (bit_length d - 1)"
    using bit_length_powi [OF d] by (intro divide_left_mono) (simp_all add: d)
  also have "\<dots> = 2 powi (k + 1)"
    by (simp add: k_def algebra_simps flip: power_int_diff)
  finally have hi: "x < 2 powi (k + 1)" .
  have "2 powi (k - 1) = 2 powi (bit_length n - 1) / (2::rat) powi bit_length d"
    by (simp add: k_def algebra_simps flip: power_int_diff)
  also have "\<dots> \<le> 2 powi (bit_length n - 1) / of_int d"
    using bit_length_powi [OF d] d by (intro divide_left_mono) simp_all
  also have "\<dots> \<le> x"
    unfolding x using bit_length_powi [OF n] d by (simp add: divide_right_mono)
  finally have lo: "2 powi (k - 1) \<le> x" .
  have "binade x = (if 2 powi k \<le> x then k else k - 1)" by (simp add: binade_def q k_def)
  with hi lo show "2 powi binade x \<le> x" "x < 2 powi (binade x + 1)" by (simp_all split: if_splits)
qed

lemma ulp_pos [simp]: "0 < ulp x" "ulp x \<noteq> 0" by (simp_all add: ulp_def)

lemma round_half_even_error: "\<bar>of_int (round_half_even y) - y\<bar> \<le> 1 / 2"
proof -
  have "of_int \<lfloor>y\<rfloor> \<le> y" "y < of_int \<lfloor>y\<rfloor> + 1" using floor_correct [of y] by simp_all
  then have "round_half_even y = \<lfloor>y\<rfloor> \<and> y - of_int \<lfloor>y\<rfloor> \<le> 1 / 2 \<or> round_half_even y = \<lfloor>y\<rfloor> + 1 \<and> 1 / 2 \<le> y - of_int \<lfloor>y\<rfloor>"
    by (auto simp: round_half_even_def Let_def)
  with \<open>of_int \<lfloor>y\<rfloor> \<le> y\<close> \<open>y < of_int \<lfloor>y\<rfloor> + 1\<close> show ?thesis by (elim disjE conjE; simp only: of_int_add of_int_1; linarith)
qed

lemma round_half_even_of_int [simp]: "round_half_even (of_int n) = n"
  by (simp add: round_half_even_def)

lemma round_half_even_ge: "of_int n \<le> y \<Longrightarrow> n \<le> round_half_even y"
  by (auto simp: round_half_even_def Let_def simp flip: le_floor_iff)

lemma round_half_even_le: "y \<le> of_int n \<Longrightarrow> round_half_even y \<le> n"
proof -
  assume "y \<le> of_int n"
  then consider "y = of_int n" | "\<lfloor>y\<rfloor> < n" by (metis floor_less_iff order_less_le)
  then show ?thesis by cases (auto simp: round_half_even_def Let_def)
qed

lemma nearest_error: "\<bar>nearest x - x\<bar> \<le> ulp x / 2"
proof (cases "x = 0")
  case False
  have "nearest x - x = (of_int (round_half_even (x / ulp x)) - x / ulp x) * ulp x"
    using False by (simp add: nearest_def left_diff_distrib)
  then have "\<bar>nearest x - x\<bar> = \<bar>of_int (round_half_even (x / ulp x)) - x / ulp x\<bar> * ulp x"
    by (simp add: abs_mult less_imp_le [THEN abs_of_nonneg])
  also have "\<dots> \<le> 1 / 2 * ulp x" by (rule mult_right_mono [OF round_half_even_error]) (simp add: less_imp_le)
  finally show ?thesis by simp
qed (simp add: nearest_def less_imp_le)

lemma ulp_normal:
  assumes "2 powi (- 1022) \<le> \<bar>x\<bar>"
  shows "ulp x \<le> \<bar>x\<bar> / 2 ^ 52"
proof -
  have x: "0 < \<bar>x\<bar>" using assms by (metis order_less_le_trans powi_2_pos)
  have "(2::rat) powi (- 1022) < 2 powi (binade \<bar>x\<bar> + 1)"
    using assms binade_bounds(2) [OF x] by (rule order.strict_trans1)
  then have "- 1022 < binade \<bar>x\<bar> + 1" by (simp only: powi_2_less_iff)
  then have "ulp x = 2 powi (binade \<bar>x\<bar> - 52)" by (simp add: ulp_def)
  also have "\<dots> = 2 powi binade \<bar>x\<bar> / 2 ^ 52" by (simp add: power_int_diff)
  also have "\<dots> \<le> \<bar>x\<bar> / 2 ^ 52" using binade_bounds(1) [OF x] by (rule divide_right_mono) simp
  finally show ?thesis .
qed

lemma nearest_relative:
  assumes "2 powi (- 1022) \<le> \<bar>x\<bar>"
  shows "\<bar>nearest x - x\<bar> \<le> \<bar>x\<bar> / 2 ^ 53"
  using nearest_error [of x] ulp_normal [OF assms] by simp

text \<open>An integer below \<open>2 ^ 53\<close> is a multiple of the spacing at any smaller or equal binade, and no rounding passes it.\<close>

lemma ulp_divides:
  assumes "x \<noteq> 0" "\<bar>x\<bar> < 2 ^ 53"
  shows "\<exists>m. (1::rat) = of_int m * ulp x"
proof -
  define e where "e = max (binade \<bar>x\<bar> - 52) (- 1074)"
  have "(2::rat) powi binade \<bar>x\<bar> < 2 powi 53"
    using binade_bounds(1) [of "\<bar>x\<bar>"] assms by simp
  then have "e = - int (nat (- e))" by (simp add: e_def del: power_int_numeral)
  then have "ulp x = 2 powi (- int (nat (- e)))" by (simp add: ulp_def e_def)
  then have "ulp x = inverse (2 ^ nat (- e))" unfolding power_int_minus power_int_of_nat .
  then have "1 = of_int (2 ^ nat (- e)) * ulp x" by simp
  then show ?thesis by blast
qed

lemma nearest_int_bounds:
  assumes "\<bar>x\<bar> < 2 ^ 53"
  shows nearest_ge: "of_int n \<le> x \<Longrightarrow> of_int n \<le> nearest x"
    and nearest_le: "x \<le> of_int n \<Longrightarrow> nearest x \<le> of_int n"
proof -
  have *: "of_int n \<le> x \<longrightarrow> of_int n \<le> nearest x" "x \<le> of_int n \<longrightarrow> nearest x \<le> of_int n" if nz: "x \<noteq> 0"
  proof -
    obtain m where "1 = of_int m * ulp x" using ulp_divides [OF nz assms] by blast
    then have n: "of_int n = of_int (n * m) * ulp x" by (simp add: mult.assoc)
    have x: "nearest x = of_int (round_half_even (x / ulp x)) * ulp x" using nz by (simp add: nearest_def)
    have "n * m \<le> round_half_even (x / ulp x)" if "of_int n \<le> x"
      using that unfolding n by (intro round_half_even_ge) (simp only: pos_le_divide_eq ulp_pos(1))
    then show "of_int n \<le> x \<longrightarrow> of_int n \<le> nearest x"
      unfolding x by (subst (2) n) (auto intro!: mult_right_mono simp: less_imp_le simp del: of_int_mult)
    have "round_half_even (x / ulp x) \<le> n * m" if "x \<le> of_int n"
      using that unfolding n by (intro round_half_even_le) (simp only: pos_divide_le_eq ulp_pos(1))
    then show "x \<le> of_int n \<longrightarrow> nearest x \<le> of_int n"
      unfolding x by (subst (2) n) (auto intro!: mult_right_mono simp: less_imp_le simp del: of_int_mult)
  qed
  show "of_int n \<le> nearest x" if "of_int n \<le> x"
    using * that by (cases "x = 0") (auto simp: nearest_def)
  show "nearest x \<le> of_int n" if "x \<le> of_int n"
    using * that by (cases "x = 0") (auto simp: nearest_def)
qed

lemma small_of_int: "\<bar>n\<bar> < 2 ^ 53 \<Longrightarrow> \<bar>of_int n :: rat\<bar> < 2 ^ 53"
  by (metis of_int_abs of_int_less_iff of_int_numeral of_int_power)

lemma nearest_of_int: "\<bar>n\<bar> < 2 ^ 53 \<Longrightarrow> nearest (of_int n) = of_int n"
  using nearest_ge [OF small_of_int, of n n] nearest_le [OF small_of_int, of n n] by simp

lemma to_f64_Finite:
  assumes "\<bar>x\<bar> < 2 ^ 53"
  shows "to_f64 x = Finite (nearest x)"
proof -
  have n: "\<bar>nearest x\<bar> \<le> 2 ^ 53"
    using nearest_ge [OF assms, of "- (2 ^ 53)"] nearest_le [OF assms, of "2 ^ 53"] assms by (simp add: abs_le_iff abs_less_iff)
  have "binade \<bar>nearest x\<bar> < 1024" if "nearest x \<noteq> 0"
  proof -
    have "2 powi binade \<bar>nearest x\<bar> \<le> \<bar>nearest x\<bar>" using that by (intro binade_bounds) simp
    also have "\<dots> < 2 powi 54" using n by simp
    finally show ?thesis by (simp del: power_int_numeral)
  qed
  then show ?thesis by (auto simp: to_f64_def Let_def)
qed

lemma to_f64_of_int: "\<bar>n\<bar> < 2 ^ 53 \<Longrightarrow> to_f64 (of_int n) = Finite (of_int n)"
  by (simp only: to_f64_Finite [OF small_of_int] nearest_of_int)

lemma u64_as_f64_small: "n < 2 ^ 53 \<Longrightarrow> u64_as_f64 n = Finite (of_nat n)"
  using to_f64_of_int [of "int n"] by (simp add: u64_as_f64_def)

lemma nearest_exact: "x = of_int m * ulp x \<Longrightarrow> nearest x = x"
  by (cases "x = 0") (auto simp: nearest_def, metis nonzero_mult_div_cancel_right round_half_even_of_int ulp_pos(2))

text \<open>In particular every multiple of \<open>2 ^ - 53\<close> up to one is a number.\<close>

lemma to_f64_fraction:
  assumes "\<bar>x\<bar> \<le> 1" and m: "x * 2 ^ 53 = of_int m"
  shows "to_f64 x = Finite x"
proof -
  have "nearest x = x"
  proof (cases "x = 0 \<or> \<bar>x\<bar> = 1")
    case True
    then show ?thesis using nearest_of_int [of 1] nearest_of_int [of "- 1"] by (auto simp: nearest_def abs_if split: if_splits)
  next
    case False
    define e where "e = max (binade \<bar>x\<bar> - 52) (- 1074)"
    have "(2::rat) powi binade \<bar>x\<bar> < 2 powi 0"
      using binade_bounds(1) [of "\<bar>x\<bar>"] False assms(1) by simp
    then have "binade \<bar>x\<bar> < 0" by (simp only: powi_2_less_iff)
    then have "e + 53 = - int (nat (- e - 53))" by (simp add: e_def max_def)
    then have "(2::rat) powi (e + 53) = inverse (2 ^ nat (- e - 53))"
      by (simp only: power_int_minus power_int_of_nat)
    moreover have "ulp x * 2 ^ 53 = 2 powi (e + 53)" by (simp add: ulp_def e_def power_int_add)
    ultimately have "ulp x * 2 ^ 53 = inverse (2 ^ nat (- e - 53))" by simp
    then have "of_int (m * 2 ^ nat (- e - 53)) * (ulp x * 2 ^ 53) = of_int m" by simp
    with m have "x * 2 ^ 53 = of_int (m * 2 ^ nat (- e - 53)) * ulp x * 2 ^ 53" by (simp add: mult.assoc)
    then have "x = of_int (m * 2 ^ nat (- e - 53)) * ulp x" by simp
    then show ?thesis by (rule nearest_exact)
  qed
  then show ?thesis using assms(1) by (subst to_f64_Finite) simp_all
qed

lemma round_half_away_near:
  assumes "\<bar>x - of_int n\<bar> < 1 / 2"
  shows "round_half_away x = n"
proof (cases "x < 0")
  case True
  have "\<lfloor>1 / 2 - x\<rfloor> = - n" by (rule floor_unique) (use assms in \<open>unfold abs_less_iff of_int_minus, linarith+\<close>)
  with True show ?thesis by (simp add: round_half_away_def)
next
  case False
  have "\<lfloor>x + 1 / 2\<rfloor> = n" by (rule floor_unique) (use assms in \<open>unfold abs_less_iff, linarith+\<close>)
  with False show ?thesis by (simp add: round_half_away_def)
qed

lemma to_f64_0 [simp]: "to_f64 0 = Finite 0"
  by (simp add: to_f64_def nearest_def)

lemma round_to_zero_0 [simp]: "round_to_zero 0 = 0"
  by (simp add: round_to_zero_def)

lemma round_half_away_0 [simp]: "round_half_away 0 = 0"
  using round_half_away_near [of 0 0] by simp

lemma round_half_away_between:
  assumes "of_int a \<le> x" "x \<le> of_int b"
  shows "a \<le> round_half_away x \<and> round_half_away x \<le> b"
proof (cases "x < 0")
  case True
  have "- b \<le> \<lfloor>1 / 2 - x\<rfloor>" using assms(2) by (simp add: le_floor_iff)
  moreover have "\<lfloor>1 / 2 - x\<rfloor> \<le> - a" using assms(1) by (simp add: floor_le_iff)
  ultimately show ?thesis using True by (simp add: round_half_away_def)
next
  case False
  have "a \<le> \<lfloor>x + 1 / 2\<rfloor>" using assms(1) by (simp add: le_floor_iff)
  moreover have "\<lfloor>x + 1 / 2\<rfloor> \<le> b" using assms(2) by (simp add: floor_le_iff)
  ultimately show ?thesis using False by (simp add: round_half_away_def)
qed

lemma round_to_zero_of_int [simp]: "round_to_zero (of_int n) = n" "round_to_zero (of_nat m) = int m"
  by (simp_all add: round_to_zero_def)

text \<open>The number nearest to a count of hundred-millionths gives the count back; it is positive if the count is.\<close>

lemma scaled_back:
  assumes "n < 2 ^ 51"
  shows "f64_le_zero (to_f64 (of_nat n / 100000000)) \<longleftrightarrow> n = 0"
    and "f64_as_u64 (f64_round (f64_mul (to_f64 (of_nat n / 100000000)) (Finite 100000000))) = n"
proof -
  define q r y :: rat where "q = of_nat n" and "r = nearest (q / 100000000)" and "y = nearest (r * 100000000)"
  have q: "0 \<le> q" "q < 2 ^ 51"
    using assms unfolding q_def by (simp, metis of_nat_less_iff of_nat_numeral of_nat_power)
  have big: "2 powi (- 1022) \<le> (1 / 2 ^ 30 :: rat)"
    using power_int_increasing [of "- 1022" "- 30" "2::rat"] by (simp add: power_int_minus)
  have r: "\<bar>r - q / 100000000\<bar> \<le> q / 100000000 / 2 ^ 53"
  proof (cases "n = 0")
    case False
    then have "1 \<le> q" by (simp add: q_def)
    then have "2 powi (- 1022) \<le> \<bar>q / 100000000\<bar>" by (intro order.trans [OF big]) simp
    from nearest_relative [OF this] q show ?thesis by (simp add: r_def)
  qed (simp add: q_def r_def nearest_def)
  then have rq: "\<bar>r * 100000000 - q\<bar> \<le> q / 2 ^ 53" unfolding abs_le_iff by linarith
  have y: "\<bar>y - r * 100000000\<bar> \<le> \<bar>r * 100000000\<bar> / 2 ^ 53"
  proof (cases "n = 0")
    case False
    then have "1 \<le> q" by (simp add: q_def)
    then have "1 / 2 ^ 30 \<le> r * 100000000" using rq unfolding abs_le_iff by simp
    with big have "2 powi (- 1022) \<le> \<bar>r * 100000000\<bar>" by linarith
    from nearest_relative [OF this] show ?thesis by (simp add: y_def)
  qed (simp add: q_def r_def y_def nearest_def)
  have small: "\<bar>r * 100000000\<bar> < 2 ^ 53" using rq q unfolding abs_le_iff abs_less_iff by (simp; linarith)
  have near: "\<bar>y - of_int (int n)\<bar> < 1 / 2" using y rq q unfolding abs_le_iff abs_less_iff by (simp add: q_def)
  have "\<bar>q / 100000000\<bar> < 2 ^ 53" using q by simp
  then have "f64_mul (to_f64 (q / 100000000)) (Finite 100000000) = Finite y"
    using small by (simp add: to_f64_Finite r_def y_def)
  with round_half_away_near [OF near] assms
  show "f64_as_u64 (f64_round (f64_mul (to_f64 (of_nat n / 100000000)) (Finite 100000000))) = n"
    by (simp add: q_def u64_max_def)
  have "r \<le> 0 \<longleftrightarrow> n = 0"
  proof (cases "n = 0")
    case False
    then have "1 \<le> q" by (simp add: q_def)
    with rq show ?thesis using False unfolding abs_le_iff by (simp; linarith)
  qed (simp add: r_def q_def nearest_def)
  then show "f64_le_zero (to_f64 (of_nat n / 100000000)) \<longleftrightarrow> n = 0"
    using \<open>\<bar>q / 100000000\<bar> < 2 ^ 53\<close> by (simp add: to_f64_Finite r_def q_def)
qed
section \<open>Rounding is monotone\<close>

lemma round_half_even_mono:
  assumes "x \<le> y"
  shows "round_half_even x \<le> round_half_even y"
proof (cases "\<lfloor>x\<rfloor> = \<lfloor>y\<rfloor>")
  case True
  with assms show ?thesis by (auto simp: round_half_even_def Let_def)
next
  case False
  with assms have "\<lfloor>x\<rfloor> + 1 \<le> \<lfloor>y\<rfloor>" using floor_mono [OF assms] by simp
  moreover have "round_half_even x \<le> \<lfloor>x\<rfloor> + 1" "\<lfloor>y\<rfloor> \<le> round_half_even y"
    by (simp_all add: round_half_even_def Let_def)
  ultimately show ?thesis by linarith
qed

lemma nearest_between_multiples:
  assumes "x \<noteq> 0" "z = of_int m * ulp x"
  shows "z \<le> x \<Longrightarrow> z \<le> nearest x" "x \<le> z \<Longrightarrow> nearest x \<le> z"
proof -
  have n: "nearest x = of_int (round_half_even (x / ulp x)) * ulp x" using assms(1) by (simp add: nearest_def)
  show "z \<le> nearest x" if "z \<le> x"
  proof -
    have "m \<le> round_half_even (x / ulp x)"
      using that by (intro round_half_even_ge) (simp add: assms(2) pos_le_divide_eq)
    then show ?thesis by (simp add: assms(2) n mult_right_mono less_imp_le)
  qed
  show "nearest x \<le> z" if "x \<le> z"
  proof -
    have "round_half_even (x / ulp x) \<le> m"
      using that by (intro round_half_even_le) (simp add: assms(2) pos_divide_le_eq)
    then show ?thesis by (simp add: assms(2) n mult_right_mono less_imp_le)
  qed
qed

lemma nearest_mono:
  assumes "0 < x" "x \<le> y"
  shows "nearest x \<le> nearest y"
proof -
  define ex ey where "ex = max (binade x - 52) (- 1074)" and "ey = max (binade y - 52) (- 1074)"
  have u: "ulp x = 2 powi ex" "ulp y = 2 powi ey" using assms by (simp_all add: ulp_def ex_def ey_def)
  show ?thesis
  proof (cases "ulp x = ulp y")
    case True
    have "x / ulp y \<le> y / ulp y" using assms(2) by (simp add: divide_right_mono less_imp_le)
    then show ?thesis
      using assms True round_half_even_mono by (simp add: nearest_def mult_right_mono less_imp_le)
  next
    case False
    have y: "0 < y" using assms by linarith
    have "2 powi binade x < (2::rat) powi (binade y + 1)"
      using binade_bounds(1) [OF assms(1)] binade_bounds(2) [OF y] assms(2) by linarith
    then have "binade x \<le> binade y" by (simp only: powi_2_less_iff)
    moreover have "ex \<noteq> ey" using False u by auto
    ultimately have e: "ey = binade y - 52" "ex \<le> binade y" "binade x + 1 \<le> binade y"
      by (auto simp: ex_def ey_def)
    define z :: rat where "z = 2 powi binade y"
    have "z = 2 powi (52 + ey)" by (simp add: z_def e(1))
    then have "z = of_int (2 ^ 52) * ulp y" by (simp add: u power_int_add)
    with y have "z \<le> nearest y"
      using binade_bounds(1) [OF y] by (intro nearest_between_multiples(1)) (simp_all add: z_def)
    moreover have "(2::rat) powi (int (nat (binade y - ex)) + ex) = 2 ^ nat (binade y - ex) * 2 powi ex"
      by (subst power_int_add) (simp, simp only: power_int_of_nat)
    with e(2) have "z = of_int (2 ^ nat (binade y - ex)) * ulp x" by (simp add: z_def u)
    moreover have "x \<le> z"
      using binade_bounds(2) [OF assms(1)] power_int_increasing [OF e(3), of "2::rat"] by (simp add: z_def)
    ultimately show ?thesis
      using assms(1) nearest_between_multiples(2) [of x z] by fastforce
  qed
qed

end
