(* ===== verification/Json.thy ===== *)
theory Json
  imports Float64
begin

text \<open>
  The JSON values the payment clients handle (\<^verbatim>\<open>serde_json::Value\<close>), the accessors the sources
  use on them, deserialisation of a struct, and the padding of RPC bodies, which
  \<^verbatim>\<open>services/payments/xmr.rs\<close> and \<^verbatim>\<open>services/payments/btc.rs\<close> define in the same words.
\<close>

section \<open>Values and accessors\<close>

datatype json =
    JNull
  | JBool bool
  | JPosInt nat
  | JNegInt int
  | JFloat f64
  | JString string
  | JArray "json list"
  | JObject "(string \<times> json) list"

definition json_get :: "json \<Rightarrow> string \<Rightarrow> json option" where
  "json_get v k = (case v of JObject fs \<Rightarrow> map_of fs k | _ \<Rightarrow> None)"

text \<open>\<^verbatim>\<open>v["k"]\<close>: null when absent.\<close>

definition json_index :: "json \<Rightarrow> string \<Rightarrow> json" where
  "json_index v k = (case json_get v k of Some x \<Rightarrow> x | None \<Rightarrow> JNull)"

definition as_u64 :: "json \<Rightarrow> nat option" where
  "as_u64 v = (case v of JPosInt n \<Rightarrow> Some n | _ \<Rightarrow> None)"

definition as_str :: "json \<Rightarrow> string option" where
  "as_str v = (case v of JString s \<Rightarrow> Some s | _ \<Rightarrow> None)"

definition as_array :: "json \<Rightarrow> json list option" where
  "as_array v = (case v of JArray xs \<Rightarrow> Some xs | _ \<Rightarrow> None)"

lemma json_get_simps [simp]: "json_get (JObject fs) k = map_of fs k" "json_get (JArray xs) k = None"
  "json_get JNull k = None" "json_get (JString s) k = None" "json_get (JPosInt n) k = None"
  by (simp_all add: json_get_def)

lemma as_u64_simps [simp]: "as_u64 (JPosInt n) = Some n" "as_u64 JNull = None"
  by (simp_all add: as_u64_def)

lemma as_str_simps [simp]: "as_str (JString s) = Some s" "as_str JNull = None"
  by (simp_all add: as_str_def)

lemma as_array_simps [simp]: "as_array (JArray xs) = Some xs" "as_array JNull = None"
  by (simp_all add: as_array_def)

lemma as_array_Some [simp]: "as_array v = Some xs \<longleftrightarrow> v = JArray xs"
  by (cases v) (simp_all add: as_array_def)

lemma as_str_Some [simp]: "as_str v = Some s \<longleftrightarrow> v = JString s"
  by (cases v) (simp_all add: as_str_def)

lemma as_u64_Some [simp]: "as_u64 v = Some n \<longleftrightarrow> v = JPosInt n"
  by (cases v) (simp_all add: as_u64_def)

lemma Some_as_array [simp]: "Some xs = as_array v \<longleftrightarrow> v = JArray xs"
  by (metis as_array_Some)

section \<open>Deserialisation\<close>

text \<open>
  A struct is read from an object (unknown fields ignored) or from an array with one element per
  field; \<^const>\<open>None\<close> is a deserialisation error.
\<close>

definition struct_fields :: "string list \<Rightarrow> json \<Rightarrow> (string \<Rightarrow> json option) option" where
  "struct_fields names v =
     (case v of
        JObject fs \<Rightarrow> Some (map_of fs)
      | JArray xs \<Rightarrow> (if length xs = length names then Some (map_of (zip names xs)) else None)
      | _ \<Rightarrow> None)"

definition field :: "(json \<Rightarrow> 'a option) \<Rightarrow> (string \<Rightarrow> json option) \<Rightarrow> string \<Rightarrow> 'a option" where
  "field p fs k = Option.bind (fs k) p"

definition opt_field :: "(json \<Rightarrow> 'a option) \<Rightarrow> (string \<Rightarrow> json option) \<Rightarrow> string \<Rightarrow> 'a option option" where
  "opt_field p fs k =
     (case fs k of None \<Rightarrow> Some None | Some v \<Rightarrow> (if v = JNull then Some None else map_option Some (p v)))"

definition as_int_in :: "int \<Rightarrow> int \<Rightarrow> json \<Rightarrow> int option" where
  "as_int_in lo hi v =
     (case v of
        JPosInt n \<Rightarrow> (if int n \<le> hi then Some (int n) else None)
      | JNegInt i \<Rightarrow> (if lo \<le> i then Some i else None)
      | _ \<Rightarrow> None)"

definition as_i32 :: "json \<Rightarrow> int option" where "as_i32 = as_int_in (- (2 ^ 31)) (2 ^ 31 - 1)"
definition as_i64 :: "json \<Rightarrow> int option" where "as_i64 = as_int_in i64_min i64_max"

text \<open>An \<^verbatim>\<open>f64\<close> is read from any number.\<close>

definition as_f64 :: "json \<Rightarrow> f64 option" where
  "as_f64 v =
     (case v of
        JPosInt n \<Rightarrow> Some (u64_as_f64 n)
      | JNegInt i \<Rightarrow> Some (i64_as_f64 i)
      | JFloat x \<Rightarrow> Some x
      | _ \<Rightarrow> None)"

fun vec_of :: "(json \<Rightarrow> 'a option) \<Rightarrow> json list \<Rightarrow> 'a list option" where
  "vec_of p [] = Some []"
| "vec_of p (v # vs) = Option.bind (p v) (\<lambda>x. map_option ((#) x) (vec_of p vs))"

definition as_vec :: "(json \<Rightarrow> 'a option) \<Rightarrow> json \<Rightarrow> 'a list option" where
  "as_vec p v = Option.bind (as_array v) (vec_of p)"

section \<open>Padded request bodies\<close>

definition padded_body_size :: nat where "padded_body_size = 4096"

definition pad_json_body :: "(json \<Rightarrow> string) \<Rightarrow> json \<Rightarrow> bytes" where
  "pad_json_body to_string v =
     (let body_str = to_string v;
          without_close = take (length body_str - 1) body_str;
          remaining = padded_body_size - (length without_close + 1)
      in as_bytes (without_close @ replicate remaining CHR '' '' @ ''}''))"

text \<open>What \<^verbatim>\<open>serde_json::to_string\<close> promises of an object's text.\<close>

definition object_text_ok :: "(json \<Rightarrow> string) \<Rightarrow> bool" where
  "object_text_ok f \<longleftrightarrow> (\<forall>fs. f (JObject fs) \<noteq> [] \<and> last (f (JObject fs)) = CHR ''}'')"

lemma pad_length:
  assumes "object_text_ok f"
  shows "length (pad_json_body f (JObject fs)) = max padded_body_size (length (f (JObject fs)))"
proof -
  have "0 < length (f (JObject fs))" using assms by (auto simp: object_text_ok_def)
  then have "length (f (JObject fs)) - 1 + 1 = length (f (JObject fs))" by linarith
  then show ?thesis by (simp add: pad_json_body_def Let_def max_def del: One_nat_def)
qed

text \<open>The padding only inserts blanks before the closing brace.\<close>

lemma pad_shape:
  assumes "object_text_ok f" "f (JObject fs) = s @ ''}''"
  shows "pad_json_body f (JObject fs) = as_bytes (s @ replicate (padded_body_size - length (f (JObject fs))) CHR '' '' @ ''}'')"
  using assms by (simp add: pad_json_body_def)

section \<open>JSON-RPC\<close>

text \<open>
  The state every RPC client keeps is the request counter; the node is a function from the
  Authorization header and the padded body to its answer (\<open>Inl\<close>: a failed transfer or a body that
  is not JSON).
\<close>

record node =
  rpc_send :: "string option \<Rightarrow> bytes \<Rightarrow> string + json"
  json_text :: "json \<Rightarrow> string"
  b64_standard :: "string \<Rightarrow> string"

definition auth_header :: "node \<Rightarrow> string option \<Rightarrow> string option \<Rightarrow> string option" where
  "auth_header N user pass =
     (case (user, pass) of
        (Some u, Some p) \<Rightarrow> Some (''Basic '' @ b64_standard N (u @ '':'' @ p))
      | _ \<Rightarrow> None)"

definition rpc_body :: "nat \<Rightarrow> string \<Rightarrow> json \<Rightarrow> json" where
  "rpc_body i meth params =
     JObject [(''jsonrpc'', JString ''2.0''), (''id'', JPosInt i), (''method'', JString meth),
              (''params'', params)]"

definition rpc_error :: "string \<Rightarrow> json \<Rightarrow> string \<Rightarrow> string option" where
  "rpc_error coin v text =
     (case json_get v ''error'' of
        None \<Rightarrow> None
      | Some e \<Rightarrow> (if e = JNull then None else Some (coin @ '' RPC error: '' @ text)))"

definition next_nonce :: "nat \<Rightarrow> nat" where
  "next_nonce n = (n + 1) mod 2 ^ 64"

text \<open>One call: the new counter, and the \<^verbatim>\<open>result\<close> member of the answer.\<close>

definition rpc_exchange ::
    "node \<Rightarrow> string option \<Rightarrow> string \<Rightarrow> nat \<Rightarrow> string \<Rightarrow> json \<Rightarrow> string + json" where
  "rpc_exchange N auth coin i meth params =
     and_then (rpc_send N auth (pad_json_body (json_text N) (rpc_body i meth params))) (\<lambda>v.
       case rpc_error coin v (json_text N (json_index v ''error'')) of
         Some e \<Rightarrow> Inl e
       | None \<Rightarrow> Inr (json_index v ''result''))"

end
