(* ===== verification/Worker_Process.thy ===== *)
theory Worker_Process
  imports Client_Crypto Time_Lock Listing_Expiry Tor_Service Socks_Pool Migrations Rate_Limit Json
begin

text \<open>
  The two processes and their keys: the encrypted secrets of \<^verbatim>\<open>crypto/escrow.rs\<close>, the key loading of
  \<^verbatim>\<open>main.rs\<close> and \<^verbatim>\<open>bin/worker.rs\<close>, the startup of both, the application state of each process (\<^verbatim>\<open>gateway/mod.rs\<close>,
  \<^verbatim>\<open>bin/worker.rs\<close>), and the WebSocket broker of \<^verbatim>\<open>payments/subscribe.rs\<close>.
\<close>

section \<open>Secrets under the key-encryption key\<close>

text \<open>\<^verbatim>\<open>serde_json\<close> on an \<open>EncryptedBlob\<close>.\<close>

record blob_serde =
  blob_to_json :: "encrypted_blob \<Rightarrow> bytes option"
  blob_from_json :: "bytes \<Rightarrow> string + encrypted_blob"

definition blob_serde_ok :: "blob_serde \<Rightarrow> bool" where
  "blob_serde_ok J \<longleftrightarrow> (\<forall>b j. blob_to_json J b = Some j \<longrightarrow> blob_from_json J j = Inr b)"

primrec crypto_message :: "crypto_error \<Rightarrow> string" where
  "crypto_message InvalidKeySize = ''Invalid key size''"
| "crypto_message EncryptionFailed = ''Encryption failed''"
| "crypto_message DecryptionFailed = ''Decryption failed''"

definition encrypt_master_seed :: "ext \<Rightarrow> blob_serde \<Rightarrow> bytes \<Rightarrow> bytes \<Rightarrow> bytes \<Rightarrow> string + string" where
  "encrypt_master_seed L J nonce seed kek =
     and_then (map_err (\<lambda>e. ''Master seed encrypt failed: '' @ crypto_message e) (blob_encrypt L nonce seed kek)) (\<lambda>blob.
     and_then (ok_or ''Serialize failed'' (blob_to_json J blob)) (\<lambda>json.
       Inr (hex_encode L json)))"

definition decrypt_master_seed :: "ext \<Rightarrow> blob_serde \<Rightarrow> string \<Rightarrow> bytes \<Rightarrow> string + bytes" where
  "decrypt_master_seed L J hex_str kek =
     and_then (ok_or (''Master seed hex decode failed: '' @ hex_error L hex_str) (hex_decode L hex_str)) (\<lambda>data.
     and_then (map_err (\<lambda>e. ''Deserialize master seed failed: '' @ e) (blob_from_json J data)) (\<lambda>blob.
     and_then (map_err crypto_message (blob_decrypt L blob kek)) (\<lambda>plaintext.
     and_then (require (length plaintext = 32) (''Master seed wrong length: '' @ dec (length plaintext))) (\<lambda>_.
       Inr plaintext))))"

definition encrypt_owner_key :: "ext \<Rightarrow> blob_serde \<Rightarrow> bytes \<Rightarrow> bytes \<Rightarrow> bytes \<Rightarrow> string + bytes" where
  "encrypt_owner_key L J nonce sk kek =
     and_then (map_err crypto_message (blob_encrypt L nonce sk kek)) (\<lambda>blob.
       ok_or ''Serialize failed'' (blob_to_json J blob))"

text \<open>\<open>sk_ok\<close>: \<^verbatim>\<open>SecretKey::from_slice\<close>, with the text of its error.\<close>

definition decrypt_owner_key ::
    "ext \<Rightarrow> blob_serde \<Rightarrow> (bytes \<Rightarrow> string + bytes) \<Rightarrow> bytes \<Rightarrow> bytes \<Rightarrow> string + bytes" where
  "decrypt_owner_key L J sk_ok encrypted kek =
     and_then (map_err (\<lambda>e. ''Deserialize failed: '' @ e) (blob_from_json J encrypted)) (\<lambda>blob.
     and_then (map_err crypto_message (blob_decrypt L blob kek)) (\<lambda>plaintext.
       map_err (\<lambda>e. ''Invalid key: '' @ e) (sk_ok plaintext)))"

section \<open>Loading the keys\<close>

definition kek_from_env :: "ext \<Rightarrow> string \<Rightarrow> string + bytes" where
  "kek_from_env L h =
     and_then (ok_or (''Invalid KEK_HEX env: '' @ hex_error L h) (hex_decode L h)) (\<lambda>key_bytes.
     and_then (require (length key_bytes = 32) ''KEK_HEX must be exactly 32 bytes (64 hex chars)'') (\<lambda>_.
       Inr key_bytes))"

text \<open>Random keys are arguments.\<close>

definition api_load_kek :: "ext \<Rightarrow> outside \<Rightarrow> bytes \<Rightarrow> string + bytes" where
  "api_load_kek L X random =
     (case env_var X ''KEK_HEX'' of
        Some h \<Rightarrow> kek_from_env L h
      | None \<Rightarrow>
         (if env_var X ''EPHEMERAL_KEK'' = Some ''1'' then Inr random
          else Inl ''KEK not configured. Set KEK_HEX env var (production) or EPHEMERAL_KEK=1 (dev).''))"

definition worker_load_kek :: "ext \<Rightarrow> outside \<Rightarrow> string + bytes" where
  "worker_load_kek L X =
     (case env_var X ''KEK_HEX'' of
        Some h \<Rightarrow> kek_from_env L h
      | None \<Rightarrow> Inl ''No KEK configured. Set KEK_HEX env var to decrypt worker_key_hex from config.'')"

definition ephemeral_worker_key :: "outside \<Rightarrow> bool" where
  "ephemeral_worker_key X \<longleftrightarrow> env_var X ''EPHEMERAL_WORKER_KEY'' = Some ''1''"

definition init_worker_key :: "ext \<Rightarrow> blob_serde \<Rightarrow> outside \<Rightarrow> bytes \<Rightarrow> bytes \<Rightarrow> config \<Rightarrow> string + bytes" where
  "init_worker_key L J X random kek G =
     (case worker_key_hex (cfg_security G) of
        Some h \<Rightarrow> map_err (\<lambda>e. ''Failed to decrypt worker_key_hex: '' @ e) (decrypt_master_seed L J h kek)
      | None \<Rightarrow>
         (if ephemeral_worker_key X then Inr random
          else Inl ''worker_key_hex not set in config. Either set it (recommended) or run with EPHEMERAL_WORKER_KEY=1 for development.''))"

text \<open>\<^verbatim>\<open>write_dev_pubkey_file\<close> in an environment whose directory can be created and whose file written.\<close>

definition write_dev_pubkey_file :: "string \<Rightarrow> string \<Rightarrow> outside \<Rightarrow> outside" where
  "write_dev_pubkey_file dir pubkey_hex X =
     X\<lparr>file_exists := (file_exists X)(dev_pubkey_path dir := True),
       read_file := (read_file X)(dev_pubkey_path dir := Inr (trim pubkey_hex))\<rparr>"

section \<open>The state of a process\<close>

text \<open>What \<open>build_router\<close> gives the API handlers; \<open>from_hex\<close> and the generated key pair are those of the \<^verbatim>\<open>rsa\<close> crate.\<close>

definition api_app :: "(string \<Rightarrow> string + admin_keypair) \<Rightarrow> admin_keypair \<Rightarrow> config \<Rightarrow> app" where
  "api_app from_hex generated G =
     \<lparr>app_server = cfg_server G, app_worker_key = None,
      app_admin_keypair =
        (case admin_privkey_hex (cfg_security G) of
           Some h \<Rightarrow> (case from_hex h of Inr k \<Rightarrow> Some k | Inl _ \<Rightarrow> None)
         | None \<Rightarrow> Some generated)\<rparr>"

definition worker_app :: "bytes \<Rightarrow> config \<Rightarrow> app" where
  "worker_app worker_key G =
     \<lparr>app_server = cfg_server G, app_worker_key = Some worker_key, app_admin_keypair = None\<rparr>"

definition assert_worker_state :: "outside \<Rightarrow> app \<Rightarrow> string + unit" where
  "assert_worker_state X A =
     (case app_worker_key A of
        Some _ \<Rightarrow> Inr ()
      | None \<Rightarrow>
         Inl (if ephemeral_worker_key X
              then ''EPHEMERAL_WORKER_KEY=1 requires mutable state; this code path is unreachable''
              else ''Worker key not configured. Set worker_key_hex in config, or KEK_HEX env var to decrypt an existing config.''))"

section \<open>Startup\<close>

text \<open>
  What a process finds on its host: the faults of the Tor directory, of starting Tor, of creating the database's
  directory and of connecting, the HTTP library and the faults of the database; and what it leaves there.
  Waiting for Tor's host name has no effect beyond a warning.
\<close>

record host =
  h_fs :: fs_env
  h_start_tor :: "string option"
  h_reqwest :: reqwest
  h_db_dir :: "string \<Rightarrow> string option"
  h_connect :: "string \<Rightarrow> string option"
  h_sqlite :: sqlite_env

record disk =
  d_tor :: service_fs
  d_db :: db

definition start_tor :: "host \<Rightarrow> config \<Rightarrow> disk \<Rightarrow> (string + unit) \<times> disk" where
  "start_tor H G K =
     (if tor_enabled (cfg_tor G) then
        let (r, fs) = then_do (prepare_tor (h_fs H) (cfg_tor G) (d_tor K)) (\<lambda>_ fs.
              (map_err (\<lambda>e. ''Failed to start Tor: '' @ e @ ''. Is tor installed?'') (fail_if (h_start_tor H)), fs))
        in (r, K\<lparr>d_tor := fs\<rparr>)
      else (Inr (), K))"

definition open_database :: "host \<Rightarrow> string \<Rightarrow> config \<Rightarrow> disk \<Rightarrow> (string + unit) \<times> disk" where
  "open_database H no_postgres G K =
     (case cfg_database G of
        Postgres _ \<Rightarrow> (Inl no_postgres, K)
      | Sqlite p \<Rightarrow>
         then_do (fail_if (h_db_dir H p), K) (\<lambda>_ K.
         then_do (fail_if (h_connect H (''sqlite:'' @ p)), K) (\<lambda>_ K.
         let (r, D) = run_sqlite_migrations (h_sqlite H) (d_db K) in (r, K\<lparr>d_db := D\<rparr>))))"

definition open_resources :: "host \<Rightarrow> string \<Rightarrow> config \<Rightarrow> disk \<Rightarrow> (string + socks5_pool) \<times> disk" where
  "open_resources H no_postgres G K =
     then_do (start_tor H G K) (\<lambda>_ K.
     then_do (socks5_pool_new (h_reqwest H) (tor_socks5_addr (cfg_tor G)) (tor_socks5_pool_size (cfg_tor G))
                (tor_enabled (cfg_tor G)), K) (\<lambda>pool K.
     then_do (open_database H no_postgres G K) (\<lambda>_ K. (Inr pool, K))))"

definition api_no_postgres :: string where
  "api_no_postgres = ''PostgreSQL support coming soon - use SQLite for now''"

definition worker_no_postgres :: string where
  "worker_no_postgres = ''PostgreSQL support coming soon '' @ [CHR 0xE2, CHR 0x80, CHR 0x94] @ '' use SQLite for now''"

text \<open>The API's \<open>main\<close> up to the router: its state, pool, key-encryption key and limiter.\<close>

definition api_main ::
    "ext \<Rightarrow> outside \<Rightarrow> host \<Rightarrow> bytes \<Rightarrow> (string \<Rightarrow> string + admin_keypair) \<Rightarrow> admin_keypair \<Rightarrow> disk
       \<Rightarrow> (string + app \<times> socks5_pool \<times> bytes \<times> rate_limiter) \<times> disk" where
  "api_main L X H random from_hex generated K =
     then_do (load_config X, K) (\<lambda>G K.
     then_do (api_startup_checks X G, K) (\<lambda>_ K.
     then_do (open_resources H api_no_postgres G K) (\<lambda>pool K.
     then_do (api_load_kek L X random, K) (\<lambda>kek K.
       (Inr (api_app from_hex generated G, pool, kek, rate_limiter_new (rate_limit_per_minute (cfg_server G)) 60), K)))))"

text \<open>
  The worker's \<open>main\<close> up to \<open>run_workers\<close>: the state the workers run with, the pool, and the environment with the
  published development key in it.  \<open>None\<close>: the derivation of the payment key panics.
\<close>

definition worker_main ::
    "ext \<Rightarrow> blob_serde \<Rightarrow> outside \<Rightarrow> host \<Rightarrow> bytes \<Rightarrow> disk
       \<Rightarrow> (string + (app \<times> socks5_pool \<times> outside) option) \<times> disk" where
  "worker_main L J X H random K =
     then_do (load_config X, K) (\<lambda>G K.
     then_do (worker_startup_checks X G, K) (\<lambda>_ K.
     then_do (open_resources H worker_no_postgres G K) (\<lambda>pool K.
     then_do (worker_load_kek L X, K) (\<lambda>kek K.
     then_do (init_worker_key L J X random kek G, K) (\<lambda>key K.
       (Inr (map_option (\<lambda>pubkey_hex.
               (worker_app key G, pool,
                if ephemeral_worker_key X then write_dev_pubkey_file (data_dir (cfg_server G)) pubkey_hex X else X))
             (payment_pubkey_hex_from_worker_key L key)), K))))))"

section \<open>The WebSocket broker\<close>

datatype ws_event =
    Published string  \<comment> \<open>\<open>rx.recv()\<close> yields a funded id\<close>
  | Lagged nat
  | Closed
  | From_client  \<comment> \<open>\<open>socket.recv()\<close> yields anything, or the end\<close>

definition funded_payload :: "string \<Rightarrow> json" where
  "funded_payload order_id = JObject [(''type'', JString ''funded''), (''order_id'', JString order_id)]"

text \<open>The messages sent (whether or not the peer is still there) and whether the loop has ended.\<close>

fun handle_socket :: "string \<Rightarrow> ws_event list \<Rightarrow> json list \<times> bool" where
  "handle_socket order_id [] = ([], False)"
| "handle_socket order_id (Published funded_id # es) =
     (if funded_id = order_id then ([funded_payload order_id], True) else handle_socket order_id es)"
| "handle_socket order_id (Lagged n # es) = handle_socket order_id es"
| "handle_socket order_id (Closed # es) = ([], True)"
| "handle_socket order_id (From_client # es) = ([], True)"

definition ws_handler :: "ext \<Rightarrow> string \<Rightarrow> string + (ws_event list \<Rightarrow> json list \<times> bool)" where
  "ws_handler L order_id =
     (if hex_decode L order_id = None then Inl ''invalid order_id'' else Inr (handle_socket order_id))"

section \<open>Round trips of the secrets\<close>

lemma blob_roundtrip: "aead_ok L \<Longrightarrow> blob_encrypt L nonce p kek = Inr b \<Longrightarrow> blob_decrypt L b kek = Inr p"
  by (auto simp: blob_encrypt_def blob_decrypt_def aead_roundtrip split: option.splits)

lemma master_seed_roundtrip:
  assumes "aead_ok L" "hex_ok L" "blob_serde_ok J" "length seed = 32"
    and "encrypt_master_seed L J nonce seed kek = Inr h"
  shows "decrypt_master_seed L J h kek = Inr seed"
  using assms by (auto simp: encrypt_master_seed_def decrypt_master_seed_def blob_serde_ok_def blob_roundtrip)

lemma owner_key_roundtrip:
  assumes "aead_ok L" "blob_serde_ok J" "sk_ok sk = Inr sk" "encrypt_owner_key L J nonce sk kek = Inr b"
  shows "decrypt_owner_key L J sk_ok b kek = Inr sk"
  using assms by (auto simp: encrypt_owner_key_def decrypt_owner_key_def blob_serde_ok_def blob_roundtrip)

section \<open>Starting\<close>

lemma worker_main_cases:
  assumes "worker_main L J X H random K = (Inr (Some (A, pool, X')), K')"
  obtains G kek key where "load_config X = Inr G" "worker_load_kek L X = Inr kek"
    "init_worker_key L J X random kek G = Inr key" "A = worker_app key G"
  using assms by (auto simp: worker_main_def then_do_Inr)

lemma kek_from_env_ok: "hex_ok L \<Longrightarrow> length kek = 32 \<Longrightarrow> kek_from_env L (hex_encode L kek) = Inr kek"
  by (simp add: kek_from_env_def)

text \<open>The API process finds no key to open a blob with, whatever its configuration.\<close>

lemma api_has_no_worker_key [simp]: "app_worker_key (api_app from_hex generated G) = None"
  by (simp add: api_app_def)

lemma passes_need_the_key:
  assumes "app_worker_key A = None"
  shows "check_time_locks L A W os = (Inl ''Worker key not configured - workers cannot decrypt'', os)"
    and "check_listing_expiry L A W ls = (Inr (), ls)"
  using assms by (simp_all add: check_time_locks_def get_worker_key_def check_listing_expiry_def)

section \<open>Properties\<close>


definition demo_serde :: blob_serde where
  "demo_serde =
     \<lparr>blob_to_json = (\<lambda>b. if length (eb_nonce b) = 12 \<and> eb_version b = 2 then Some (eb_nonce b @ ciphertext b) else None),
      blob_from_json = (\<lambda>j. Inr \<lparr>ciphertext = drop 12 j, eb_nonce = take 12 j, eb_version = 2\<rparr>)\<rparr>"

lemma demo_serde_ok: "blob_serde_ok demo_serde"
  by (auto simp: blob_serde_ok_def demo_serde_def)

definition demo_outside :: "config \<Rightarrow> string \<Rightarrow> outside" where
  "demo_outside G kek_hex_value =
     \<lparr>env_var = (\<lambda>v. if v = ''KEK_HEX'' then Some kek_hex_value else None), file_exists = (\<lambda>_. True),
      read_file = (\<lambda>_. Inr []), toml_parse = (\<lambda>_. Inr G)\<rparr>"

definition demo_host :: host where
  "demo_host =
     \<lparr>h_fs = \<lparr>create_dir_fault = None, write_fault = None, read_fault = None, list_fault = None, removable = (\<lambda>_. True)\<rparr>,
      h_start_tor = None, h_reqwest = \<lparr>proxy_all = (\<lambda>_. Inr ()), client_build = (\<lambda>_. Inr ())\<rparr>,
      h_db_dir = (\<lambda>_. None), h_connect = (\<lambda>_. None), h_sqlite = demo_sqlite\<rparr>"

definition demo_disk :: disk where
  "demo_disk = \<lparr>d_tor = \<lparr>dir_entries = None\<rparr>, d_db = migrated_db\<rparr>"

lemma demo_pool: "\<exists>ss. new_slots (h_reqwest demo_host) addr b js = Inr ss"
  by (induction js) (auto simp: demo_host_def build_slot_client_def)

lemma demo_resources:
  assumes "cfg_database G = Sqlite p"
  shows "\<exists>pool K'. open_resources demo_host m G demo_disk = (Inr pool, K')"
proof -
  have db: "run_sqlite_migrations demo_sqlite (d_db demo_disk) = (Inr (), d_db demo_disk)"
    by (simp add: demo_disk_def migrated_db)
  have "\<exists>fs. prepare_tor (h_fs demo_host) (cfg_tor G) (d_tor demo_disk) = (Inr (), fs)"
    by (simp add: prepare_tor_def bootstrap_def cleanup_old_keys_def fail_if_def demo_host_def demo_disk_def
        entries_def unwrap_or_def Let_def)
  moreover have "h_start_tor demo_host = None" by (simp add: demo_host_def)
  ultimately have "\<exists>K1. start_tor demo_host G demo_disk = (Inr (), K1) \<and> d_db K1 = d_db demo_disk"
    by (auto simp: start_tor_def fail_if_def)
  then obtain K1 where K1: "start_tor demo_host G demo_disk = (Inr (), K1)" "d_db K1 = d_db demo_disk" by blast
  have "h_sqlite demo_host = demo_sqlite" "h_db_dir demo_host p = None" "h_connect demo_host q = None" for q
    by (simp_all add: demo_host_def)
  then have "open_database demo_host m G K1 = (Inr (), K1)"
    using assms db K1(2) by (simp add: open_database_def fail_if_def)
  moreover obtain ss where "new_slots (h_reqwest demo_host) (tor_socks5_addr (cfg_tor G)) (tor_enabled (cfg_tor G))
      [0..<tor_socks5_pool_size (cfg_tor G)] = Inr ss" using demo_pool by blast
  ultimately show ?thesis
    using K1(1) by (simp add: open_resources_def socks5_pool_new_def)
qed



text \<open>
  A subscriber gets at most one message, and gets it exactly when the id it asked for is
  published before the channel closes or the client says anything.  What counts is the spelling: the
  worker publishes lower-case hex, and an id that decodes to the same bytes in another spelling is
  accepted by the handler and never answered.
\<close>

theorem subscriber_notified:
  "fst (handle_socket order_id es) =
     (if Published order_id \<in> set (takeWhile (\<lambda>e. e \<noteq> Closed \<and> e \<noteq> From_client) es)
      then [funded_payload order_id] else [])
   \<and> (if order_id \<noteq> hex_encode L i \<and> list_all (\<lambda>e. case e of Published s \<Rightarrow> s = hex_encode L i | _ \<Rightarrow> True) es
      then fst (handle_socket order_id es) = [] else True)"
proof -
  have once: "fst (handle_socket order_id es) =
     (if Published order_id \<in> set (takeWhile (\<lambda>e. e \<noteq> Closed \<and> e \<noteq> From_client) es)
      then [funded_payload order_id] else [])" for es
    by (induction order_id es rule: handle_socket.induct) auto
  have "Published order_id \<notin> set (takeWhile (\<lambda>e. e \<noteq> Closed \<and> e \<noteq> From_client) es)"
    if "order_id \<noteq> hex_encode L i" "list_all (\<lambda>e. case e of Published s \<Rightarrow> s = hex_encode L i | _ \<Rightarrow> True) es"
    using that by (fastforce simp: list_all_iff dest: set_takeWhileD)
  with once show ?thesis by simp
qed

end
