(* ===== verification/Router.thy ===== *)
theory Router
  imports Orders Listings Disputes Chat Admin Auth Gateway Worker_Process
begin

text \<open>
  The whole API: the route tables of \<^verbatim>\<open>services/*.rs\<close> and \<^verbatim>\<open>gateway/mod.rs\<close>, the dispatch of a request
  to its handler with the extractors the handler names, and the layers around them.  The request's
  query string and body are arguments, as no layer looks at them.  Decoding a body, a query or a path
  parameter and encoding an answer are parameters (\<^verbatim>\<open>axum\<close> and \<^verbatim>\<open>serde\<close>).
\<close>

section \<open>Extractors\<close>

datatype answer =
    Order_Answer order_response
  | Listing_Answer listing_response
  | Listings_Answer listings_response
  | Dispute_Answer dispute_response
  | Chat_Answer chat_response
  | Challenge_Answer challenge_response
  | Verify_Answer string
  | Blind_Sign_Answer string
  | Pubkey_Answer string
  | Rotate_Kek_Answer rotate_kek_response
  | Worker_Pubkey_Answer "string option"

text \<open>
  What the framework does with a request: each decoder yields the value or the response that rejects
  the request.
\<close>

record codecs =
  match_route :: "string \<Rightarrow> string \<Rightarrow> string list option"  \<comment> \<open>a route's pattern and a path: the parameters of the path\<close>
  percent_decode :: "string \<Rightarrow> http_response + string"  \<comment> \<open>\<open>Path<String>\<close>\<close>
  search_query :: "string \<Rightarrow> http_response + search_query"  \<comment> \<open>\<open>Query<SearchQuery>\<close>\<close>
  challenge_json :: "http_request \<Rightarrow> bytes \<Rightarrow> http_response + string"
  verify_json :: "http_request \<Rightarrow> bytes \<Rightarrow> http_response + verify_request"
  create_listing_json :: "http_request \<Rightarrow> bytes \<Rightarrow> http_response + create_listing_request"
  update_listing_json :: "http_request \<Rightarrow> bytes \<Rightarrow> http_response + update_listing_request"
  create_order_json :: "http_request \<Rightarrow> bytes \<Rightarrow> http_response + create_order_request"
  update_order_json :: "http_request \<Rightarrow> bytes \<Rightarrow> http_response + update_order_request"
  send_message_json :: "http_request \<Rightarrow> bytes \<Rightarrow> http_response + send_message_request"
  blind_sign_json :: "http_request \<Rightarrow> bytes \<Rightarrow> http_response + string"
  rotate_kek_json :: "http_request \<Rightarrow> bytes \<Rightarrow> http_response + rotate_kek_request"
  open_dispute_json :: "http_request \<Rightarrow> bytes \<Rightarrow> http_response + open_dispute_request"
  update_dispute_json :: "http_request \<Rightarrow> bytes \<Rightarrow> http_response + update_dispute_request"
  resolve_dispute_json :: "http_request \<Rightarrow> bytes \<Rightarrow> http_response + resolve_dispute_request"
  upgrade :: "http_request \<Rightarrow> http_response + http_response"  \<comment> \<open>\<open>WebSocketUpgrade\<close>: the switch of protocols\<close>
  missing_extension :: http_response
  missing_params :: http_response
  wrong_method :: http_response
  text_answer :: "string \<Rightarrow> http_response"  \<comment> \<open>a string as a response\<close>
  encode :: "answer \<Rightarrow> bytes"

text \<open>\<^verbatim>\<open>Extension(AuthPubkey(_))\<close> and \<^verbatim>\<open>Extension(AuthPubkeyBytes(_))\<close>\<close>

definition auth_pubkey :: "codecs \<Rightarrow> http_request \<Rightarrow> http_response + bytes" where
  "auth_pubkey C req = ok_or (missing_extension C) (ext_pubkey req)"

definition auth_pubkey_bytes :: "codecs \<Rightarrow> http_request \<Rightarrow> http_response + bytes" where
  "auth_pubkey_bytes C req = ok_or (missing_extension C) (ext_pubkey_bytes req)"

text \<open>\<^verbatim>\<open>Result<Json<_>, AppError>\<close> as a response\<close>

definition respond :: "codecs \<Rightarrow> ('a \<Rightarrow> answer) \<Rightarrow> 'a res \<Rightarrow> http_response" where
  "respond C f r =
     (case r of
        Inl e \<Rightarrow> reject e
      | Inr a \<Rightarrow> \<lparr>status = 200, body = encode C (f a), resp_headers = [''content-type'' \<mapsto> ''application/json'']\<rparr>)"

section \<open>Handlers as services\<close>

text \<open>What a handler draws and meets, besides the request.\<close>

record handler_env =
  he_env :: env
  he_challenge :: bytes
  he_challenge_id :: bytes
  he_new_kek :: bytes
  he_kek_written :: bool
  he_outside :: outside

definition extracted :: "http_response + 'a \<Rightarrow> ('a \<Rightarrow> gateway \<Rightarrow> http_response \<times> gateway) \<Rightarrow> gateway \<Rightarrow> http_response \<times> gateway" where
  "extracted x k g = (case x of Inl rejection \<Rightarrow> (rejection, g) | Inr a \<Rightarrow> k a g)"

definition reading :: "codecs \<Rightarrow> ('a \<Rightarrow> answer) \<Rightarrow> (api_state \<Rightarrow> 'a res) \<Rightarrow> gateway \<Rightarrow> http_response \<times> gateway" where
  "reading C f h g = (respond C f (h (api g)), g)"

definition writing :: "codecs \<Rightarrow> ('a \<Rightarrow> answer) \<Rightarrow> (api_state \<Rightarrow> 'a res \<times> api_state) \<Rightarrow> gateway \<Rightarrow> http_response \<times> gateway" where
  "writing C f h g = (let (r, st) = h (api g) in (respond C f r, g\<lparr>api := st\<rparr>))"

definition on_challenges ::
    "codecs \<Rightarrow> ('a \<Rightarrow> answer) \<Rightarrow> (challenge_store \<Rightarrow> 'a res \<times> challenge_store) \<Rightarrow> gateway \<Rightarrow> http_response \<times> gateway" where
  "on_challenges C f h g = (let (r, cs) = h (challenges g) in (respond C f r, g\<lparr>challenges := cs\<rparr>))"

datatype endpoint =
    Worker_Pubkey | Challenge | Verify
  | List_Listings | Create_Listing | Get_Listing | Update_Listing
  | Create_Order | Get_Order | Update_Order
  | Get_Chat | Update_Chat
  | Blind_Sign | Get_Admin_Pubkey | Rotate_Kek
  | Open_Dispute | Get_Dispute | Update_Dispute | Resolve_Dispute
  | Ws_Payments

text \<open>
  The first path parameter of a handler that has one.  The extractors run in the order of the
  handler's arguments.
\<close>

definition path_param :: "codecs \<Rightarrow> string list \<Rightarrow> http_response + string" where
  "path_param C params = (case params of [] \<Rightarrow> Inl (missing_params C) | p # _ \<Rightarrow> percent_decode C p)"

definition authed_path :: "codecs \<Rightarrow> http_request \<Rightarrow> string list \<Rightarrow> http_response + string" where
  "authed_path C req params = and_then (auth_pubkey C req) (\<lambda>_. path_param C params)"

definition authed_body :: "codecs \<Rightarrow> http_request \<Rightarrow> http_response + 'a \<Rightarrow> http_response + 'a" where
  "authed_body C req x = and_then (auth_pubkey C req) (\<lambda>_. x)"

definition path_and_body :: "codecs \<Rightarrow> string list \<Rightarrow> http_response + 'a \<Rightarrow> http_response + string \<times> 'a" where
  "path_and_body C params x = and_then (path_param C params) (\<lambda>i. and_then x (\<lambda>b. Inr (i, b)))"

fun run_endpoint ::
    "ext \<Rightarrow> codecs \<Rightarrow> app \<Rightarrow> config \<Rightarrow> handler_env \<Rightarrow> string \<Rightarrow> bytes \<Rightarrow> endpoint \<Rightarrow> string list \<Rightarrow> service" where
  "run_endpoint L C A G H query bytes Worker_Pubkey params req =
     reading C Worker_Pubkey_Answer (\<lambda>_. Inr (worker_pubkey (he_outside H) G))"
| "run_endpoint L C A G H query bytes Challenge params req =
     extracted (challenge_json C req bytes) (\<lambda>pubkey.
       on_challenges C Challenge_Answer (challenge L (he_env H) (he_challenge H) (he_challenge_id H) pubkey))"
| "run_endpoint L C A G H query bytes Verify params req =
     extracted (verify_json C req bytes) (\<lambda>b. on_challenges C Verify_Answer (verify L A (he_env H) b))"
| "run_endpoint L C A G H query bytes List_Listings params req =
     extracted (search_query C query) (\<lambda>q. reading C Listings_Answer (list_listings L (he_env H) q))"
| "run_endpoint L C A G H query bytes Create_Listing params req =
     extracted (authed_body C req (create_listing_json C req bytes)) (\<lambda>b.
       writing C Listing_Answer (create_listing L (he_env H) b))"
| "run_endpoint L C A G H query bytes Get_Listing params req =
     extracted (authed_path C req params) (\<lambda>i. reading C Listing_Answer (get_listing L (he_env H) i))"
| "run_endpoint L C A G H query bytes Update_Listing params req =
     extracted (authed_body C req (path_and_body C params (update_listing_json C req bytes))) (\<lambda>(i, b).
       writing C Listing_Answer (update_listing L (he_env H) i b))"
| "run_endpoint L C A G H query bytes Create_Order params req =
     extracted (authed_body C req (create_order_json C req bytes)) (\<lambda>b.
       writing C Order_Answer (create_order L A (he_env H) b))"
| "run_endpoint L C A G H query bytes Get_Order params req =
     extracted (authed_path C req params) (\<lambda>i. reading C Order_Answer (get_order L (he_env H) i))"
| "run_endpoint L C A G H query bytes Update_Order params req =
     extracted (authed_body C req (and_then (auth_pubkey_bytes C req) (\<lambda>pk.
         and_then (path_and_body C params (update_order_json C req bytes)) (\<lambda>(i, b). Inr (pk, i, b)))))
       (\<lambda>(pk, i, b). writing C Order_Answer (update_order L (he_env H) pk i b))"
| "run_endpoint L C A G H query bytes Get_Chat params req =
     extracted (authed_path C req params) (\<lambda>i. reading C Chat_Answer (get_chat L (he_env H) i))"
| "run_endpoint L C A G H query bytes Update_Chat params req =
     extracted (authed_body C req (path_and_body C params (send_message_json C req bytes))) (\<lambda>(i, b).
       writing C Chat_Answer (update_chat L (he_env H) i b))"
| "run_endpoint L C A G H query bytes Blind_Sign params req =
     extracted (blind_sign_json C req bytes) (\<lambda>b. reading C Blind_Sign_Answer (\<lambda>_. blind_sign L A b))"
| "run_endpoint L C A G H query bytes Get_Admin_Pubkey params req =
     reading C Pubkey_Answer (\<lambda>_. get_admin_pubkey L A)"
| "run_endpoint L C A G H query bytes Rotate_Kek params req =
     extracted (rotate_kek_json C req bytes) (\<lambda>b.
       writing C Rotate_Kek_Answer (rotate_kek L A (he_env H) (he_new_kek H) (he_kek_written H) b))"
| "run_endpoint L C A G H query bytes Open_Dispute params req =
     extracted (authed_body C req (open_dispute_json C req bytes)) (\<lambda>b.
       writing C Dispute_Answer (open_dispute L (he_env H) b))"
| "run_endpoint L C A G H query bytes Get_Dispute params req =
     extracted (authed_path C req params) (\<lambda>i. reading C Dispute_Answer (get_dispute L (he_env H) i))"
| "run_endpoint L C A G H query bytes Update_Dispute params req =
     extracted (authed_body C req (path_and_body C params (update_dispute_json C req bytes))) (\<lambda>(i, b).
       writing C Dispute_Answer (update_dispute L (he_env H) i b))"
| "run_endpoint L C A G H query bytes Resolve_Dispute params req =
     extracted (path_and_body C params (resolve_dispute_json C req bytes)) (\<lambda>(i, b).
       writing C Dispute_Answer (resolve_dispute L A (he_env H) i b))"
| "run_endpoint L C A G H query bytes Ws_Payments params req =
     extracted (and_then (upgrade C req) (\<lambda>switch. and_then (authed_path C req params) (\<lambda>i. Inr (switch, i))))
       (\<lambda>(switch, i) g. (case ws_handler L i of Inl e \<Rightarrow> text_answer C e | Inr _ \<Rightarrow> switch, g))"

section \<open>The route tables\<close>

text \<open>A row: the method, the pattern and the handler.\<close>

type_synonym route = "string \<times> string \<times> endpoint"

definition public_routes :: "route list" where
  "public_routes = [(''GET'', ''/public/worker-pubkey'', Worker_Pubkey)]"

definition auth_routes :: "route list" where
  "auth_routes = [(''POST'', ''/auth/challenge'', Challenge), (''POST'', ''/auth/verify'', Verify)]"

definition listing_routes :: "route list" where
  "listing_routes =
     [(''GET'', ''/listings'', List_Listings), (''POST'', ''/listings'', Create_Listing),
      (''GET'', ''/listings/:id'', Get_Listing), (''POST'', ''/listings/:id/update'', Update_Listing)]"

definition order_routes :: "route list" where
  "order_routes =
     [(''POST'', ''/orders'', Create_Order), (''GET'', ''/orders/:id'', Get_Order),
      (''POST'', ''/orders/:id/update'', Update_Order)]"

definition chat_routes :: "route list" where
  "chat_routes = [(''GET'', ''/chat/:order_id'', Get_Chat), (''POST'', ''/chat/:order_id'', Update_Chat)]"

definition admin_routes :: "route list" where
  "admin_routes =
     [(''POST'', ''/admin/blind-sign'', Blind_Sign), (''GET'', ''/admin/pubkey'', Get_Admin_Pubkey),
      (''POST'', ''/admin/rotate-kek'', Rotate_Kek)]"

definition dispute_routes :: "route list" where
  "dispute_routes =
     [(''POST'', ''/disputes'', Open_Dispute), (''GET'', ''/disputes/:id'', Get_Dispute),
      (''POST'', ''/disputes/:id/update'', Update_Dispute), (''POST'', ''/disputes/:id/resolve'', Resolve_Dispute)]"

definition all_routes :: "route list" where
  "all_routes =
     public_routes @ auth_routes @ listing_routes @ order_routes @ chat_routes @ admin_routes @ dispute_routes
     @ [(''GET'', ''/ws/payments/:order_id'', Ws_Payments)]"

section \<open>Dispatch\<close>

definition routes_for :: "codecs \<Rightarrow> string \<Rightarrow> route list" where
  "routes_for C p = filter (\<lambda>(_, pattern, _). match_route C pattern p \<noteq> None) all_routes"

text \<open>
  What the router library documents of its patterns: they are compared with the path segment by segment, and a segment
  that begins with a colon takes any segment of the path; whether it takes an empty one is left open (\<open>e\<close>).
\<close>

definition segments :: "string \<Rightarrow> string list" where
  "segments = split_on (\<lambda>c. c = CHR ''/'')"

fun match_segments :: "(string list \<Rightarrow> bool) \<Rightarrow> string list \<Rightarrow> string list \<Rightarrow> string list option" where
  "match_segments e [] [] = Some []"
| "match_segments e (p # ps) (s # ss) =
     (if starts_with '':'' p then (if s = [] \<and> \<not> e ss then None else map_option (Cons s) (match_segments e ps ss))
      else if p = s then match_segments e ps ss else None)"
| "match_segments e _ _ = None"

definition routes_ok :: "codecs \<Rightarrow> bool" where
  "routes_ok C \<longleftrightarrow> (\<exists>e. \<forall>m pattern ep p. (m, pattern, ep) \<in> set all_routes \<longrightarrow>
     match_route C pattern p = match_segments e (segments pattern) (segments p))"

text \<open>A GET route also answers HEAD, without the body.\<close>

definition serves :: "string \<Rightarrow> route \<Rightarrow> bool" where
  "serves m r \<longleftrightarrow> fst r = m \<or> (m = ''HEAD'' \<and> fst r = ''GET'')"

definition strip_body :: "string \<Rightarrow> http_response \<times> gateway \<Rightarrow> http_response \<times> gateway" where
  "strip_body m p = (if m = ''HEAD'' then ((fst p)\<lparr>body := []\<rparr>, snd p) else p)"

definition api_routes ::
    "ext \<Rightarrow> codecs \<Rightarrow> app \<Rightarrow> config \<Rightarrow> handler_env \<Rightarrow> string \<Rightarrow> bytes \<Rightarrow> service" where
  "api_routes L C A G H query bytes req g =
     (if routes_for C (path req) = [] then (fallback_500, g)
      else case find (serves (http_method req)) (routes_for C (path req)) of
             None \<Rightarrow> (wrong_method C, g)
           | Some (_, pattern, ep) \<Rightarrow>
              strip_body (http_method req)
                (run_endpoint L C A G H query bytes ep (unwrap_or (match_route C pattern (path req)) []) req g))"

text \<open>The router of \<^verbatim>\<open>build_router\<close>, handlers included.\<close>

definition api_service ::
    "ext \<Rightarrow> codecs \<Rightarrow> app \<Rightarrow> config \<Rightarrow> rate_limiter \<Rightarrow> env \<Rightarrow> nat \<Rightarrow> nat \<Rightarrow> handler_env \<Rightarrow> string \<Rightarrow> bytes \<Rightarrow> service" where
  "api_service L C A G R E now slot H query bytes =
     build_router L A R E now slot (api_routes L C A G H query bytes)"

text \<open>
  \<^verbatim>\<open>main.rs\<close> gives the merged router a fallback of its own, the static files, which replaces the one
  of \<^verbatim>\<open>build_router\<close> and stands outside its layers.
\<close>

definition api_server ::
    "service \<Rightarrow> ext \<Rightarrow> codecs \<Rightarrow> app \<Rightarrow> config \<Rightarrow> rate_limiter \<Rightarrow> env \<Rightarrow> nat \<Rightarrow> nat \<Rightarrow> handler_env \<Rightarrow> string \<Rightarrow> bytes \<Rightarrow> service" where
  "api_server serve_dir L C A G R E now slot H query bytes req =
     (if routes_for C (path req) = [] then serve_dir req
      else api_service L C A G R E now slot H query bytes req)"

lemma static_outside_layers:
  "routes_for C (path req) = [] \<Longrightarrow> api_server serve_dir L C A G R E now slot H query bytes req = serve_dir req"
  by (simp add: api_server_def)

end
