(* ===== verification/Api_Effects.thy ===== *)
theory Api_Effects
  imports Router
begin

text \<open>
  What one request can do to the database, through the whole API: nothing, one new row, or one
  conditional write of one row, each with contents within the bounds the handlers check.  Hence an
  invariant of the stored rows, and who may have written them.
\<close>

section \<open>Rows within their bounds\<close>

definition label_ok :: "string \<Rightarrow> bool" where
  "label_ok s \<longleftrightarrow> s \<noteq> [] \<and> length s \<le> max_label_bytes \<and> is_ascii s"

definition token_ok :: "bytes option \<Rightarrow> bool" where
  "token_ok t \<longleftrightarrow> (case t of None \<Rightarrow> True | Some b \<Rightarrow> length b \<le> max_search_token_bytes)"

definition at_most :: "nat \<Rightarrow> bytes option \<Rightarrow> bool" where
  "at_most n b \<longleftrightarrow> (case b of None \<Rightarrow> True | Some b \<Rightarrow> length b \<le> n)"

definition bucketed :: "int option \<Rightarrow> bool" where
  "bucketed t \<longleftrightarrow> (case t of None \<Rightarrow> True | Some t \<Rightarrow> 21600 dvd t)"

definition order_row_ok :: "order \<Rightarrow> bool" where
  "order_row_ok r \<longleftrightarrow>
     encrypted_order_blob r \<noteq> [] \<and> length (encrypted_order_blob r) \<le> max_order_blob_bytes
     \<and> at_most max_chat_blob_bytes (chat_encrypted_blob r) \<and> at_most max_dispute_blob_bytes (dispute_client_blob r)
     \<and> 21600 dvd o_day_bucket r \<and> bucketed (expiry_bucket r) \<and> 1 \<le> o_version r
     \<and> has_dispute r \<in> {0, 1} \<and> (has_dispute r = 1 \<longrightarrow> dispute_client_blob r \<noteq> None)"

definition listing_row_ok :: "listing \<Rightarrow> bool" where
  "listing_row_ok r \<longleftrightarrow>
     encrypted_listing_blob r \<noteq> [] \<and> length (encrypted_listing_blob r) \<le> max_listing_blob_bytes
     \<and> token_ok (search_token r) \<and> label_ok (l_status r) \<and> label_ok (l_currency r)
     \<and> 21600 dvd l_day_bucket r \<and> 1 \<le> l_version r"

definition database_ok :: "api_state \<Rightarrow> bool" where
  "database_ok st \<longleftrightarrow> orders_wf (db_orders st) \<and> listings_wf (db_listings st)
     \<and> list_all order_row_ok (db_orders st) \<and> list_all listing_row_ok (db_listings st)"

fun order_write_ok :: "order_write \<Rightarrow> bool" where
  "order_write_ok (SetOrderBlob b) = (b \<noteq> [] \<and> length b \<le> max_order_blob_bytes)"
| "order_write_ok (SetBlobExpiry b e) = False"
| "order_write_ok (OpenDispute b) = (length b \<le> max_dispute_blob_bytes)"
| "order_write_ok (UpdateDispute b) = (length b \<le> max_dispute_blob_bytes)"
| "order_write_ok (ResolveDispute b) = (length b \<le> max_dispute_blob_bytes)"
| "order_write_ok (SetChat b) = (length b \<le> max_chat_blob_bytes)"

fun listing_write_ok :: "listing \<Rightarrow> listing_write \<Rightarrow> bool" where
  "listing_write_ok r (SetListing b t s c) =
     (b \<noteq> [] \<and> length b \<le> max_listing_blob_bytes \<and> token_ok t
      \<and> (label_ok s \<or> s = l_status r) \<and> (label_ok c \<or> c = l_currency r))"
| "listing_write_ok r (ExpireListing b) = False"

section \<open>The effects\<close>

text \<open>\<open>W\<close>: the writes of orders that may have happened.\<close>

inductive api_effect :: "(order_write \<Rightarrow> bool) \<Rightarrow> api_state \<Rightarrow> api_state \<Rightarrow> bool" for W where
  untouched: "db_orders st' = db_orders st \<Longrightarrow> db_listings st' = db_listings st \<Longrightarrow> api_effect W st st'"
| order_created: "insert_order r (db_orders st) = Some (db_orders st') \<Longrightarrow> order_row_ok r \<Longrightarrow> o_version r = 1 \<Longrightarrow>
    db_listings st' = db_listings st \<Longrightarrow> api_effect W st st'"
| order_written: "select_order i (db_orders st) = Some r \<Longrightarrow> order_write_ok w \<Longrightarrow> W w \<Longrightarrow>
    db_orders st' = fst (update_orders w i (o_version r) (db_orders st)) \<Longrightarrow>
    db_listings st' = db_listings st \<Longrightarrow> api_effect W st st'"
| listing_created: "insert_listing l (db_listings st) = Some (db_listings st') \<Longrightarrow> listing_row_ok l \<Longrightarrow> l_version l = 1 \<Longrightarrow>
    db_orders st' = db_orders st \<Longrightarrow> api_effect W st st'"
| listing_written: "select_listing i (db_listings st) = Some l \<Longrightarrow> listing_write_ok l lw \<Longrightarrow>
    db_listings st' = fst (update_listings lw i (l_version l) (db_listings st)) \<Longrightarrow>
    db_orders st' = db_orders st \<Longrightarrow> api_effect W st st'"

lemma api_effect_mono: "api_effect W st st' \<Longrightarrow> (\<And>w. W w \<Longrightarrow> W' w) \<Longrightarrow> api_effect W' st st'"
  by (induction rule: api_effect.induct) (auto intro: api_effect.intros)

lemma api_effect_ok_writes: "api_effect W st st' \<Longrightarrow> api_effect order_write_ok st st'"
  by (induction rule: api_effect.induct) (auto intro: api_effect.intros)

lemma api_effect_refl [simp, intro]: "api_effect W st st"
  by (rule untouched) simp_all

section \<open>Handlers that write an order\<close>

lemma optimistic_listings:
  "db_listings (snd p) = ls \<Longrightarrow> db_listings (snd (optimistic E k p)) = ls"
  unfolding optimistic_def
  by (intro listings_frame) (auto simp: listings_frame)

text \<open>The contract of a read phase, and what it gives for the handler.\<close>

definition reads_order :: "(order_write \<Rightarrow> bool) \<Rightarrow> api_state \<Rightarrow> (order_cas \<times> 'r) res \<times> api_state \<Rightarrow> bool" where
  "reads_order W st p \<longleftrightarrow> db_orders (snd p) = db_orders st \<and> db_listings (snd p) = db_listings st
     \<and> (\<forall>c resp. fst p = Inr (c, resp) \<longrightarrow> order_write_ok (cas_write c) \<and> W (cas_write c)
          \<and> (\<exists>r. select_order (cas_id c) (db_orders st) = Some r \<and> cas_version c = o_version r))"

lemma optimistic_effect:
  assumes "reads_order W st p"
  shows "api_effect W st (snd (optimistic E k p))"
proof (cases "fst p")
  case (Inl e)
  with assms show ?thesis
    by (intro untouched) (simp_all add: optimistic_orders optimistic_listings reads_order_def)
next
  case (Inr cr)
  obtain c resp where cr: "fst p = Inr (c, resp)" using Inr by (cases cr) simp
  obtain r where r: "select_order (cas_id c) (db_orders st) = Some r" "cas_version c = o_version r"
    using assms cr by (auto simp: reads_order_def)
  have eq: "db_orders (snd (optimistic E k p)) = snd (commit_orders E k c (db_orders st))"
    using assms cr by (simp add: optimistic_orders reads_order_def)
  have ls: "db_listings (snd (optimistic E k p)) = db_listings st"
    using assms by (simp add: optimistic_listings reads_order_def)
  show ?thesis
  proof (cases "db_fault E k")
    case (Some e)
    with eq ls show ?thesis by (intro untouched) (simp_all add: commit_orders_def)
  next
    case None
    then have "snd (commit_orders E k c (db_orders st)) = fst (update_orders (cas_write c) (cas_id c) (o_version r) (db_orders st))"
      using r(2) by (simp add: commit_orders_def split_beta Let_def)
    with eq ls r(1) cr assms show ?thesis
      by (intro order_written [of "cas_id c" st r "cas_write c"]) (auto simp: reads_order_def)
  qed
qed

lemma reads_orderI:
  assumes "db_orders (snd p) = db_orders st" "db_listings (snd p) = db_listings st"
    and "\<And>c resp st1. p = (Inr (c, resp), st1) \<Longrightarrow> order_write_ok (cas_write c) \<and> W (cas_write c)
       \<and> (\<exists>r. select_order (cas_id c) (db_orders st) = Some r \<and> cas_version c = o_version r)"
  shows "reads_order W st p"
  using assms by (cases p) (auto simp: reads_order_def)

text \<open>The statement each handler issues.\<close>

fun may_write :: "endpoint \<Rightarrow> order_write \<Rightarrow> bool" where
  "may_write ep (SetOrderBlob b) = (ep = Update_Order)"
| "may_write ep (SetBlobExpiry b e) = False"
| "may_write ep (OpenDispute b) = (ep = Open_Dispute)"
| "may_write ep (UpdateDispute b) = (ep = Update_Dispute)"
| "may_write ep (ResolveDispute b) = (ep = Resolve_Dispute)"
| "may_write ep (SetChat b) = (ep = Update_Chat)"

lemma update_order_effects: "api_effect (may_write Update_Order) st (snd (update_order L E pk i req st))"
  unfolding update_order_def
proof (intro optimistic_effect reads_orderI)
  show "db_listings (snd (update_order_read L E pk i req st)) = db_listings st"
    unfolding update_order_read_def
    by (intro listings_frame) (auto simp: check_update_nonce_replay_def replay_insert_def split: bool.split)
qed (auto simp: update_order_read_Inr update_checks_def check_order_blob_Inr)

lemma update_chat_effects: "api_effect (may_write Update_Chat) st (snd (update_chat L E i req st))"
  unfolding update_chat_def
proof (intro optimistic_effect reads_orderI)
  show "db_listings (snd (update_chat_read L E i req st)) = db_listings st"
    unfolding update_chat_read_def
    by (intro listings_frame) (auto simp: check_chat_nonce_replay_def replay_insert_def split: bool.split)
qed (auto simp: update_chat_read_Inr check_chat_blob_Inr)

lemma open_dispute_effects: "api_effect (may_write Open_Dispute) st (snd (open_dispute L E req st))"
  unfolding open_dispute_def
proof (intro optimistic_effect reads_orderI)
  show "db_listings (snd (open_dispute_read L E req st)) = db_listings st"
    unfolding open_dispute_read_def
    by (intro listings_frame) (auto simp: check_dispute_nonce_replay_def replay_insert_def split: bool.split)
qed (auto simp: open_dispute_read_Inr check_dispute_blob_Inr)

lemma update_dispute_read_Inr:
  assumes "update_dispute_read L E i req st = (Inr (c, resp), st1)"
  obtains oid blob r where "hex_decode L i = Some oid" "check_dispute_blob L (ud_blob req) = Inr blob"
    "select_order oid (db_orders st) = Some r"
    "c = \<lparr>cas_id = oid, cas_version = o_version r, cas_write = UpdateDispute blob\<rparr>"
  using assms unfolding update_dispute_read_def
  by (cases "hex_decode L i"; cases "check_dispute_blob L (ud_blob req)")
     (auto simp: check_dispute_nonce_step Let_def split: if_splits)

lemma update_dispute_effects: "api_effect (may_write Update_Dispute) st (snd (update_dispute L E i req st))"
  unfolding update_dispute_def
proof (intro optimistic_effect reads_orderI)
  show "db_listings (snd (update_dispute_read L E i req st)) = db_listings st"
    unfolding update_dispute_read_def
    by (intro listings_frame) (auto simp: check_dispute_nonce_replay_def replay_insert_def split: bool.split)
qed (auto elim!: update_dispute_read_Inr simp: check_dispute_blob_Inr)

lemma resolve_dispute_effects: "api_effect (may_write Resolve_Dispute) st (snd (resolve_dispute L A E i req st))"
  unfolding resolve_dispute_def
proof (intro optimistic_effect reads_orderI)
  show "db_listings (snd (resolve_dispute_read L A E i req st)) = db_listings st"
    unfolding resolve_dispute_read_def
    by (intro listings_frame) (auto simp: check_admin_token_replay_def replay_insert_def split: bool.split)
qed (auto simp: resolve_dispute_read_Inr check_outcome_blob_Inr)

lemma created_row_ok:
  assumes "check_order_blob L (co_blob req) = Inr blob"
  shows "order_row_ok (created_row A E req blob)" "o_version (created_row A E req blob) = 1"
  using assms
  by (simp_all add: created_row_def new_order_row_def order_row_ok_def check_order_blob_Inr at_most_def bucketed_def
      floor_6h_multiple order_expiry_def)

lemma create_order_effects: "api_effect W st (snd (create_order L A E req st))"
proof (cases rule: create_order_cases [of L A E req st])
  case (failed e)
  have "db_listings (snd (create_order L A E req st)) = db_listings st"
    unfolding create_order_def
    by (intro listings_frame)
       (auto simp: check_create_nonce_replay_def replay_insert_def Let_def split: bool.split option.split)
  with failed show ?thesis by (intro untouched)
next
  case (stored blob rows)
  then show ?thesis using created_row_ok [OF stored(1), of A E]
    by (intro order_created [of "created_row A E req blob"]) simp_all
qed

section \<open>Handlers that write a listing\<close>

lemma validate_label_ok: "validate_label s f = Inr l \<longleftrightarrow> l = s \<and> label_ok s"
  by (auto simp: validate_label_def label_ok_def)

lemma check_search_token_ok: "check_search_token L t = Inr b \<Longrightarrow> token_ok b"
  by (auto simp: check_search_token_def token_ok_def split: option.splits if_splits)

lemma check_listing_blob_ok: "check_listing_blob L s = Inr b \<Longrightarrow> b \<noteq> [] \<and> length b \<le> max_listing_blob_bytes"
  by (auto simp: check_listing_blob_def split: if_splits)

definition listing_grows_ok :: "listings \<Rightarrow> 'r \<times> api_state \<Rightarrow> bool" where
  "listing_grows_ok ls p \<longleftrightarrow> db_listings (snd p) = ls
     \<or> (\<exists>r. insert_listing r ls = Some (db_listings (snd p)) \<and> listing_row_ok r \<and> l_version r = 1)"

lemma listing_grows_ok_then:
  assumes "\<And>x. r = Inr x \<Longrightarrow> listing_grows_ok ls (f x st)" "db_listings st = ls"
  shows "listing_grows_ok ls (then_do (r, st) f)"
  using assms by (cases r) (auto simp: listing_grows_ok_def)

lemma create_listing_grows_ok: "listing_grows_ok (db_listings st) (create_listing L E req st)"
  unfolding create_listing_def
  by (intro listing_grows_ok_then refl)
     (auto simp: create_listing_step listing_grows_ok_def new_listing_row_def listing_row_ok_def validate_label_ok
       floor_6h_multiple check_search_token_ok Let_def dest!: check_listing_blob_ok split: option.split)

lemma create_listing_effects: "api_effect W st (snd (create_listing L E req st))"
proof -
  have orders: "db_orders (snd (create_listing L E req st)) = db_orders st"
    unfolding create_listing_def
    by (intro orders_frame) (auto simp: create_listing_step Let_def split: option.split)
  show ?thesis
    using create_listing_grows_ok [of st L E req] orders unfolding listing_grows_ok_def
    by (blast intro: untouched listing_created)
qed

lemma update_listing_effects: "api_effect W st (snd (update_listing L E i req st))"
proof -
  have frame: "db_orders (snd (update_listing_read L E i req st)) = db_orders st"
    unfolding update_listing_read_def
    by (intro orders_frame) (auto simp: check_update_listing_nonce_def replay_insert_def split: bool.split)
  have orders: "db_orders (snd (update_listing L E i req st)) = db_orders st"
    unfolding update_listing_def
    by (intro orders_frame frame) (auto intro!: orders_frame simp: commit_listing_contract split: prod.splits)
  show ?thesis
  proof (cases "fst (update_listing_read L E i req st)")
    case (Inl e)
    with orders show ?thesis by (intro untouched) (simp_all add: update_listing_listings)
  next
    case (Inr cr)
    then obtain c resp where cr: "fst (update_listing_read L E i req st) = Inr (c, resp)" by (cases cr) simp
    then have "update_listing_read L E i req st = (Inr (c, resp), snd (update_listing_read L E i req st))"
      by (metis prod.collapse)
    then obtain lid blob token r where r: "check_listing_blob L (ul_blob req) = Inr blob"
      "check_search_token L (ul_search_token req) = Inr token"
      "check_optional_label (ul_status req) ''status'' = Inr (ul_status req)"
      "check_optional_label (ul_currency req) ''currency'' = Inr (ul_currency req)"
      "select_listing lid (db_listings st) = Some r"
      "c = \<lparr>lcas_id = lid, lcas_version = l_version r, lcas_write = SetListing blob token
         (case ul_status req of Some s \<Rightarrow> s | None \<Rightarrow> l_status r) (case ul_currency req of Some s \<Rightarrow> s | None \<Rightarrow> l_currency r)\<rparr>"
      by (rule update_listing_read_Inr)
    let ?st1 = "snd (update_listing_read L E i req st)"
    have ok: "listing_write_ok r (lcas_write c)"
      using check_listing_blob_ok [OF r(1)] check_search_token_ok [OF r(2)] r(3,4)
      by (auto simp: r(6) check_optional_label_def validate_label_ok split: option.splits)
    have ls: "db_listings (snd (update_listing L E i req st)) = db_listings (snd (commit_listing E 1 c ?st1))"
      using cr by (simp add: update_listing_listings)
    show ?thesis
    proof (cases "db_fault E 1")
      case (Some e)
      with ls orders show ?thesis by (intro untouched) (simp_all add: commit_listing_def)
    next
      case None
      then have "db_listings (snd (commit_listing E 1 c ?st1)) = fst (update_listings (lcas_write c) lid (l_version r) (db_listings st))"
        by (simp add: commit_listing_def split_beta Let_def r(6))
      with ls orders r(5) ok show ?thesis by (intro listing_written [of lid st r "lcas_write c"]) simp_all
    qed
  qed
qed

lemma rotate_kek_effects: "api_effect W st (snd (rotate_kek L A E k w req st))"
proof (rule untouched)
  show "db_orders (snd (rotate_kek L A E k w req st)) = db_orders st"
    unfolding rotate_kek_def by (intro orders_frame) auto
  show "db_listings (snd (rotate_kek L A E k w req st)) = db_listings st"
    unfolding rotate_kek_def by (intro listings_frame) auto
qed

section \<open>From the handlers to the whole API\<close>

lemma writing_api [simp]: "api (snd (writing C f h g)) = snd (h (api g))"
  by (simp add: writing_def split_beta Let_def)

lemma extracted_api:
  assumes "\<And>a. x = Inr a \<Longrightarrow> P (api g) (api (snd (k a g)))" "P (api g) (api g)"
  shows "P (api g) (api (snd (extracted x k g)))"
  using assms by (cases x) (simp_all add: extracted_def)

lemma reading_api [simp]: "api (snd (reading C f h g)) = api g"
  by (simp add: reading_def)

lemma on_challenges_api [simp]: "api (snd (on_challenges C f h g)) = api g"
  by (simp add: on_challenges_def split_beta Let_def)

lemmas handler_effects =
  create_order_effects update_order_effects create_listing_effects update_listing_effects update_chat_effects
  open_dispute_effects update_dispute_effects resolve_dispute_effects rotate_kek_effects

lemma run_endpoint_effect:
  "api_effect (may_write ep) (api g) (api (snd (run_endpoint L C A G H query bytes ep params req g)))"
  by (cases ep) (auto intro!: extracted_api [where P = "api_effect (may_write _)"] simp: handler_effects split: prod.split)

lemma strip_body_snd [simp]: "snd (strip_body m p) = snd p"
  by (simp add: strip_body_def)

lemma api_routes_cases:
  obtains (handled) m pattern ep where "(m, pattern, ep) \<in> set (routes_for C (path req))" "serves (http_method req) (m, pattern, ep)"
      "api_routes L C A G H query bytes req g =
        strip_body (http_method req)
          (run_endpoint L C A G H query bytes ep (unwrap_or (match_route C pattern (path req)) []) req g)"
  | (refused) r where "api_routes L C A G H query bytes req g = (r, g)"
proof (cases "find (serves (http_method req)) (routes_for C (path req))")
  case None
  then show ?thesis
    by (intro refused [of "if routes_for C (path req) = [] then fallback_500 else wrong_method C"])
       (auto simp: api_routes_def)
next
  case (Some r)
  obtain m pattern ep where r: "r = (m, pattern, ep)" by (cases r)
  have "serves (http_method req) r" "r \<in> set (routes_for C (path req))"
    using Some by (auto simp: find_Some_iff)
  with Some r show ?thesis by (intro handled) (auto simp: api_routes_def)
qed

lemma api_routes_effect: "api_effect order_write_ok (api g) (api (snd (api_routes L C A G H query bytes req g)))"
  by (cases rule: api_routes_cases [of C req L A G H query bytes g]) (auto intro: run_endpoint_effect [THEN api_effect_ok_writes])

lemma api_service_effect:
  "api_effect order_write_ok (api g) (api (snd (api_service L C A G R E now slot H query bytes req g)))"
proof -
  let ?inner = "security_headers_middleware (api_routes L C A G H query bytes)"
  let ?o = "stateless_auth_middleware L A E (rate_limit_middleware L R now (validation_middleware
        (tor_guard_middleware slot ?inner)))"
  have out: "snd (api_service L C A G R E now slot H query bytes req g) = snd (?o req g)"
    by (simp add: api_service_def build_router_eq Let_def)
  have "guards_at ?o ?inner req g"
    using inner_guards [of L A E R now slot ?inner] by (simp add: guards_def)
  then show ?thesis
    unfolding guards_at_def out
  proof (elim disjE exE conjE)
    fix req' g' assume "?o req g = ?inner req' g'" "api g' = api g"
    then show "api_effect order_write_ok (api g) (api (snd (?o req g)))"
      using api_routes_effect [of g' L C A G H query bytes req'] by simp
  qed simp
qed

section \<open>What an effect preserves\<close>

lemma order_write_row_ok:
  "order_write_ok w \<Longrightarrow> order_row_ok r \<Longrightarrow> order_row_ok (apply_order_write w r)"
  by (cases w) (auto simp: order_row_ok_def apply_order_write_def at_most_def)

lemma listing_write_row_ok:
  "listing_write_ok r w \<Longrightarrow> listing_row_ok r \<Longrightarrow> listing_row_ok (apply_listing_write w r)"
  by (cases w) (auto simp: listing_row_ok_def apply_listing_write_def)

lemma update_orders_ok:
  assumes "order_write_ok w" "list_all order_row_ok os"
  shows "list_all order_row_ok (fst (update_orders w i v os))"
  using assms by (auto simp: update_orders_def cas_update_def list_all_iff order_write_row_ok)

lemma update_listings_ok:
  assumes "listings_wf ls" "select_listing i ls = Some l" "listing_write_ok l w" "list_all listing_row_ok ls"
  shows "list_all listing_row_ok (fst (update_listings w i v ls))"
proof -
  have "l' = l" if "l' \<in> set ls" "l_id l' = i" for l'
    using assms(1,2) that select_by_eq [of l_id ls l' i] by (simp add: listings_wf_def)
  with assms(3,4) show ?thesis
    by (auto simp: update_listings_def cas_update_def list_all_iff listing_write_row_ok)
qed

lemma api_effect_ok: "api_effect W st st' \<Longrightarrow> database_ok st \<Longrightarrow> database_ok st'"
proof (induction rule: api_effect.induct)
  case (order_created r st st')
  then show ?case
    using orders_wf_insert [OF order_created(1)] by (auto simp: database_ok_def insert_order_def insert_row_Some)
next
  case (listing_created l st st')
  then show ?case
    using listings_wf_insert [OF listing_created(1)] by (auto simp: database_ok_def insert_listing_def insert_row_Some)
qed (simp_all add: database_ok_def orders_wf_update update_orders_ok listings_wf_update update_listings_ok)

section \<open>Who can write\<close>

text \<open>How a request reached its handler when the database, the nonce caches or the key file changed.\<close>

definition admitted :: "ext \<Rightarrow> app \<Rightarrow> env \<Rightarrow> http_request \<Rightarrow> gateway \<Rightarrow> auth_headers \<Rightarrow> bool" where
  "admitted L A E req g h \<longleftrightarrow>
     \<not> public_path (path req) \<and> read_auth_headers L req = Inr h \<and> check_credentials L A E (path req) h = Inr ()
     \<and> fst (check_replay (ah_hour h, ah_nonce h) (nonce_buckets g)) \<and> valid_request req"

lemma segments_public:
  assumes "public_path p"
  obtains rest where "segments p = [] # ''auth'' # rest" | rest where "segments p = [] # ''api'' # ''auth'' # rest"
  | rest where "segments p = [] # ''public'' # rest"
proof -
  have pre: "\<exists>q. p = pre @ q" if "starts_with pre p" for pre
    using that by (metis append_take_drop_id starts_with_def)
  from assms consider "starts_with ''/auth/'' p" | "starts_with ''/api/auth/'' p" | "starts_with ''/public/'' p"
    by (auto simp: public_path_def)
  then show thesis
  proof cases
    case 1
    then obtain q where "p = ''/auth/'' @ q" using pre by blast
    then show thesis by (intro that(1) [of "segments q"]) (simp add: segments_def)
  next
    case 2
    then obtain q where "p = ''/api/auth/'' @ q" using pre by blast
    then show thesis by (intro that(2) [of "segments q"]) (simp add: segments_def)
  next
    case 3
    then obtain q where "p = ''/public/'' @ q" using pre by blast
    then show thesis by (intro that(3) [of "segments q"]) (simp add: segments_def)
  qed
qed

lemmas route_tables =
  all_routes_def public_routes_def auth_routes_def listing_routes_def order_routes_def chat_routes_def
  admin_routes_def dispute_routes_def

lemma routes_for_iff:
  "(m, pattern, ep) \<in> set (routes_for C p) \<longleftrightarrow> (m, pattern, ep) \<in> set all_routes \<and> match_route C pattern p \<noteq> None"
  by (auto simp: routes_for_def)

lemma public_endpoints:
  assumes "routes_ok C" "public_path p" "(m, pattern, ep) \<in> set (routes_for C p)"
  shows "ep \<in> {Worker_Pubkey, Challenge, Verify}"
proof -
  have mem: "(m, pattern, ep) \<in> set all_routes" using assms(3) by (simp add: routes_for_iff)
  obtain e where e: "\<forall>m pattern ep p. (m, pattern, ep) \<in> set all_routes \<longrightarrow>
      match_route C pattern p = match_segments e (segments pattern) (segments p)"
    using assms(1) unfolding routes_ok_def by blast
  have "match_segments e (segments pattern) (segments p) \<noteq> None"
    using assms(3) e [rule_format, OF mem, of p] by (simp add: routes_for_iff)
  with mem show ?thesis
    by - (rule segments_public [OF assms(2)]; auto simp: route_tables segments_def starts_with_def)
qed

lemma public_endpoints_api:
  "ep \<in> {Worker_Pubkey, Challenge, Verify} \<Longrightarrow> api (snd (run_endpoint L C A G H query bytes ep params req g)) = api g"
  by (auto intro!: extracted_api [where P = "\<lambda>a b. b = a"])

lemma api_routes_public:
  "routes_ok C \<Longrightarrow> public_path (path req) \<Longrightarrow> api (snd (api_routes L C A G H query bytes req g)) = api g"
  by (cases rule: api_routes_cases [of C req L A G H query bytes g]) (simp_all add: public_endpoints_api [OF public_endpoints])

text \<open>The layers below the authentication hand on the extensions it has set.\<close>

lemma below_auth:
  assumes "api (snd (rate_limit_middleware L R now (validation_middleware (tor_guard_middleware slot nxt)) req g)) \<noteq> api g"
  obtains g' where "valid_request req" "api g' = api g"
    "snd (rate_limit_middleware L R now (validation_middleware (tor_guard_middleware slot nxt)) req g)
       = snd (nxt (req\<lparr>ext_circuit := Some slot\<rparr>) g')"
proof (rule that [of "g\<lparr>rate_buckets := snd (rate_check R (get_rate_limit_key L req, now) (rate_buckets g))\<rparr>"])
qed (use assms in \<open>auto simp: rate_limit_middleware_def validation_middleware_def tor_guard_middleware_def
      split_beta Let_def split: if_splits\<close>)

lemma valid_request_cong:
  "path req' = path req \<Longrightarrow> headers req' = headers req \<Longrightarrow> http_method req' = http_method req \<Longrightarrow>
     valid_request req' \<longleftrightarrow> valid_request req"
  by (simp only: valid_request_def header_def header_raw_def)

lemma api_service_admitted:
  assumes "api (snd (api_service L C A G R E now slot H query bytes req g)) \<noteq> api g" "routes_ok C"
  obtains h g' where "admitted L A E req g h" "api g' = api g"
    "snd (api_service L C A G R E now slot H query bytes req g)
       = snd (api_routes L C A G H query bytes
           (req\<lparr>ext_pubkey := Some (hash_pubkey L (ah_pubkey h)), ext_pubkey_bytes := Some (ah_pubkey h),
                ext_circuit := Some slot\<rparr>) g')"
proof -
  let ?inner = "security_headers_middleware (api_routes L C A G H query bytes)"
  let ?low = "rate_limit_middleware L R now (validation_middleware (tor_guard_middleware slot ?inner))"
  have out: "snd (api_service L C A G R E now slot H query bytes req g) = snd (stateless_auth_middleware L A E ?low req g)"
    by (simp add: api_service_def build_router_eq Let_def)
  show thesis
  proof (cases "public_path (path req)")
    case True
    then have "api (snd (?low req g)) \<noteq> api g"
      using assms(1) out by (simp add: stateless_auth_middleware_def)
    then obtain g' where "api g' = api g" "snd (?low req g) = snd (?inner (req\<lparr>ext_circuit := Some slot\<rparr>) g')"
      by (rule below_auth)
    moreover have "api (snd (?inner (req\<lparr>ext_circuit := Some slot\<rparr>) g')) = api g'"
      using api_routes_public [OF assms(2), of "req\<lparr>ext_circuit := Some slot\<rparr>"] True by simp
    ultimately show thesis using assms out True by (simp add: stateless_auth_middleware_def)
  next
    case np: False
    show thesis
    proof (cases "read_auth_headers L req")
      case (Inl e)
      with assms out np show thesis by (simp add: stateless_auth_middleware_def)
    next
      case h: (Inr h)
      show thesis
      proof (cases "check_credentials L A E (path req) h")
        case (Inl e)
        with assms out np h show thesis by (simp add: stateless_auth_middleware_def)
      next
        case cred: (Inr u)
        let ?r = "check_replay (ah_hour h, ah_nonce h) (nonce_buckets g)"
        let ?req = "req\<lparr>ext_pubkey := Some (hash_pubkey L (ah_pubkey h)), ext_pubkey_bytes := Some (ah_pubkey h)\<rparr>"
        have run: "stateless_auth_middleware L A E ?low req g =
            (if \<not> fst ?r then (error_response, g\<lparr>nonce_buckets := snd ?r\<rparr>)
             else ?low ?req (g\<lparr>nonce_buckets := snd ?r\<rparr>))"
          using np h cred by (simp add: stateless_auth_middleware_def split_beta Let_def)
        have fresh: "fst ?r" using assms out run by (auto split: if_splits)
        then have "api (snd (?low ?req (g\<lparr>nonce_buckets := snd ?r\<rparr>))) \<noteq> api (g\<lparr>nonce_buckets := snd ?r\<rparr>)"
          using assms out run by simp
        then obtain g' where "valid_request ?req" "api g' = api (g\<lparr>nonce_buckets := snd ?r\<rparr>)"
          "snd (?low ?req (g\<lparr>nonce_buckets := snd ?r\<rparr>)) = snd (?inner (?req\<lparr>ext_circuit := Some slot\<rparr>) g')"
          by (rule below_auth)
        with np h cred fresh out run show thesis
          using valid_request_cong [of ?req req] by (intro that [of h g']) (simp_all add: admitted_def)
      qed
    qed
  qed
qed

end
