(* ===== verification/Whole_Api.thy ===== *)
theory Whole_Api
  imports Api_Effects
begin

text \<open>
  The API process under any sequence of requests: the invariant of what it stores, what one request
  may change and by whose authority, and the way of a client's update through every layer.
\<close>

section \<open>A history of requests\<close>

record api_call =
  ac_clock :: env
  ac_now :: nat
  ac_slot :: nat
  ac_handler :: handler_env
  ac_query :: string
  ac_body :: bytes
  ac_request :: http_request

definition api_call :: "ext \<Rightarrow> codecs \<Rightarrow> app \<Rightarrow> config \<Rightarrow> rate_limiter \<Rightarrow> api_call \<Rightarrow> gateway \<Rightarrow> http_response \<times> gateway" where
  "api_call L C A G R c =
     api_service L C A G R (ac_clock c) (ac_now c) (ac_slot c) (ac_handler c) (ac_query c) (ac_body c) (ac_request c)"

lemma api_call_effect: "api_effect order_write_ok (api g) (api (snd (api_call L C A G R c g)))"
  unfolding api_call_def by (rule api_service_effect)

lemma api_effect_evolves:
  "api_effect W st st' \<Longrightarrow> orders_evolve (db_orders st) (db_orders st') \<and> listings_evolve (db_listings st) (db_listings st')"
  by (induction rule: api_effect.induct)
     (simp_all add: orders_evolve_insert orders_evolve_update listings_evolve_insert update_listings_def lst.evolves_cas)

lemma database_run_ok:
  "database_ok (api g) \<Longrightarrow> database_ok (api (snd (run_ops (api_call L C A G R) cs g)))"
  by (induction cs arbitrary: g) (simp_all add: api_effect_ok [OF api_call_effect])

section \<open>Changes of one row\<close>

text \<open>
  \<open>one_row key ver kept i rs rs'\<close>: only row \<open>i\<close> may differ; it is new with version 1, or has its version
  raised by one and the \<open>kept\<close> columns unchanged.
\<close>

definition one_row :: "('r \<Rightarrow> 'k) \<Rightarrow> ('r \<Rightarrow> int) \<Rightarrow> ('r \<Rightarrow> 'c) \<Rightarrow> 'k \<Rightarrow> 'r list \<Rightarrow> 'r list \<Rightarrow> bool" where
  "one_row key ver kept i rs rs' \<longleftrightarrow>
     (\<forall>j. j \<noteq> i \<longrightarrow> select_by key j rs' = select_by key j rs)
     \<and> (case select_by key i rs of
          None \<Rightarrow> (case select_by key i rs' of None \<Rightarrow> True | Some r' \<Rightarrow> ver r' = 1)
        | Some r \<Rightarrow> (case select_by key i rs' of
             None \<Rightarrow> False
           | Some r' \<Rightarrow> r' = r \<or> (ver r' = ver r + 1 \<and> kept r' = kept r)))"

lemma one_row_refl [simp]: "one_row key ver kept i rs rs"
  by (auto simp: one_row_def split: option.split)

lemma one_row_insert:
  assumes "insert_row key r rs = Some rs'" "ver r = 1"
  shows "one_row key ver kept (key r) rs rs'"
proof -
  have rs': "rs' = rs @ [r]" and new: "select_by key (key r) rs = None"
    using assms(1) by (auto simp: insert_row_Some select_by_None)
  have "select_by key j rs' = (if j = key r then Some r else select_by key j rs)" for j
    using new by (simp add: rs' select_by_append split: option.split) (simp add: select_by_def)
  with new assms(2) show ?thesis by (simp add: one_row_def)
qed

context versioned_table begin

lemma one_row_cas:
  assumes "\<And>r. kept (app w r) = kept r"
  shows "one_row key ver kept i rs (fst (cas_update key ver app w i v rs))"
  unfolding one_row_def
  by (intro conjI allI impI select_cas_other) (auto simp: select_cas assms ver_app split: option.split)

end

section \<open>The handler behind a change\<close>

text \<open>The request as the handler sees it.\<close>

definition handler_request :: "ext \<Rightarrow> api_call \<Rightarrow> auth_headers \<Rightarrow> http_request" where
  "handler_request L c h = (ac_request c)\<lparr>ext_pubkey := Some (hash_pubkey L (ah_pubkey h)),
     ext_pubkey_bytes := Some (ah_pubkey h), ext_circuit := Some (ac_slot c)\<rparr>"

lemma api_call_handled:
  assumes "api (snd (api_call L C A G R c g)) \<noteq> api g" "routes_ok C"
  obtains h g1 ep params where "admitted L A (ac_clock c) (ac_request c) g h" "api g1 = api g"
    "snd (api_call L C A G R c g)
       = snd (run_endpoint L C A G (ac_handler c) (ac_query c) (ac_body c) ep params (handler_request L c h) g1)"
proof -
  from assms obtain h g1 where h: "admitted L A (ac_clock c) (ac_request c) g h" "api g1 = api g"
    "snd (api_call L C A G R c g)
       = snd (api_routes L C A G (ac_handler c) (ac_query c) (ac_body c) (handler_request L c h) g1)"
    unfolding api_call_def handler_request_def by (rule api_service_admitted)
  show thesis
  proof (cases rule: api_routes_cases [of C "handler_request L c h" L A G "ac_handler c" "ac_query c" "ac_body c" g1])
    case (handled m pattern ep)
    with h show thesis by (intro that) simp_all
  next
    case (refused x)
    with h assms show thesis by simp
  qed
qed

text \<open>The endpoints that can touch a blob or close a dispute.\<close>

lemma effect_keeps_blob:
  assumes "api_effect W st st'" "\<And>b. \<not> W (SetOrderBlob b)"
    and "select_order i (db_orders st) = Some r" "select_order i (db_orders st') = Some r'"
  shows "encrypted_order_blob r' = encrypted_order_blob r"
  using assms(1)
proof (cases rule: api_effect.cases)
  case (order_created q)
  then show ?thesis using assms(3,4) by (auto simp: insert_order_def insert_row_Some select_by_append)
next
  case (order_written j q w)
  then have "encrypted_order_blob (apply_order_write w r) = encrypted_order_blob r"
    using assms(2) by (cases w) (auto simp: apply_order_write_def)
  with order_written assms(3,4) show ?thesis by (auto simp: update_orders_def ord.select_cas)
qed (use assms(3,4) in simp_all)

lemma effect_keeps_dispute:
  assumes "api_effect W st st'" "\<And>b. \<not> W (ResolveDispute b)"
    and "select_order i (db_orders st) = Some r" "select_order i (db_orders st') = Some r'"
  shows "has_dispute r' = has_dispute r \<or> has_dispute r' = 1"
  using assms(1)
proof (cases rule: api_effect.cases)
  case (order_created q)
  then show ?thesis using assms(3,4) by (auto simp: insert_order_def insert_row_Some select_by_append)
next
  case (order_written j q w)
  then have "has_dispute (apply_order_write w r) = has_dispute r \<or> has_dispute (apply_order_write w r) = 1"
    using assms(2) by (cases w) (auto simp: apply_order_write_def)
  with order_written assms(3,4) show ?thesis by (auto simp: update_orders_def ord.select_cas)
qed (use assms(3,4) in simp_all)

lemma update_endpoint_signed:
  assumes "orders_wf (db_orders (api g))" "ext_pubkey_bytes req = Some pk"
    and "select_order i (db_orders (api g)) = Some r"
    and "select_order i (db_orders (api (snd (run_endpoint L C A G H query bytes Update_Order params req g)))) = Some r'"
    and "encrypted_order_blob r' \<noteq> encrypted_order_blob r"
  obtains b where "update_order_json C req bytes = Inr b"
    "check_update_signature L pk i (o_version r) (encrypted_order_blob r') b = Inr ()"
proof -
  let ?x = "authed_body C req (and_then (auth_pubkey_bytes C req) (\<lambda>pk.
         and_then (path_and_body C params (update_order_json C req bytes)) (\<lambda>(i, b). Inr (pk, i, b))))"
  show thesis
  proof (cases ?x)
    case (Inl e)
    with assms show thesis by (simp add: extracted_def)
  next
    case (Inr z)
    then obtain j b where z: "z = (pk, j, b)" and b: "update_order_json C req bytes = Inr b"
      using assms(2) by (auto simp: authed_body_def auth_pubkey_bytes_def path_and_body_def)
    let ?p = "update_order L (he_env H) pk j b (api g)"
    have api': "api (snd (run_endpoint L C A G H query bytes Update_Order params req g)) = snd ?p"
      using Inr by (simp add: extracted_def z)
    have sel: "select_order i (db_orders (snd ?p)) = Some r'" using assms(4) by (simp only: api')
    have "is_ok (fst ?p)"
    proof (rule ccontr)
      assume "\<not> is_ok (fst ?p)"
      then have "db_orders (snd ?p) = db_orders (api g)"
        using update_svc.op_error [of L "(he_env H, pk, j, b)" "api g"] by simp
      with sel assms(3,5) show False by simp
    qed
    then obtain resp where "?p = (Inr resp, snd ?p)" by (auto simp: is_ok_iff prod_eq_iff)
    from assms(1) this show thesis
    proof (rule update_order_success)
      fix oid blob q
      assume *: "update_checks L (he_env H) pk j b (api g) oid blob q"
        "select_order oid (db_orders (snd ?p)) = Some (q\<lparr>encrypted_order_blob := blob, o_version := o_version q + 1\<rparr>)"
        "\<And>k. k \<noteq> oid \<Longrightarrow> select_order k (db_orders (snd ?p)) = select_order k (db_orders (api g))"
      have "i = oid" using *(3) [of i] assms(3,5) sel by auto
      with * assms(3) sel b show thesis by (intro that [of b]) (auto simp: update_checks_def)
    qed
  qed
qed

lemma resolve_endpoint_token:
  assumes "orders_wf (db_orders (api g))" "select_order i (db_orders (api g)) = Some r"
    and "select_order i (db_orders (api (snd (run_endpoint L C A G H query bytes Resolve_Dispute params req g)))) = Some r'"
    and "has_dispute r' \<noteq> has_dispute r"
  obtains kp n j b where "resolve_dispute_json C req bytes = Inr b" "app_admin_keypair A = Some kp" "hex_decode L j = Some i"
    "token_accepted L (he_env H) kp ''dispute:resolve'' j (rd_token b) n"
proof (cases "path_and_body C params (resolve_dispute_json C req bytes)")
  case (Inl e)
  with assms show thesis by (simp add: extracted_def)
next
  case (Inr z)
  then obtain j b where z: "z = (j, b)" and b: "resolve_dispute_json C req bytes = Inr b"
    by (auto simp: path_and_body_def)
  let ?p = "resolve_dispute L A (he_env H) j b (api g)"
  have api': "api (snd (run_endpoint L C A G H query bytes Resolve_Dispute params req g)) = snd ?p"
    using Inr by (simp add: extracted_def z)
  have sel: "select_order i (db_orders (snd ?p)) = Some r'" using assms(3) by (simp only: api')
  have "is_ok (fst ?p)"
  proof (rule ccontr)
    assume "\<not> is_ok (fst ?p)"
    then have "db_orders (snd ?p) = db_orders (api g)"
      using resolve_dispute_svc.op_error [of L A "(he_env H, j, b)" "api g"] by simp
    with sel assms(2,4) show False by simp
  qed
  then obtain resp where "?p = (Inr resp, snd ?p)" by (auto simp: is_ok_iff prod_eq_iff)
  from assms(1) this show thesis
  proof (rule resolve_dispute_success)
    fix kp n oid blob q
    assume *: "app_admin_keypair A = Some kp" "token_accepted L (he_env H) kp ''dispute:resolve'' j (rd_token b) n"
      "hex_decode L j = Some oid"
      "\<And>k. k \<noteq> oid \<Longrightarrow> select_order k (db_orders (snd ?p)) = select_order k (db_orders (api g))"
    then have "i = oid" using *(4) [of i] assms(2,4) sel by auto
    with * b show thesis by (intro that) auto
  qed
qed

section \<open>The way in\<close>

lemma rate_limit_key_cong:
  "ext_pubkey req' = ext_pubkey req \<Longrightarrow> headers req' = headers req \<Longrightarrow>
     get_rate_limit_key L req' = get_rate_limit_key L req"
  by (simp only: get_rate_limit_key_def key_from_extension_def key_from_pubkey_header_def header_def header_raw_def)

text \<open>An admitted request that the limiter lets through reaches the routes.\<close>

lemma api_call_runs:
  assumes "admitted L A (ac_clock c) (ac_request c) g h"
    and "fst (rate_check R (get_rate_limit_key L (handler_request L c h), ac_now c) (rate_buckets g))"
  obtains g1 where "api g1 = api g" "challenges g1 = challenges g"
    "api_call L C A G R c g =
      (let p = security_headers_middleware (api_routes L C A G (ac_handler c) (ac_query c) (ac_body c)) (handler_request L c h) g1
       in (unify_error (pad_response (fst p)), snd p))"
proof -
  let ?inner = "security_headers_middleware (api_routes L C A G (ac_handler c) (ac_query c) (ac_body c))"
  let ?req = "(ac_request c)\<lparr>ext_pubkey := Some (hash_pubkey L (ah_pubkey h)), ext_pubkey_bytes := Some (ah_pubkey h)\<rparr>"
  let ?r = "check_replay (ah_hour h, ah_nonce h) (nonce_buckets g)"
  let ?k = "get_rate_limit_key L (handler_request L c h)"
  let ?b = "snd (rate_check R (?k, ac_now c) (rate_buckets g))"
  have key: "get_rate_limit_key L ?req = ?k"
    by (rule rate_limit_key_cong) (simp_all add: handler_request_def)
  have valid: "valid_request ?req"
    using assms(1) valid_request_cong [of ?req "ac_request c"] by (simp add: admitted_def)
  have "stateless_auth_middleware L A (ac_clock c) (rate_limit_middleware L R (ac_now c) (validation_middleware
        (tor_guard_middleware (ac_slot c) ?inner))) (ac_request c) g
      = ?inner (handler_request L c h) (g\<lparr>nonce_buckets := snd ?r, rate_buckets := ?b\<rparr>)"
    using assms valid
    by (simp add: stateless_auth_middleware_def admitted_def split_beta Let_def rate_limit_middleware_def key
        validation_middleware_def tor_guard_middleware_def) (simp add: handler_request_def)
  then show thesis
    by (intro that [of "g\<lparr>nonce_buckets := snd ?r, rate_buckets := ?b\<rparr>"])
       (simp_all add: api_call_def api_service_def build_router_eq Let_def)
qed

text \<open>The credentials a client computes, whatever headers follow them.\<close>

definition auth_header_list :: "ext \<Rightarrow> auth_headers \<Rightarrow> (string \<times> string option) list" where
  "auth_header_list L h =
     [(''x-auth-pubkey'', Some (hex_encode L (ah_pubkey h))), (''x-auth-hmac'', Some (hex_encode L (ah_hmac h))),
      (''x-auth-hour'', Some (dec (ah_hour h))), (''x-auth-nonce'', Some (hex_encode L (ah_nonce h))),
      (''x-auth-signature'', Some (hex_encode L (ah_sig h)))]"

lemma client_admitted:
  assumes "hex_ok L" "ed_ok L pub" "length (pub sk) = 32" "current_hour E \<le> u64_max"
    and "derive_auth_key L (server_secret (app_server A)) (pub sk) = Some key"
    and "compute_hmac L key (pub sk) (current_hour E) (path req) nonce = Some mac"
    and "h = \<lparr>ah_pubkey = pub sk, ah_hmac = mac, ah_hour = current_hour E, ah_nonce = nonce,
           ah_sig = ed_sign L sk (build_challenge mac (pub sk) (current_hour E) nonce)\<rparr>"
    and "headers req = auth_header_list L h @ others" "\<not> public_path (path req)" "valid_request req"
    and "nonce \<notin> bucket (current_hour E) (nonce_buckets g)"
  shows "admitted L A E req g h"
proof -
  have "read_auth_headers L req = Inr h"
    using assms(1,3,4)
    by (simp add: read_auth_headers_def header_def header_raw_def assms(7,8) auth_header_list_def parse_u64_dec)
  moreover have "check_credentials L A E (path req) h = Inr ()"
    using assms(2,5,6) by (simp add: assms(7) check_credentials_def verify_hmac_def verify_signature_def ed_ok_def Let_def)
  moreover have "fst (check_replay (ah_hour h, ah_nonce h) (nonce_buckets g))"
    using assms(11) by (simp add: assms(7) check_replay_fst)
  ultimately show ?thesis using assms(9,10) by (simp add: admitted_def)
qed

text \<open>The path of an update names its endpoint.\<close>

lemma segments_slash:
  "CHR ''/'' \<notin> set s \<Longrightarrow> segments (s @ CHR ''/'' # t) = s # segments t"
  by (induction s) (auto simp: segments_def)

lemma segments_update:
  assumes "CHR ''/'' \<notin> set i"
  shows "segments (''/orders/'' @ i @ ''/update'') = [[], ''orders'', i, ''update'']"
proof -
  have "segments (''/orders/'' @ s) = [] # ''orders'' # segments s" for s
    by (simp add: segments_def)
  moreover have "segments ''update'' = [''update'']" by (simp add: segments_def)
  ultimately show ?thesis using assms segments_slash [of i "''update''"] by simp
qed

lemma pattern_segments:
  "segments ''/public/worker-pubkey'' = [[], ''public'', ''worker-pubkey'']"
  "segments ''/auth/challenge'' = [[], ''auth'', ''challenge'']"
  "segments ''/auth/verify'' = [[], ''auth'', ''verify'']"
  "segments ''/listings'' = [[], ''listings'']"
  "segments ''/listings/:id'' = [[], ''listings'', '':id'']"
  "segments ''/listings/:id/update'' = [[], ''listings'', '':id'', ''update'']"
  "segments ''/orders'' = [[], ''orders'']"
  "segments ''/orders/:id'' = [[], ''orders'', '':id'']"
  "segments ''/orders/:id/update'' = [[], ''orders'', '':id'', ''update'']"
  "segments ''/chat/:order_id'' = [[], ''chat'', '':order_id'']"
  "segments ''/admin/blind-sign'' = [[], ''admin'', ''blind-sign'']"
  "segments ''/admin/pubkey'' = [[], ''admin'', ''pubkey'']"
  "segments ''/admin/rotate-kek'' = [[], ''admin'', ''rotate-kek'']"
  "segments ''/disputes'' = [[], ''disputes'']"
  "segments ''/disputes/:id'' = [[], ''disputes'', '':id'']"
  "segments ''/disputes/:id/update'' = [[], ''disputes'', '':id'', ''update'']"
  "segments ''/disputes/:id/resolve'' = [[], ''disputes'', '':id'', ''resolve'']"
  "segments ''/ws/payments/:order_id'' = [[], ''ws'', ''payments'', '':order_id'']"
  by code_simp+

lemma routes_by_segments:
  assumes "routes_ok C"
  obtains e where "\<forall>p. routes_for C p = filter (\<lambda>(_, pattern, _). match_segments e (segments pattern) (segments p) \<noteq> None) all_routes"
    "\<forall>m pattern ep p. (m, pattern, ep) \<in> set all_routes \<longrightarrow> match_route C pattern p = match_segments e (segments pattern) (segments p)"
proof -
  obtain e where e: "\<forall>m pattern ep p. (m, pattern, ep) \<in> set all_routes \<longrightarrow>
      match_route C pattern p = match_segments e (segments pattern) (segments p)"
    using assms unfolding routes_ok_def by blast
  have "routes_for C p = filter (\<lambda>(_, pattern, _). match_segments e (segments pattern) (segments p) \<noteq> None) all_routes" for p
    unfolding routes_for_def
  proof (rule filter_cong [OF refl])
    fix r assume "r \<in> set all_routes"
    with e show "(case r of (_, pattern, _) \<Rightarrow> match_route C pattern p \<noteq> None)
        = (case r of (_, pattern, _) \<Rightarrow> match_segments e (segments pattern) (segments p) \<noteq> None)"
      by (cases r) (simp only: prod.case)
  qed
  then show thesis using e by (intro that) (rule allI, assumption)
qed

lemma routes_for_update:
  assumes "segments p = [[], ''orders'', i, ''update'']" "i \<noteq> []" "routes_ok C"
  shows "routes_for C p = [(''POST'', ''/orders/:id/update'', Update_Order)]"
    "match_route C ''/orders/:id/update'' p = Some [i]"
proof -
  obtain e where e: "\<forall>p. routes_for C p = filter (\<lambda>(_, pattern, _). match_segments e (segments pattern) (segments p) \<noteq> None) all_routes"
    "\<forall>m pattern ep p. (m, pattern, ep) \<in> set all_routes \<longrightarrow> match_route C pattern p = match_segments e (segments pattern) (segments p)"
    using assms(3) by (rule routes_by_segments)
  from assms(1,2) show "routes_for C p = [(''POST'', ''/orders/:id/update'', Update_Order)]"
    by (simp add: e(1) [rule_format] route_tables pattern_segments starts_with_def)
  have "(''POST'', ''/orders/:id/update'', Update_Order) \<in> set all_routes" by (simp add: route_tables)
  from e(2) [rule_format, OF this] assms(1,2) show "match_route C ''/orders/:id/update'' p = Some [i]"
    by (simp add: pattern_segments starts_with_def)
qed

text \<open>The collection of orders takes a new one by POST and nothing else.\<close>

lemma routes_for_create:
  assumes "routes_ok C"
  shows "routes_for C ''/orders'' = [(''POST'', ''/orders'', Create_Order)]"
proof -
  obtain e where "\<forall>p. routes_for C p = filter (\<lambda>(_, pattern, _). match_segments e (segments pattern) (segments p) \<noteq> None) all_routes"
    using assms by (rule routes_by_segments)
  then have "routes_for C ''/orders'' = filter (\<lambda>(_, pattern, _). match_segments e (segments pattern) (segments ''/orders'') \<noteq> None) all_routes"
    by (rule spec)
  then show ?thesis by (simp add: route_tables pattern_segments starts_with_def)
qed

lemma client_update_through:
  assumes "routes_ok C" "hex_ok L" "b64_ok L" "ed_ok L pub" "cbor_ok L" "length (sha256 L blob) = 32"
    and "length sk = 32" "length (pub sk) = 32" "current_hour (ac_clock c) \<le> u64_max"
    and "derive_auth_key L (server_secret (app_server A)) (pub sk) = Some key"
    and "compute_hmac L key (pub sk) (current_hour (ac_clock c)) (path (ac_request c)) nonce = Some mac"
    and "h = \<lparr>ah_pubkey = pub sk, ah_hmac = mac, ah_hour = current_hour (ac_clock c), ah_nonce = nonce,
           ah_sig = ed_sign L sk (build_challenge mac (pub sk) (current_hour (ac_clock c)) nonce)\<rparr>"
    and "http_method (ac_request c) = ''POST''" "path (ac_request c) = ''/orders/'' @ i @ ''/update''"
    and "headers (ac_request c) = auth_header_list L h @ others" "valid_request (ac_request c)"
    and "i = hex_encode L oid" "i \<noteq> []" "CHR ''/'' \<notin> set i" "percent_decode C i = Inr i"
    and "nonce \<notin> bucket (current_hour (ac_clock c)) (nonce_buckets g)"
    and "fst (rate_check R (get_rate_limit_key L (handler_request L c h), ac_now c) (rate_buckets g))"
    and "orders_wf (db_orders (api g))" "no_faults (he_env (ac_handler c))" "select_order oid (db_orders (api g)) = Some r"
    and "0 < length blob" "length blob \<le> 262144"
    and "wasm_sign_transition L sk oid (o_version r) (sha256 L blob) tnonce thour = Inr sig"
    and "colon_key i (hex_encode L tnonce) \<notin> order_update_nonces (api g)"
    and "update_order_json C (handler_request L c h) (ac_body c) =
           Inr \<lparr>uo_blob = b64_encode L blob, uo_signature = hex_encode L sig, uo_nonce = hex_encode L tnonce, uo_hour_bucket = thour\<rparr>"
  shows "\<exists>resp g'. api_call L C A G R c g = (resp, g') \<and> status resp = 200
     \<and> select_order oid (db_orders (api g')) = Some (r\<lparr>encrypted_order_blob := blob, o_version := o_version r + 1\<rparr>)"
proof -
  let ?req = "handler_request L c h" and ?E = "he_env (ac_handler c)"
  let ?b = "\<lparr>uo_blob = b64_encode L blob, uo_signature = hex_encode L sig, uo_nonce = hex_encode L tnonce, uo_hour_bucket = thour\<rparr>"
  have path: "path ?req = ''/orders/'' @ i @ ''/update''" "http_method ?req = ''POST''"
    using assms(13,14) by (simp_all add: handler_request_def)
  have "\<not> public_path (path (ac_request c))" by (simp add: assms(14) public_path_def starts_with_def)
  with assms have adm: "admitted L A (ac_clock c) (ac_request c) g h" by (intro client_admitted)
  from adm assms(22) obtain g1 where g1: "api g1 = api g"
    and run: "api_call L C A G R c g =
      (let p = security_headers_middleware (api_routes L C A G (ac_handler c) (ac_query c) (ac_body c)) ?req g1
       in (unify_error (pad_response (fst p)), snd p))"
    by (rule api_call_runs)
  let ?u = "update_order L ?E (pub sk) i ?b (api g)"
  have "is_ok (fst ?u)"
    unfolding assms(17) using assms by (intro client_update_accepted) simp_all
  then obtain resp where u: "?u = (Inr resp, snd ?u)" and fst_u: "fst ?u = Inr resp"
    by (auto simp: is_ok_iff prod_eq_iff)
  have routes: "api_routes L C A G (ac_handler c) (ac_query c) (ac_body c) ?req g1 =
      (respond C Order_Answer (Inr resp), g1\<lparr>api := snd ?u\<rparr>)"
  proof -
    have "segments (path ?req) = [[], ''orders'', i, ''update'']"
      unfolding path(1) using assms(19) by (rule segments_update)
    note at = routes_for_update [OF this assms(18,1)]
    have "ext_pubkey ?req = Some (hash_pubkey L (pub sk))" "ext_pubkey_bytes ?req = Some (pub sk)"
      by (simp_all add: handler_request_def assms(12))
    then have "run_endpoint L C A G (ac_handler c) (ac_query c) (ac_body c) Update_Order [i] ?req g1 =
        (respond C Order_Answer (Inr resp), g1\<lparr>api := snd ?u\<rparr>)"
      using assms(20,30) fst_u g1
      by (simp add: authed_body_def auth_pubkey_def auth_pubkey_bytes_def path_and_body_def path_param_def extracted_def
          writing_def split_beta Let_def)
    then show ?thesis
      unfolding api_routes_def path(2) at(1) by (simp add: serves_def strip_body_def at(2))
  qed
  have st: "status (fst (api_call L C A G R c g)) = 200" "api (snd (api_call L C A G R c g)) = snd ?u"
    unfolding run by (simp_all add: Let_def routes respond_def unify_error_def is_client_error_def)
  from assms(23) u have "select_order oid (db_orders (snd ?u)) = Some (r\<lparr>encrypted_order_blob := blob, o_version := o_version r + 1\<rparr>)"
  proof (rule update_order_success)
    fix o' b' q
    assume *: "update_checks L ?E (pub sk) i ?b (api g) o' b' q"
      "select_order o' (db_orders (snd ?u)) = Some (q\<lparr>encrypted_order_blob := b', o_version := o_version q + 1\<rparr>)"
    have "hex_decode L i = Some oid" "b64_decode L (b64_encode L blob) = Inr blob"
      using assms(2,3,17) by (simp_all add: hex_ok_def b64_ok_def)
    with * assms(25) show ?thesis by (auto simp: update_checks_def check_order_blob_Inr)
  qed
  with st show ?thesis by (intro exI [of _ "fst (api_call L C A G R c g)"] exI [of _ "snd (api_call L C A G R c g)"]) simp
qed

section \<open>An instance\<close>

text \<open>A decoder that knows one body, and the call of a client that updates order 1.\<close>

definition sample_codecs :: codecs where
  "sample_codecs = \<lparr>match_route = (\<lambda>pattern p. match_segments (\<lambda>_. False) (segments pattern) (segments p)), percent_decode = Inr, search_query = (\<lambda>_. Inl error_response),
     challenge_json = (\<lambda>_ _. Inl error_response), verify_json = (\<lambda>_ _. Inl error_response),
     create_listing_json = (\<lambda>_ _. Inl error_response), update_listing_json = (\<lambda>_ _. Inl error_response),
     create_order_json = (\<lambda>_ _. Inl error_response),
     update_order_json = (\<lambda>_ _. Inr \<lparr>uo_blob = b64_encode demo_ext [7], uo_signature = demo_hex (replicate 64 9),
        uo_nonce = demo_hex [3], uo_hour_bucket = 13\<rparr>),
     send_message_json = (\<lambda>_ _. Inl error_response), blind_sign_json = (\<lambda>_ _. Inl error_response),
     rotate_kek_json = (\<lambda>_ _. Inl error_response), open_dispute_json = (\<lambda>_ _. Inl error_response),
     update_dispute_json = (\<lambda>_ _. Inl error_response), resolve_dispute_json = (\<lambda>_ _. Inl error_response),
     upgrade = (\<lambda>_. Inl error_response), missing_extension = error_response, missing_params = error_response,
     wrong_method = error_response, text_answer = (\<lambda>_. error_response), encode = (\<lambda>_. [])\<rparr>"

definition sample_credentials :: auth_headers where
  "sample_credentials = \<lparr>ah_pubkey = replicate 32 0, ah_hmac = replicate 32 90, ah_hour = 10, ah_nonce = [3],
     ah_sig = replicate 64 9\<rparr>"

definition sample_call :: api_call where
  "sample_call = \<lparr>ac_clock = plain_env, ac_now = 0, ac_slot = 0,
     ac_handler = \<lparr>he_env = plain_env, he_challenge = [], he_challenge_id = [], he_new_kek = [], he_kek_written = True,
       he_outside = \<lparr>env_var = (\<lambda>_. None), file_exists = (\<lambda>_. False), read_file = Inl, toml_parse = Inl\<rparr>\<rparr>,
     ac_query = [], ac_body = [],
     ac_request = \<lparr>http_method = ''POST'', path = ''/orders/'' @ ''01'' @ ''/update'',
       headers = auth_header_list demo_ext sample_credentials @ [(''content-type'', Some ''application/json'')],
       ext_pubkey = None, ext_pubkey_bytes = None, ext_circuit = None\<rparr>\<rparr>"

definition sample_gateway :: gateway where
  "sample_gateway = empty_gateway\<lparr>api := sample_state\<rparr>"

lemma length_demo_hex: "length (demo_hex b) = 2 * length b"
  by (induction b) (simp_all add: demo_hex_def)

lemma sample_call_valid: "valid_request (ac_request sample_call)"
  by (simp add: valid_request_def sample_call_def header_def header_raw_def auth_header_list_def sample_credentials_def
      demo_ext_sel length_demo_hex dec_10 max_request_size_def max_path_length_def max_header_count_def
      max_header_value_length_def starts_with_def)

lemma sample_facts:
  "routes_ok sample_codecs" "hex_ok demo_ext" "b64_ok demo_ext" "ed_ok demo_ext (\<lambda>_. replicate 32 0)" "cbor_ok demo_ext" "length (sha256 demo_ext [7]) = 32"
  "length (replicate 32 (0 :: byte)) = 32" "length ((\<lambda>_. replicate 32 (0 :: byte)) (replicate 32 (0 :: byte))) = 32" "current_hour (ac_clock sample_call) \<le> u64_max"
  "derive_auth_key demo_ext (server_secret (app_server plain_app)) ((\<lambda>_. replicate 32 0) (replicate 32 (0 :: byte))) = Some (replicate 32 54)"
  "compute_hmac demo_ext (replicate 32 54) ((\<lambda>_. replicate 32 0) (replicate 32 (0 :: byte))) (current_hour (ac_clock sample_call)) (path (ac_request sample_call)) [3]
     = Some (replicate 32 90)"
  "sample_credentials = \<lparr>ah_pubkey = (\<lambda>_. replicate 32 0) (replicate 32 (0 :: byte)), ah_hmac = replicate 32 90, ah_hour = current_hour (ac_clock sample_call), ah_nonce = [3],
     ah_sig = ed_sign demo_ext (replicate 32 0) (build_challenge (replicate 32 90) ((\<lambda>_. replicate 32 0) (replicate 32 (0 :: byte))) (current_hour (ac_clock sample_call)) [3])\<rparr>"
  "http_method (ac_request sample_call) = ''POST''" "path (ac_request sample_call) = ''/orders/'' @ ''01'' @ ''/update''"
  "headers (ac_request sample_call) = auth_header_list demo_ext sample_credentials @ [(''content-type'', Some ''application/json'')]"
  "valid_request (ac_request sample_call)" "''01'' = hex_encode demo_ext [1]" "''01'' \<noteq> []" "CHR ''/'' \<notin> set ''01''"
  "percent_decode sample_codecs ''01'' = Inr ''01''" "[3] \<notin> bucket (current_hour (ac_clock sample_call)) (nonce_buckets sample_gateway)"
  "fst (rate_check R (get_rate_limit_key demo_ext (handler_request demo_ext sample_call sample_credentials), ac_now sample_call) (rate_buckets sample_gateway))"
  "orders_wf (db_orders (api sample_gateway))" "no_faults (he_env (ac_handler sample_call))"
  "select_order [1] (db_orders (api sample_gateway)) = Some sample_order"
  "0 < length [7 :: byte]" "length [7 :: byte] \<le> 262144"
  "wasm_sign_transition demo_ext (replicate 32 0) [1] (o_version sample_order) (sha256 demo_ext [7]) [3] 13 = Inr (replicate 64 9)"
  "colon_key ''01'' (hex_encode demo_ext [3]) \<notin> order_update_nonces (api sample_gateway)"
  "update_order_json sample_codecs (handler_request demo_ext sample_call sample_credentials) (ac_body sample_call) =
     Inr \<lparr>uo_blob = b64_encode demo_ext [7], uo_signature = hex_encode demo_ext (replicate 64 9), uo_nonce = hex_encode demo_ext [3], uo_hour_bucket = 13\<rparr>"
proof -
  have h: "current_hour (ac_clock sample_call) = 10"
    by (simp add: sample_call_def current_hour_def plain_env_def trunc_div_def i64_as_u64_def)
  then show "current_hour (ac_clock sample_call) \<le> u64_max" by (simp add: u64_max_def)
  show "routes_ok sample_codecs" by (auto simp: routes_ok_def sample_codecs_def)
  show "derive_auth_key demo_ext (server_secret (app_server plain_app)) ((\<lambda>_. replicate 32 0) (replicate 32 (0 :: byte))) = Some (replicate 32 54)"
    by (simp add: derive_auth_key_def demo_ext_sel plain_app_def default_server_config_def)
  show "compute_hmac demo_ext (replicate 32 54) ((\<lambda>_. replicate 32 0) (replicate 32 (0 :: byte))) (current_hour (ac_clock sample_call)) (path (ac_request sample_call)) [3]
     = Some (replicate 32 90)"
    by (simp add: h compute_hmac_def demo_ext_sel sample_call_def)
  show "sample_credentials = \<lparr>ah_pubkey = (\<lambda>_. replicate 32 0) (replicate 32 (0 :: byte)), ah_hmac = replicate 32 90, ah_hour = current_hour (ac_clock sample_call), ah_nonce = [3],
     ah_sig = ed_sign demo_ext (replicate 32 0) (build_challenge (replicate 32 90) ((\<lambda>_. replicate 32 0) (replicate 32 (0 :: byte))) (current_hour (ac_clock sample_call)) [3])\<rparr>"
    by (simp add: h sample_credentials_def demo_ext_sel)
  show "valid_request (ac_request sample_call)" by (rule sample_call_valid)
  show "''01'' = hex_encode demo_ext [1]" by (simp add: demo_ext_sel) code_simp
  show "wasm_sign_transition demo_ext (replicate 32 0) [1] (o_version sample_order) (sha256 demo_ext [7]) [3] 13 = Inr (replicate 64 9)"
    by (simp add: wasm_sign_transition_def wasm_transition_to_cbor_def demo_ext_def)
  show "fst (rate_check R (get_rate_limit_key demo_ext (handler_request demo_ext sample_call sample_credentials), ac_now sample_call) (rate_buckets sample_gateway))"
    by (simp add: rate_check_def sample_gateway_def empty_gateway_def)
qed (simp_all add: demo_hex_ok demo_b64_ok demo_ed_ok demo_cbor_ok sample_call_def sample_codecs_def sample_gateway_def empty_gateway_def
    sample_state_def empty_api_def plain_env_def no_faults_def bucket_def sample_wf [unfolded sample_state_def] select_by_def
    sample_order_def new_order_row_def demo_ext_sel orders_wf_def)

lemma sample_run:
  obtains resp g' where "api_call demo_ext sample_codecs plain_app G R sample_call sample_gateway = (resp, g')" "status resp = 200"
    "select_order [1] (db_orders (api g')) = Some (sample_order\<lparr>encrypted_order_blob := [7], o_version := 2\<rparr>)"
proof -
  have "\<exists>resp g'. api_call demo_ext sample_codecs plain_app G R sample_call sample_gateway = (resp, g') \<and> status resp = 200
      \<and> select_order [1] (db_orders (api g')) = Some (sample_order\<lparr>encrypted_order_blob := [7], o_version := o_version sample_order + 1\<rparr>)"
    by (rule client_update_through [OF sample_facts])
  with that show thesis by (auto simp: sample_order_def new_order_row_def)
qed

lemma sample_database: "database_ok (api sample_gateway)"
  by (simp add: database_ok_def sample_gateway_def sample_state_def empty_api_def orders_wf_def listings_wf_def sample_order_def
      new_order_row_def order_row_ok_def at_most_def bucketed_def max_order_blob_bytes_def)

section \<open>No request misses an extension\<close>

text \<open>Two services that agree on the requests the authentication lets through.\<close>

definition let_through :: "http_request \<Rightarrow> bool" where
  "let_through req \<longleftrightarrow> public_path (path req) \<or> (ext_pubkey req \<noteq> None \<and> ext_pubkey_bytes req \<noteq> None)"

definition agree :: "service \<Rightarrow> service \<Rightarrow> bool" where
  "agree s s' \<longleftrightarrow> (\<forall>req g. let_through req \<longrightarrow> s req g = s' req g)"

lemma agree_tor: "agree s s' \<Longrightarrow> agree (tor_guard_middleware slot s) (tor_guard_middleware slot s')"
  by (simp add: agree_def tor_guard_middleware_def let_through_def)

lemma agree_security: "agree s s' \<Longrightarrow> agree (security_headers_middleware s) (security_headers_middleware s')"
  by (simp add: agree_def security_headers_middleware_def)

lemma agree_validation: "agree s s' \<Longrightarrow> agree (validation_middleware s) (validation_middleware s')"
  by (simp add: agree_def validation_middleware_def)

lemma agree_rate: "agree s s' \<Longrightarrow> agree (rate_limit_middleware L R now s) (rate_limit_middleware L R now s')"
  by (simp add: agree_def rate_limit_middleware_def split_beta Let_def)

lemma agree_auth:
  "agree s s' \<Longrightarrow> stateless_auth_middleware L A E s = stateless_auth_middleware L A E s'"
  unfolding stateless_auth_middleware_def agree_def let_through_def
  by (intro ext) (simp add: split_beta Let_def split: sum.split)

lemma agree_router: "agree s s' \<Longrightarrow> build_router L A R E now slot s = build_router L A R E now slot s'"
  unfolding build_router_def
  by (intro arg_cong [where f = error_unifier_middleware] arg_cong [where f = response_padding_middleware]
      agree_auth agree_rate agree_validation agree_tor agree_security)

lemma match_segments_length:
  "match_segments e ps ss = Some cs \<Longrightarrow> length cs = length (filter (starts_with '':'') ps)"
  by (induction e ps ss arbitrary: cs rule: match_segments.induct) (auto split: if_splits)

definition takes_path :: "endpoint \<Rightarrow> bool" where
  "takes_path ep \<longleftrightarrow> ep \<in> {Get_Listing, Update_Listing, Get_Order, Update_Order, Get_Chat, Update_Chat, Get_Dispute,
     Update_Dispute, Resolve_Dispute, Ws_Payments}"

lemma routes_params:
  assumes "(m, pattern, ep) \<in> set (routes_for C p)" "takes_path ep" "routes_ok C"
  shows "unwrap_or (match_route C pattern p) [] \<noteq> []"
proof -
  have mem: "(m, pattern, ep) \<in> set all_routes" using assms(1) by (simp add: routes_for_iff)
  obtain e where e: "\<forall>m pattern ep p. (m, pattern, ep) \<in> set all_routes \<longrightarrow>
      match_route C pattern p = match_segments e (segments pattern) (segments p)"
    using assms(3) unfolding routes_ok_def by blast
  obtain cs where cs: "match_segments e (segments pattern) (segments p) = Some cs" "match_route C pattern p = Some cs"
    using assms(1) e [rule_format, OF mem, of p] by (auto simp: routes_for_iff)
  have "filter (starts_with '':'') (segments pattern) \<noteq> []"
    using assms by (auto simp: routes_for_iff route_tables takes_path_def pattern_segments starts_with_def)
  with match_segments_length [OF cs(1)] show ?thesis by (auto simp: cs(2))
qed

lemma run_endpoint_extensions:
  assumes "ep \<in> {Worker_Pubkey, Challenge, Verify} \<or> (ext_pubkey req \<noteq> None \<and> ext_pubkey_bytes req \<noteq> None)"
    and "takes_path ep \<Longrightarrow> params \<noteq> []"
  shows "run_endpoint L (C\<lparr>missing_extension := x, missing_params := y\<rparr>) A G H query bytes ep params req =
    run_endpoint L C A G H query bytes ep params req"
  using assms
  by (intro ext; cases ep; cases params)
     (auto simp: authed_path_def authed_body_def auth_pubkey_def auth_pubkey_bytes_def path_and_body_def path_param_def
       extracted_def reading_def writing_def on_challenges_def respond_def takes_path_def split_beta Let_def
       split: sum.split)

lemma routes_for_extensions:
  "routes_for (C\<lparr>missing_extension := x, missing_params := y\<rparr>) p = routes_for C p"
  "match_route (C\<lparr>missing_extension := x, missing_params := y\<rparr>) q p = match_route C q p"
  by (simp_all add: routes_for_def)

lemma api_routes_extensions:
  assumes "routes_ok C"
  shows "agree (api_routes L (C\<lparr>missing_extension := x, missing_params := y\<rparr>) A G H query bytes) (api_routes L C A G H query bytes)"
  unfolding agree_def
proof (intro allI impI)
  fix req g assume thr: "let_through req"
  show "api_routes L (C\<lparr>missing_extension := x, missing_params := y\<rparr>) A G H query bytes req g = api_routes L C A G H query bytes req g"
  proof (cases "find (serves (http_method req)) (routes_for C (path req))")
    case None
    then show ?thesis by (simp add: api_routes_def routes_for_extensions)
  next
    case (Some r)
    obtain m pattern ep where r: "r = (m, pattern, ep)" by (cases r)
    have mem: "(m, pattern, ep) \<in> set (routes_for C (path req))" using Some r by (auto simp: find_Some_iff)
    have "ep \<in> {Worker_Pubkey, Challenge, Verify} \<or> (ext_pubkey req \<noteq> None \<and> ext_pubkey_bytes req \<noteq> None)"
      using thr public_endpoints [OF assms _ mem] by (auto simp: let_through_def)
    from run_endpoint_extensions [OF this routes_params [OF mem _ assms]] Some r show ?thesis
      by (simp add: api_routes_def routes_for_extensions)
  qed
qed

section \<open>At most one handler\<close>

text \<open>Patterns that some path could match both.\<close>

fun overlap :: "string list \<Rightarrow> string list \<Rightarrow> bool" where
  "overlap [] [] = True"
| "overlap (p # ps) (q # qs) = ((p = q \<or> starts_with '':'' p \<or> starts_with '':'' q) \<and> overlap ps qs)"
| "overlap _ _ = False"

lemma match_overlap:
  "match_segments e ps ss \<noteq> None \<Longrightarrow> match_segments e' qs ss \<noteq> None \<Longrightarrow> overlap ps qs"
proof (induction e ps ss arbitrary: qs rule: match_segments.induct)
  case (2 e p ps s ss)
  then show ?case by (cases qs) (auto split: if_splits)
next
  case (1 e)
  then show ?case by (cases qs) auto
qed auto

definition apart :: "route \<Rightarrow> route \<Rightarrow> bool" where
  "apart r r' \<longleftrightarrow> fst r \<noteq> fst r' \<or> \<not> overlap (segments (fst (snd r))) (segments (fst (snd r')))"

lemma rows_apart:
  assumes "rs = all_routes"
  shows "list_all (\<lambda>r. list_all (\<lambda>r'. apart r r' \<or> r' = r) rs) all_routes"
  unfolding route_tables append.simps list.pred_inject
  by (intro conjI TrueI; unfold assms; simp add: apart_def route_tables pattern_segments starts_with_def)

lemma distinct_routes: "distinct all_routes"
proof -
  have "distinct (map (\<lambda>(m, pattern, ep). ep) all_routes)" by (simp add: route_tables)
  then show ?thesis by (simp only: distinct_map)
qed

lemma served_twice:
  assumes "r \<in> set (routes_for C p)" "r' \<in> set (routes_for C p)" "serves m r" "serves m r'" "routes_ok C"
  shows "r' = r"
proof -
  have mem: "r \<in> set all_routes" "r' \<in> set all_routes" and "match_route C (fst (snd r)) p \<noteq> None" "match_route C (fst (snd r')) p \<noteq> None"
    using assms(1,2) by (auto simp: routes_for_def split_beta)
  obtain e where e: "\<forall>m pattern ep p. (m, pattern, ep) \<in> set all_routes \<longrightarrow>
      match_route C pattern p = match_segments e (segments pattern) (segments p)"
    using assms(5) unfolding routes_ok_def by blast
  have "overlap (segments (fst (snd r))) (segments (fst (snd r')))"
    using mem \<open>match_route C (fst (snd r)) p \<noteq> None\<close> \<open>match_route C (fst (snd r')) p \<noteq> None\<close> e [rule_format, of "fst r" "fst (snd r)" "snd (snd r)"]
      e [rule_format, of "fst r'" "fst (snd r')" "snd (snd r')"] by (intro match_overlap [of e _ "segments p" e]) simp_all
  moreover have "list_all (\<lambda>r. fst r = ''GET'' \<or> fst r = ''POST'') all_routes" by (simp add: route_tables)
  then have "fst r = ''GET'' \<or> fst r = ''POST''" "fst r' = ''GET'' \<or> fst r' = ''POST''"
    using mem unfolding list_all_iff by blast+
  then have "fst r = fst r'" using assms(3,4) by (auto simp: serves_def)
  moreover have "apart r r' \<or> r' = r" using rows_apart [OF refl, unfolded list_all_iff] mem by blast
  ultimately show ?thesis by (simp add: apart_def)
qed

lemma length_le_1I:
  assumes "distinct xs" "\<And>x y. x \<in> set xs \<Longrightarrow> y \<in> set xs \<Longrightarrow> y = x"
  shows "length xs \<le> 1"
proof (cases xs)
  case (Cons x ys)
  have "ys = []"
  proof (cases ys)
    case (Cons y zs)
    then have "y = x" using assms(2) [of x y] \<open>xs = x # ys\<close> by simp
    with Cons assms(1) \<open>xs = x # ys\<close> show ?thesis by simp
  qed
  with Cons show ?thesis by simp
qed simp

lemma served_once: "routes_ok C \<Longrightarrow> length (filter (serves m) (routes_for C p)) \<le> 1"
proof (rule length_le_1I)
  assume ok: "routes_ok C"
  show "distinct (filter (serves m) (routes_for C p))" using distinct_routes by (simp add: routes_for_def)
  show "r' = r" if "r \<in> set (filter (serves m) (routes_for C p))" "r' \<in> set (filter (serves m) (routes_for C p))" for r r'
    using that ok served_twice [of r C p r' m] by (simp only: set_filter mem_Collect_eq)
qed

lemma if_trueI: "(P \<Longrightarrow> Q) \<Longrightarrow> (if P then Q else True)"
  by simp

section \<open>Properties\<close>

text \<open>
  C4. Every row the API ever stores is well formed: starting from a database whose rows are, for example the empty one, after
  any requests in any order every order and listing has a unique id, blobs within the handlers' limits, labels of 1 to 32
  ASCII characters, times that are multiples of six hours, a positive version, and a dispute flag of 0 or 1 which stands
  only on a row with a dispute blob.
\<close>

theorem stored_rows_well_formed:
  assumes "database_ok (api g)"
  shows "database_ok (api (snd (run_ops (api_call L C A G R) cs g)))"
  using assms by (rule database_run_ok)

text \<open>
  C7. One request, one row: whatever a request is, it changes at most one row of one table; an order that changes is new with
  version 1, or keeps its day and expiry and has its version raised by one; a listing likewise keeps its day.
\<close>

theorem one_row_per_request:
  assumes "api_call L C A G R c g = (resp, g')"
  shows "\<exists>i. one_row o_id o_version (\<lambda>r. (o_day_bucket r, expiry_bucket r)) i (db_orders (api g)) (db_orders (api g'))
     \<and> one_row l_id l_version l_day_bucket i (db_listings (api g)) (db_listings (api g'))
     \<and> (db_orders (api g') = db_orders (api g) \<or> db_listings (api g') = db_listings (api g))"
proof -
  have "api_effect order_write_ok (api g) (api g')"
    using api_call_effect [of g L C A G R c] assms by simp
  then show ?thesis
  proof (cases rule: api_effect.cases)
    case (order_created r)
    then show ?thesis using one_row_insert [of o_id r "db_orders (api g)" "db_orders (api g')" o_version]
      by (auto simp: insert_order_def)
  next
    case (order_written i r w)
    have "(o_day_bucket (apply_order_write w q), expiry_bucket (apply_order_write w q)) = (o_day_bucket q, expiry_bucket q)" for q
      using order_written(2) by (cases w) (simp_all add: apply_order_write_def)
    from ord.one_row_cas [where kept = "\<lambda>r. (o_day_bucket r, expiry_bucket r)", OF this] order_written show ?thesis
      by (auto simp: update_orders_def)
  next
    case (listing_created l)
    then show ?thesis using one_row_insert [of l_id l "db_listings (api g)" "db_listings (api g')" l_version]
      by (auto simp: insert_listing_def)
  next
    case (listing_written i l lw)
    have "l_day_bucket (apply_listing_write lw q) = l_day_bucket q" for q
      by (cases lw) (simp_all add: apply_listing_write_def)
    from lst.one_row_cas [where kept = l_day_bucket, OF this] listing_written show ?thesis
      by (auto simp: update_listings_def)
  qed simp
qed


text \<open>
  C3. The way of a client's update through the whole server: a client that holds its secret key and the key its login
  returned, signs the transition as the WASM module does and sends the update with the credentials and
  a fresh nonce for the current hour, is answered with status 200, and the order's row then holds its
  blob under the next version, provided the limiter lets it through, the headers are within the
  limits and the database answers.
\<close>

theorem client_update_served:
  assumes "routes_ok C" "hex_ok L" "b64_ok L" "ed_ok L pub" "cbor_ok L" "length (sha256 L blob) = 32"
    and "length sk = 32" "length (pub sk) = 32" "current_hour (ac_clock c) \<le> u64_max"
    and "derive_auth_key L (server_secret (app_server A)) (pub sk) = Some key"
    and "compute_hmac L key (pub sk) (current_hour (ac_clock c)) (path (ac_request c)) nonce = Some mac"
    and "h = \<lparr>ah_pubkey = pub sk, ah_hmac = mac, ah_hour = current_hour (ac_clock c), ah_nonce = nonce,
           ah_sig = ed_sign L sk (build_challenge mac (pub sk) (current_hour (ac_clock c)) nonce)\<rparr>"
    and "http_method (ac_request c) = ''POST''" "path (ac_request c) = ''/orders/'' @ i @ ''/update''"
    and "headers (ac_request c) = auth_header_list L h @ others" "valid_request (ac_request c)"
    and "i = hex_encode L oid" "i \<noteq> []" "CHR ''/'' \<notin> set i" "percent_decode C i = Inr i"
    and "nonce \<notin> bucket (current_hour (ac_clock c)) (nonce_buckets g)"
    and "fst (rate_check R (get_rate_limit_key L (handler_request L c h), ac_now c) (rate_buckets g))"
    and "orders_wf (db_orders (api g))" "no_faults (he_env (ac_handler c))" "select_order oid (db_orders (api g)) = Some r"
    and "0 < length blob" "length blob \<le> 262144"
    and "wasm_sign_transition L sk oid (o_version r) (sha256 L blob) tnonce thour = Inr sig"
    and "colon_key i (hex_encode L tnonce) \<notin> order_update_nonces (api g)"
    and "update_order_json C (handler_request L c h) (ac_body c) =
           Inr \<lparr>uo_blob = b64_encode L blob, uo_signature = hex_encode L sig, uo_nonce = hex_encode L tnonce, uo_hour_bucket = thour\<rparr>"
  shows "\<exists>resp g'. api_call L C A G R c g = (resp, g') \<and> status resp = 200
     \<and> select_order oid (db_orders (api g')) = Some (r\<lparr>encrypted_order_blob := blob, o_version := o_version r + 1\<rparr>)"
  using assms by (rule client_update_through)

lemma client_update_served_witness:
  "\<exists>resp g'. api_call demo_ext sample_codecs plain_app default_config (rate_limiter_new 60 60) sample_call sample_gateway = (resp, g')
     \<and> status resp = 200
     \<and> select_order [1] (db_orders (api g')) = Some (sample_order\<lparr>encrypted_order_blob := [7], o_version := o_version sample_order + 1\<rparr>)"
  by (rule client_update_served [OF sample_facts])

text \<open>
  C8. The routes are unambiguous and every handler finds what it names: for any method and path at most one handler is
  responsible, and no request that comes through the layers is ever refused because the extension of
  the authentication or a path parameter is missing, whatever those two refusals would answer.
\<close>

theorem dispatch_sound:
  assumes "routes_ok C"
  shows "length (filter (serves m) (routes_for C p)) \<le> 1
   \<and> api_call L (C\<lparr>missing_extension := x, missing_params := y\<rparr>) A G R c = api_call L C A G R c"
proof
  show "api_call L (C\<lparr>missing_extension := x, missing_params := y\<rparr>) A G R c = api_call L C A G R c"
    by (simp only: api_call_def api_service_def agree_router [OF api_routes_extensions [OF assms]])
qed (rule served_once [OF assms])

lemma dispatch_sound_witness:
  "length (filter (serves ''GET'') (routes_for sample_codecs ''/orders/01'')) \<le> 1"
  using dispatch_sound [OF sample_facts(1)] by blast

lemma stored_rows_well_formed_witness:
  "database_ok (api (snd (run_ops (api_call demo_ext sample_codecs plain_app default_config (rate_limiter_new 60 60))
      [sample_call, sample_call] sample_gateway)))"
  using stored_rows_well_formed [OF sample_database] .

lemma one_row_per_request_witness:
  "let g' = snd (api_call demo_ext sample_codecs plain_app default_config (rate_limiter_new 60 60) sample_call sample_gateway) in
     select_order [1] (db_orders (api g')) \<noteq> select_order [1] (db_orders (api sample_gateway))
     \<and> db_listings (api g') = db_listings (api sample_gateway)"
proof -
  obtain resp g' where run: "api_call demo_ext sample_codecs plain_app default_config (rate_limiter_new 60 60) sample_call sample_gateway = (resp, g')"
    "status resp = 200" "select_order [1] (db_orders (api g')) = Some (sample_order\<lparr>encrypted_order_blob := [7], o_version := 2\<rparr>)"
    by (rule sample_run)
  have "select_order [1] (db_orders (api sample_gateway)) = Some sample_order" by (rule sample_facts)
  with run one_row_per_request [OF run(1)] show ?thesis
    by (auto simp: sample_order_def new_order_row_def)
qed


end
