(* ===== verification/Api_Process.thy ===== *)
theory Api_Process
  imports Whole_Api
begin

text \<open>
  The life of the API process (\<^verbatim>\<open>src/src/main.rs\<close>): it starts, serves requests and ends.  What the next
  process finds is the database and the key file; the replay caches, the login challenges and the counters of
  the limiter are statics of the process that ended.
\<close>

section \<open>Definitions\<close>

definition fresh_process :: "orders \<Rightarrow> listings \<Rightarrow> string option \<Rightarrow> gateway" where
  "fresh_process os ls file =
     \<lparr>nonce_buckets = (\<lambda>_. None), rate_buckets = (\<lambda>_. None), challenges = (\<lambda>_. None),
      api = empty_api\<lparr>db_orders := os, db_listings := ls, kek_file := file\<rparr>\<rparr>"

definition restarted :: "gateway \<Rightarrow> gateway" where
  "restarted g = fresh_process (db_orders (api g)) (db_listings (api g)) (kek_file (api g))"

text \<open>What ends the \<^verbatim>\<open>select!\<close> of \<^verbatim>\<open>main\<close>.\<close>

datatype ending = Serve_Failed string | Ctrl_C

definition serve_api ::
    "ext \<Rightarrow> codecs \<Rightarrow> app \<Rightarrow> config \<Rightarrow> rate_limiter \<Rightarrow> string option \<Rightarrow> api_call list \<Rightarrow> ending \<Rightarrow> gateway
       \<Rightarrow> (string + http_response list) \<times> gateway" where
  "serve_api L C A G R bind_fault calls ending g =
     (case bind_fault of
        Some e \<Rightarrow> (Inl e, g)
      | None \<Rightarrow>
         (let (answers, g) = run_ops (api_call L C A G R) calls g
          in (case ending of Serve_Failed e \<Rightarrow> Inl e | Ctrl_C \<Rightarrow> Inr answers, g)))"

text \<open>\<^verbatim>\<open>main\<close>, on the rows the database holds.\<close>

definition api_process ::
    "ext \<Rightarrow> codecs \<Rightarrow> outside \<Rightarrow> host \<Rightarrow> bytes \<Rightarrow> (string \<Rightarrow> string + admin_keypair) \<Rightarrow> admin_keypair
       \<Rightarrow> string option \<Rightarrow> api_call list \<Rightarrow> ending \<Rightarrow> disk \<Rightarrow> gateway \<Rightarrow> (string + http_response list) \<times> gateway" where
  "api_process L C X H random from_hex generated bind_fault calls ending K g =
     (case (load_config X, fst (api_main L X H random from_hex generated K)) of
        (Inr G, Inr (A, pool, kek, R)) \<Rightarrow> serve_api L C A G R bind_fault calls ending (restarted g)
      | (Inl e, _) \<Rightarrow> (Inl e, g)
      | (_, Inl e) \<Rightarrow> (Inl e, g))"

section \<open>What outlives the process\<close>

lemma database_across_lives:
  assumes "database_ok (api g)"
  shows "database_ok (api (snd (api_process L C X H random from_hex generated bind_fault calls ending K g)))"
proof -
  have "database_ok (api (restarted g))"
    using assms by (simp add: database_ok_def restarted_def fresh_process_def empty_api_def)
  then have "database_ok (api (snd (serve_api L C A G R bind_fault calls ending (restarted g))))" for A G R
    by (simp add: serve_api_def split_beta Let_def database_run_ok split: option.split)
  with assms show ?thesis by (auto simp: api_process_def split: sum.split prod.split)
qed

section \<open>What a restart opens again\<close>

lemma restarted_sel [simp]:
  "nonce_buckets (restarted g) = (\<lambda>_. None)" "rate_buckets (restarted g) = (\<lambda>_. None)"
  "db_orders (api (restarted g)) = db_orders (api g)" "order_create_nonces (api (restarted g)) = {}"
  by (simp_all add: restarted_def fresh_process_def empty_api_def)

lemma credentials_next_hour:
  assumes "check_credentials L A E p h = Inr ()" "ah_hour h \<le> current_hour E'" "current_hour E' \<le> ah_hour h + 1"
  shows "check_credentials L A E' p h = Inr ()"
  using assms by (auto simp: check_credentials_def)

lemma admitted_after_restart:
  assumes "admitted L A E req g h" "ah_hour h \<le> current_hour E'" "current_hour E' \<le> ah_hour h + 1"
  shows "admitted L A E' req (restarted g') h"
  using assms(1) credentials_next_hour [OF _ assms(2,3)] by (auto simp: admitted_def check_replay_fst bucket_def)

lemma recorded_request_served_again:
  assumes "routes_ok C" "admitted L A E (ac_request c) g h"
    and "http_method (ac_request c) = ''POST''" "path (ac_request c) = ''/orders''"
    and "create_order_json C (handler_request L c h) (ac_body c) = Inr b" "check_order_blob L (co_blob b) = Inr blob"
    and "ah_hour h \<le> current_hour (ac_clock c)" "current_hour (ac_clock c) \<le> ah_hour h + 1"
    and "no_faults (he_env (ac_handler c))" "random_id (he_env (ac_handler c)) \<notin> o_id ` set (db_orders (api g2))"
  shows "status (fst (api_call L C A G R c (restarted g2))) = 200
    \<and> db_orders (api (snd (api_call L C A G R c (restarted g2)))) =
        db_orders (api g2) @ [created_row A (he_env (ac_handler c)) b blob]"
proof -
  let ?req = "handler_request L c h" and ?E = "he_env (ac_handler c)"
  let ?row = "created_row A ?E b blob"
  have "admitted L A (ac_clock c) (ac_request c) (restarted g2) h"
    using assms(2,7,8) by (rule admitted_after_restart)
  moreover have "fst (rate_check R (get_rate_limit_key L ?req, ac_now c) (rate_buckets (restarted g2)))"
    by (simp add: rate_check_def)
  ultimately obtain g1 where g1: "api g1 = api (restarted g2)"
    and run: "api_call L C A G R c (restarted g2) =
      (let p = security_headers_middleware (api_routes L C A G (ac_handler c) (ac_query c) (ac_body c)) ?req g1
       in (unify_error (pad_response (fst p)), snd p))"
    by (rule api_call_runs)
  have row: "o_id ?row = random_id ?E" by (simp add: created_row_def new_order_row_def)
  have "insert_order ?row (db_orders (api g1)) = Some (db_orders (api g2) @ [?row])"
    using assms(10) by (simp add: g1 insert_order_def insert_row_def row select_by_None)
  moreover have "db_fault ?E 0 = None" using assms(9) by (simp add: no_faults_def)
  ultimately have created: "create_order L A ?E b (api g1) = (Inr (created_response L b ?row),
      (api g1)\<lparr>order_create_nonces := {co_nonce b}, db_orders := db_orders (api g2) @ [?row]\<rparr>)"
    using create_order_fresh [OF assms(6), of "api g1" A ?E] by (simp add: g1 Let_def)
  have "ext_pubkey ?req = Some (hash_pubkey L (ah_pubkey h))" "path ?req = ''/orders''" "http_method ?req = ''POST''"
    using assms(3,4) by (simp_all add: handler_request_def)
  then have "api_routes L C A G (ac_handler c) (ac_query c) (ac_body c) ?req g1 =
      (respond C Order_Answer (Inr (created_response L b ?row)), g1\<lparr>api := snd (create_order L A ?E b (api g1))\<rparr>)"
    using assms(5) created
    by (simp add: api_routes_def routes_for_create [OF assms(1)] serves_def strip_body_def authed_body_def auth_pubkey_def
        extracted_def writing_def)
  then show ?thesis
    unfolding run by (simp add: Let_def created respond_def unify_error_def is_client_error_def)
qed

text \<open>
  C9. The replay caches do not outlive the process.  Let a request that creates an order have been admitted once, at
  any time, by any process.  If the API starts again while the hour of its credentials is the current one or the last,
  the very same request is served: whoever recorded it adds a second row with the same blob.
\<close>

theorem restart_reopens_replays:
  assumes "routes_ok C" "admitted L A E (ac_request c) g h"
    and "http_method (ac_request c) = ''POST''" "path (ac_request c) = ''/orders''"
    and "create_order_json C (handler_request L c h) (ac_body c) = Inr b" "check_order_blob L (co_blob b) = Inr blob"
    and "ah_hour h \<le> current_hour (ac_clock c)" "current_hour (ac_clock c) \<le> ah_hour h + 1"
    and "no_faults (he_env (ac_handler c))" "random_id (he_env (ac_handler c)) \<notin> o_id ` set (db_orders (api g2))"
  shows "status (fst (api_call L C A G R c (restarted g2))) = 200
    \<and> db_orders (api (snd (api_call L C A G R c (restarted g2)))) =
        db_orders (api g2) @ [created_row A (he_env (ac_handler c)) b blob]"
  using recorded_request_served_again [OF assms] .

section \<open>An instance\<close>

definition create_credentials :: auth_headers where
  "create_credentials = \<lparr>ah_pubkey = replicate 32 0, ah_hmac = replicate 32 80, ah_hour = 10, ah_nonce = [3], ah_sig = replicate 64 9\<rparr>"

definition create_body :: create_order_request where
  "create_body = \<lparr>co_blob = b64_encode demo_ext [7], co_time_lock_days = None, co_nonce = ''n''\<rparr>"

definition create_codecs :: codecs where
  "create_codecs = sample_codecs\<lparr>create_order_json := (\<lambda>_ _. Inr create_body)\<rparr>"

definition create_call :: api_call where
  "create_call = sample_call\<lparr>ac_request := (ac_request sample_call)\<lparr>path := ''/orders'',
     headers := auth_header_list demo_ext create_credentials @ [(''content-type'', Some ''application/json'')]\<rparr>\<rparr>"

lemma create_call_admitted: "admitted demo_ext plain_app plain_env (ac_request create_call) empty_gateway create_credentials"
proof (rule client_admitted [where pub = "\<lambda>_. replicate 32 0" and sk = "replicate 32 0" and nonce = "[3]"])
  have hour: "current_hour plain_env = 10"
    by (simp add: current_hour_def plain_env_def trunc_div_def i64_as_u64_def)
  then show "current_hour plain_env \<le> u64_max" by (simp add: u64_max_def)
  show "derive_auth_key demo_ext (server_secret (app_server plain_app)) (replicate 32 0) = Some (replicate 32 54)"
    by (simp add: derive_auth_key_def demo_ext_sel plain_app_def default_server_config_def)
  show "compute_hmac demo_ext (replicate 32 54) (replicate 32 0) (current_hour plain_env) (path (ac_request create_call)) [3] = Some (replicate 32 80)"
    by (simp add: hour compute_hmac_def demo_ext_sel create_call_def)
  show "create_credentials = \<lparr>ah_pubkey = replicate 32 0, ah_hmac = replicate 32 80, ah_hour = current_hour plain_env, ah_nonce = [3],
      ah_sig = ed_sign demo_ext (replicate 32 0) (build_challenge (replicate 32 80) (replicate 32 0) (current_hour plain_env) [3])\<rparr>"
    by (simp add: hour create_credentials_def demo_ext_sel)
  show "valid_request (ac_request create_call)"
    by (simp add: valid_request_def create_call_def sample_call_def header_def header_raw_def auth_header_list_def create_credentials_def
        demo_ext_sel length_demo_hex dec_10 max_request_size_def max_path_length_def max_header_count_def
        max_header_value_length_def starts_with_def)
qed (simp_all add: demo_hex_ok demo_ed_ok create_call_def public_path_def starts_with_def bucket_def empty_gateway_def)

lemma restart_reopens_replays_witness:
  "status (fst (api_call demo_ext create_codecs plain_app default_config (rate_limiter_new 60 60) create_call (restarted sample_gateway))) = 200
   \<and> length (db_orders (api (snd (api_call demo_ext create_codecs plain_app default_config (rate_limiter_new 60 60) create_call
        (restarted sample_gateway))))) = 2"
proof -
  have "routes_ok create_codecs" using sample_facts(1) by (simp add: routes_ok_def create_codecs_def)
  moreover have "current_hour (ac_clock create_call) = 10"
    by (simp add: create_call_def sample_call_def current_hour_def plain_env_def trunc_div_def i64_as_u64_def)
  moreover have "check_order_blob demo_ext (co_blob create_body) = Inr [7]"
    using demo_b64_ok by (simp add: create_body_def check_order_blob_def b64_ok_def max_order_blob_bytes_def)
  ultimately show ?thesis
    using restart_reopens_replays [OF _ create_call_admitted, of create_codecs create_body "[7]" sample_gateway default_config "rate_limiter_new 60 60"]
    by (simp add: create_call_def sample_call_def create_codecs_def create_credentials_def no_faults_def plain_env_def
        sample_gateway_def sample_state_def sample_order_def new_order_row_def empty_api_def)
qed

end
