(* ===== verification/Amounts.thy ===== *)
theory Amounts
  imports Rust_Std
begin

text \<open>
  The amount parsers of \<^verbatim>\<open>src/src/background/payment_poller.rs\<close>: decimal text to satoshi and to
  piconero.  \<^const>\<open>None\<close> is a panic (a slice inside a character, a division by zero), which aborts
  the worker process.  \<^verbatim>\<open>10u64.pow(e)\<close> wraps in the release profile.
\<close>

section \<open>Definitions\<close>

definition min_payment_sats :: nat where "min_payment_sats = 546"
definition sats_per_btc :: nat where "sats_per_btc = 100000000"

definition parse_or_0 :: "string \<Rightarrow> nat" where
  "parse_or_0 s = (case parse_u64 s of Some n \<Rightarrow> n | None \<Rightarrow> 0)"

definition dust_to_0 :: "nat \<Rightarrow> nat" where
  "dust_to_0 sats = (if sats < min_payment_sats then 0 else sats)"

text \<open>\<^verbatim>\<open>format!("{:08}", n)\<close>\<close>

definition pad_left :: "nat \<Rightarrow> string \<Rightarrow> string" where
  "pad_left k s = replicate (k - length s) CHR ''0'' @ s"

text \<open>
  \<^verbatim>\<open>s.chars().nth(8).unwrap_or('0') >= '5'\<close>: characters compare as their UTF-8 bytes do.
\<close>

definition rounds_up :: "string \<Rightarrow> bool" where
  "rounds_up s =
     (let c = (if 8 < length (chars s) then hd (chars s ! 8) else CHR ''0'')
      in (of_char c :: nat) \<ge> 53)"

definition btc_fraction :: "string \<Rightarrow> string option" where
  "btc_fraction f =
     (if length f < 8 then Some (f @ replicate (8 - length f) CHR ''0'')
      else if length f > 8 then
        (case slice_to 8 f of
           None \<Rightarrow> None
         | Some first_8 \<Rightarrow>
            Some (if rounds_up f then pad_left 8 (dec (saturating_add_u64 (parse_or_0 first_8) 1))
                  else first_8))
      else Some f)"

definition parse_btc_amount_safe :: "string \<Rightarrow> nat option" where
  "parse_btc_amount_safe amount =
     (if amount = [] then Some 0
      else let s = trim amount
           in if contains_char CHR ''.'' s then
                (let parts = split_on (\<lambda>c. c = CHR ''.'') s
                 in if length parts \<noteq> 2 then Some 0
                    else case btc_fraction (parts ! 1) of
                      None \<Rightarrow> None
                    | Some padded \<Rightarrow>
                        Some (dust_to_0 (saturating_add_u64
                          (saturating_mul_u64 (parse_or_0 (parts ! 0)) sats_per_btc) (parse_or_0 padded))))
              else (case parse_u64 s of
                      Some v \<Rightarrow> Some (dust_to_0 (saturating_mul_u64 v sats_per_btc))
                    | None \<Rightarrow> Some 0))"

definition pow10_u64 :: "nat \<Rightarrow> nat" where
  "pow10_u64 e = 10 ^ e mod 2 ^ 64"

definition decimal_fraction :: "string \<Rightarrow> nat \<Rightarrow> nat option" where
  "decimal_fraction f places =
     (if length f < places then Some (parse_or_0 (f @ replicate (places - length f) CHR ''0''))
      else if length f > places then map_option parse_or_0 (slice_to places f)
      else Some (parse_or_0 f))"

definition parse_decimal_string_to_int :: "string \<Rightarrow> nat \<Rightarrow> nat option" where
  "parse_decimal_string_to_int s places =
     (let parts = split_on (\<lambda>c. c = CHR ''.'') s
      in if length parts = 1 then Some (saturating_mul_u64 (parse_or_0 (parts ! 0)) (pow10_u64 places))
         else if length parts = 2 then
           map_option (saturating_add_u64 (saturating_mul_u64 (parse_or_0 (parts ! 0)) (pow10_u64 places)))
             (decimal_fraction (parts ! 1) places)
         else Some 0)"

definition is_exponent_char :: "char \<Rightarrow> bool" where
  "is_exponent_char c \<longleftrightarrow> c = CHR ''e'' \<or> c = CHR ''E''"

text \<open>
  The exponent as the code takes it: \<^verbatim>\<open>(-exponent) as u32\<close> of \<^verbatim>\<open>i32::MIN\<close> is \<open>2 ^ 31\<close>, which
  \<open>nat (- x)\<close> gives too.
\<close>

definition xmr_exponent :: "string \<Rightarrow> int" where
  "xmr_exponent s =
     (let parts = split_on is_exponent_char s;
          t = (if 1 < length parts then parts ! 1 else ''0'')
      in case parse_i32 t of Some x \<Rightarrow> x | None \<Rightarrow> 0)"

definition parse_xmr_amount_safe :: "string \<Rightarrow> nat option" where
  "parse_xmr_amount_safe amount =
     (if amount = [] then Some 0
      else let s = trim amount
           in if contains_char CHR ''e'' s \<or> contains_char CHR ''E'' s then
                (case parse_decimal_string_to_int (hd (split_on is_exponent_char s)) 12 of
                   None \<Rightarrow> None
                 | Some mantissa \<Rightarrow>
                    (let exponent = xmr_exponent s
                     in if exponent \<ge> 0 then Some (saturating_mul_u64 mantissa (pow10_u64 (nat exponent)))
                        else let divisor = pow10_u64 (nat (- exponent))
                             in if divisor = 0 then None else Some (mantissa div divisor)))
              else parse_decimal_string_to_int s 12)"

section \<open>Splitting and trimming numerals\<close>

lemma split_on_none: "list_all (\<lambda>c. \<not> p c) w \<Longrightarrow> split_on p w = [w]"
  by (induction w) simp_all

lemma split_on_some: "list_all (\<lambda>c. \<not> p c) w \<Longrightarrow> p c \<Longrightarrow> split_on p (w @ c # f) = w # split_on p f"
  by (induction w) simp_all

definition is_plain :: "char \<Rightarrow> bool" where
  "is_plain c \<longleftrightarrow> 33 \<le> (of_char c :: nat) \<and> (of_char c :: nat) < 128"

lemma strip_any_none: "list_all (\<lambda>w. w = [] \<or> s = [] \<or> hd w \<noteq> hd s) ws \<Longrightarrow> strip_any ws s = None"
  by (induction ws) (auto simp: starts_with_def, (metis hd_append2 hd_take append_take_drop_id length_greater_0_conv take_eq_Nil)+)

lemma whitespace_ends: "list_all (\<lambda>w. w \<noteq> [] \<and> \<not> is_plain (hd w) \<and> \<not> is_plain (last w)) whitespace"
  by (simp add: whitespace_def utf8_bytes_def is_plain_def upt_rec)

lemma trim_plain:
  assumes "s \<noteq> []" "is_plain (hd s)" "is_plain (last s)"
  shows "trim s = s"
proof -
  have "strip_any whitespace s = None"
    by (rule strip_any_none) (use whitespace_ends assms(2) in \<open>auto simp: list_all_iff\<close>)
  then have front: "trim_start_by whitespace s = s" by (subst trim_start_by.simps) simp
  have "strip_any (map rev whitespace) (rev s) = None"
    by (rule strip_any_none) (use whitespace_ends assms(1,3) in \<open>auto simp: list_all_iff hd_rev\<close>)
  then have "trim_start_by (map rev whitespace) (rev s) = rev s" by (subst trim_start_by.simps) simp
  with front show ?thesis by (simp add: trim_def)
qed

section \<open>Values of digit strings\<close>

abbreviation digits :: "string \<Rightarrow> bool" where
  "digits \<equiv> list_all is_digit"

lemma digits_val_append: "digits_val (s @ t) = digits_val s * 10 ^ length t + digits_val t"
proof (induction t rule: rev_induct)
  case (snoc c t)
  then show ?case
    unfolding append_assoc [symmetric] digits_val_snoc by (simp add: algebra_simps)
qed (simp add: digits_val_def)

lemma digits_val_zeros: "digits_val (replicate k CHR ''0'') = 0"
  by (induction k) (simp_all add: digits_val_def digit_val_def)

lemma digits_zeros: "digits (replicate k CHR ''0'')"
  by (simp add: list_all_length is_digit_def)

lemma digit_val_le: "is_digit c \<Longrightarrow> digit_val c \<le> 9"
  unfolding is_digit_def digit_val_def by arith

lemma digits_val_less: "digits s \<Longrightarrow> digits_val s < 10 ^ length s"
proof (induction s rule: rev_induct)
  case (snoc c s)
  then show ?case using digit_val_le [of c] by (simp add: digits_val_snoc)
qed (simp add: digits_val_def)

lemma digits_take: "digits s \<Longrightarrow> digits (take k s)" "digits s \<Longrightarrow> digits (drop k s)"
  by (auto simp: list_all_iff dest: in_set_takeD in_set_dropD)

lemma digits_val_split: "digits_val s = digits_val (take k s) * 10 ^ (length s - k) + digits_val (drop k s)"
  using digits_val_append [of "take k s" "drop k s"] by simp

lemma digits_val_take:
  assumes "digits s" shows "digits_val (take k s) = digits_val s div 10 ^ (length s - k)"
  using digits_val_split [of s k] digits_val_less [OF digits_take(2) [OF assms], of k] by simp

lemma parse_or_0_digits: "digits s \<Longrightarrow> digits_val s \<le> u64_max \<Longrightarrow> parse_or_0 s = digits_val s"
proof (cases s)
  case (Cons c cs)
  assume "digits s" "digits_val s \<le> u64_max"
  moreover from this Cons have "c \<noteq> CHR ''+''" by (auto simp: is_digit_def)
  ultimately show ?thesis using Cons by (simp add: parse_or_0_def parse_u64_def all_digits_def)
qed (simp add: parse_or_0_def parse_u64_def all_digits_def digits_val_def)

lemma chars_ascii: "is_ascii s \<Longrightarrow> chars s = map (\<lambda>c. [c]) s"
proof (induction s)
  case (Cons c s)
  then show ?case by (cases s) (auto simp: is_ascii_def is_continuation_def)
qed simp

lemma digits_ascii: "digits s \<Longrightarrow> is_ascii s"
  by (auto simp: is_ascii_def is_digit_def list_all_iff)

lemma slice_to_ascii: "is_ascii s \<Longrightarrow> n \<le> length s \<Longrightarrow> slice_to n s = Some (take n s)"
  by (cases "n = length s") (auto simp: slice_to_def is_ascii_def is_continuation_def list_all_length dest: spec [of _ n])

lemma rounds_up_digits: "digits f \<Longrightarrow> 8 < length f \<Longrightarrow> rounds_up f \<longleftrightarrow> 5 \<le> digit_val (f ! 8)"
  using chars_ascii [OF digits_ascii, of f]
  by (auto simp: rounds_up_def digit_val_def is_digit_def list_all_length)

section \<open>Satoshi\<close>

lemma half_up:
  fixes v d r n :: nat
  assumes "d \<le> 9" "r < 10 ^ n"
  shows "(2 * (v * 10 ^ Suc n + (d * 10 ^ n + r)) + 10 ^ Suc n) div (2 * 10 ^ Suc n) = v + (if 5 \<le> d then 1 else 0)"
proof -
  let ?P = "10 ^ n :: nat"
  have split: "2 * (v * 10 ^ Suc n + (d * ?P + r)) + 10 ^ Suc n = v * (2 * 10 ^ Suc n) + ((2 * d + 10) * ?P + 2 * r)"
    by (simp add: algebra_simps)
  have "((2 * d + 10) * ?P + 2 * r) div (2 * 10 ^ Suc n) = (if 5 \<le> d then 1 else 0)"
  proof (cases "5 \<le> d")
    case True
    have "20 * ?P \<le> (2 * d + 10) * ?P" using True by (intro mult_right_mono) simp_all
    then have "20 * ?P \<le> (2 * d + 10) * ?P + 2 * r" by (rule trans_le_add1)
    moreover have "(2 * d + 10) * ?P + 2 * r < 40 * ?P"
      using assms mult_right_mono [of "2 * d + 10" 28 ?P] by linarith
    ultimately show ?thesis using True by (intro div_nat_eqI) simp_all
  next
    case False
    then have "(2 * d + 10) * ?P + 2 * r < 20 * ?P"
      using assms mult_right_mono [of "2 * d + 10" 18 ?P] by linarith
    with False show ?thesis by simp
  qed
  then show ?thesis unfolding split by (subst div_mult_self3) simp_all
qed

text \<open>The fraction is taken to 8 places, rounding half up on the ninth.\<close>

lemma btc_fraction_digits:
  assumes "digits f"
  obtains p where "btc_fraction f = Some p"
    "parse_or_0 p = (2 * digits_val f * 10 ^ 8 + 10 ^ length f) div (2 * 10 ^ length f)"
proof (cases "length f \<le> 8")
  case True
  let ?p = "f @ replicate (8 - length f) CHR ''0''"
  have p: "btc_fraction f = Some ?p" using True by (auto simp: btc_fraction_def)
  have d: "digits ?p" "length ?p = 8" using assms digits_zeros True by simp_all
  have val: "digits_val ?p = digits_val f * 10 ^ (8 - length f)"
    by (simp add: digits_val_append digits_val_zeros)
  have "(10::nat) ^ 8 = 10 ^ (8 - length f) * 10 ^ length f"
    using True by (simp flip: power_add)
  then have "2 * digits_val f * 10 ^ 8 + 10 ^ length f = digits_val ?p * (2 * 10 ^ length f) + 10 ^ length f"
    unfolding val by (simp add: mult_ac)
  then have eq: "digits_val ?p = (2 * digits_val f * 10 ^ 8 + 10 ^ length f) div (2 * 10 ^ length f)"
    by (metis add_0 add.commute div_less div_mult_self3 less_add_same_cancel1 mult_2 mult_eq_0_iff power_not_zero
        zero_less_power zero_neq_numeral zero_less_numeral)
  have "digits_val ?p \<le> u64_max" using digits_val_less [OF d(1)] unfolding d(2) by (simp add: u64_max_def)
  with d(1) eq p show thesis by (intro that [of ?p]) (simp_all add: parse_or_0_digits)
next
  case False
  define n where "n = length f - 9"
  have len: "length f = 8 + Suc n" using False by (simp add: n_def)
  let ?v = "digits_val (take 8 f)" and ?d = "digit_val (f ! 8)" and ?r = "digits_val (drop 9 f)"
  have dr: "drop 8 f = f ! 8 # drop 9 f" using False by (metis Cons_nth_drop_Suc Suc_numeral eval_nat_numeral(3) not_le semiring_norm(2) semiring_norm(8))
  have "?v * 10 ^ Suc n + digits_val (drop 8 f) = digits_val f"
    using digits_val_split [of f 8] len by simp
  moreover have "digits_val (drop 8 f) = ?d * 10 ^ n + ?r"
    unfolding dr using digits_val_append [of "[f ! 8]" "drop 9 f"] len by (simp add: digits_val_def)
  ultimately have f: "digits_val f = ?v * 10 ^ Suc n + (?d * 10 ^ n + ?r)" by simp
  have small: "?v < 10 ^ 8" "?r < 10 ^ n" "?d \<le> 9"
    using digits_val_less [OF digits_take(1) [OF assms], of 8] digits_val_less [OF digits_take(2) [OF assms], of 9] len assms
    by (simp_all add: digit_val_le list_all_length)
  have "(10::nat) ^ length f = 10 ^ 8 * 10 ^ Suc n" unfolding len by (rule power_add)
  then have "(2 * digits_val f * 10 ^ 8 + 10 ^ length f) div (2 * 10 ^ length f)
      = (10 ^ 8 * (2 * digits_val f + 10 ^ Suc n)) div (10 ^ 8 * (2 * 10 ^ Suc n))"
    by (simp only: algebra_simps)
  also have "\<dots> = (2 * digits_val f + 10 ^ Suc n) div (2 * 10 ^ Suc n)"
    by (rule div_mult_mult1) simp
  also have "\<dots> = ?v + (if 5 \<le> ?d then 1 else 0)"
    unfolding f using half_up [OF small(3,2)] .
  finally have val: "(2 * digits_val f * 10 ^ 8 + 10 ^ length f) div (2 * 10 ^ length f) = ?v + (if 5 \<le> ?d then 1 else 0)" .
  have tk: "parse_or_0 (take 8 f) = ?v"
    using small(1) digits_take(1) [OF assms] by (intro parse_or_0_digits) (simp_all add: u64_max_def)
  have sl: "slice_to 8 f = Some (take 8 f)" using digits_ascii [OF assms] False by (simp add: slice_to_ascii)
  have up: "rounds_up f \<longleftrightarrow> 5 \<le> ?d" using rounds_up_digits [OF assms] False by simp
  show thesis
  proof (cases "5 \<le> ?d")
    case True
    let ?p = "pad_left 8 (dec (?v + 1))"
    have sat: "saturating_add_u64 ?v 1 = ?v + 1" using small(1) by (simp add: saturating_add_u64_def u64_max_def)
    have "digits_val ?p = ?v + 1" by (simp add: pad_left_def digits_val_append digits_val_zeros)
    moreover have "digits ?p"
      using all_digits_dec [of "?v + 1"] digits_zeros by (simp add: pad_left_def all_digits_def)
    ultimately have "parse_or_0 ?p = ?v + 1"
      using small(1) by (subst parse_or_0_digits) (simp_all add: u64_max_def)
    then show thesis
      using True False sl tk up sat val by (intro that [of ?p]) (simp_all add: btc_fraction_def)
  next
    case no: False
    then show thesis
      using False sl tk up val by (intro that [of "take 8 f"]) (simp_all add: btc_fraction_def)
  qed
qed

lemma numeral_shape:
  assumes "digits w" "digits f"
  shows "trim (w @ CHR ''.'' # f) = w @ CHR ''.'' # f"
    and "split_on (\<lambda>c. c = CHR ''.'') (w @ CHR ''.'' # f) = [w, f]"
    and "contains_char CHR ''.'' (w @ CHR ''.'' # f)"
    and "\<not> contains_char CHR ''e'' (w @ CHR ''.'' # f)" "\<not> contains_char CHR ''E'' (w @ CHR ''.'' # f)"
proof -
  have plain: "is_digit c \<Longrightarrow> is_plain c" for c by (auto simp: is_digit_def is_plain_def)
  have nodot: "digits s \<Longrightarrow> list_all (\<lambda>c. \<not> c = CHR ''.'') s" for s by (auto simp: list_all_iff is_digit_def)
  have "is_plain CHR ''.''" by (simp add: is_plain_def)
  then have "list_all is_plain (w @ CHR ''.'' # f)" using assms plain by (auto simp: list_all_iff)
  then have "is_plain (hd (w @ CHR ''.'' # f))" "is_plain (last (w @ CHR ''.'' # f))"
    by (metis append_is_Nil_conv hd_in_set last_in_set list.distinct(1) list_all_iff)+
  then show "trim (w @ CHR ''.'' # f) = w @ CHR ''.'' # f" by (intro trim_plain) simp_all
  show "split_on (\<lambda>c. c = CHR ''.'') (w @ CHR ''.'' # f) = [w, f]"
    using split_on_some [OF nodot [OF assms(1)]] split_on_none [OF nodot [OF assms(2)]] by simp
  show "contains_char CHR ''.'' (w @ CHR ''.'' # f)" by (simp add: contains_char_def)
  show "\<not> contains_char CHR ''e'' (w @ CHR ''.'' # f)" "\<not> contains_char CHR ''E'' (w @ CHR ''.'' # f)"
    using assms by (auto simp: contains_char_def list_all_iff is_digit_def)
qed

lemma saturating_small: "a * m + b \<le> u64_max \<Longrightarrow> saturating_add_u64 (saturating_mul_u64 a m) b = a * m + b"
  by (simp add: saturating_add_u64_def saturating_mul_u64_def)

lemma decimal_sats:
  assumes "digits w" "digits f"
    and "sats = (2 * digits_val (w @ f) * 10 ^ 8 + 10 ^ length f) div (2 * 10 ^ length f)" "sats \<le> u64_max"
  shows "parse_btc_amount_safe (w @ CHR ''.'' # f) = Some (if sats < 546 then 0 else sats)"
proof -
  obtain p where p: "btc_fraction f = Some p"
    "parse_or_0 p = (2 * digits_val f * 10 ^ 8 + 10 ^ length f) div (2 * 10 ^ length f)"
    using btc_fraction_digits [OF assms(2)] .
  have "2 * digits_val (w @ f) * 10 ^ 8 + 10 ^ length f
      = digits_val w * 10 ^ 8 * (2 * 10 ^ length f) + (2 * digits_val f * 10 ^ 8 + 10 ^ length f)"
    by (simp add: digits_val_append algebra_simps)
  moreover have "2 * 10 ^ length f \<noteq> (0::nat)" by simp
  ultimately have sats: "sats = digits_val w * 10 ^ 8 + parse_or_0 p"
    by (simp only: assms(3) p(2)) (rule div_mult_self3)
  then have "parse_or_0 w = digits_val w"
    using assms(1,4) by (intro parse_or_0_digits) simp_all
  then show ?thesis
    using p numeral_shape [OF assms(1,2)] sats assms(4) saturating_small [of "digits_val w" "10 ^ 8" "parse_or_0 p"]
    by (simp add: parse_btc_amount_safe_def dust_to_0_def min_payment_sats_def sats_per_btc_def)
qed

text \<open>
  A decimal bitcoin amount is read as satoshi, rounded half up at the eighth decimal place, with
  everything under the dust limit of 546 satoshi read as zero; nothing saturates or panics as long
  as the value fits 64 bits.
\<close>

theorem btc_amount_rounds:
  assumes "digits w" "digits f"
    and "sats = (2 * digits_val (w @ f) * 10 ^ 8 + 10 ^ length f) div (2 * 10 ^ length f)" "sats \<le> u64_max"
  shows "parse_btc_amount_safe (w @ CHR ''.'' # f) = Some (if sats < 546 then 0 else sats)"
  using decimal_sats [OF assms] .

lemma btc_amount_rounds_witness: "parse_btc_amount_safe ''1.23456789'' = Some 123456789"
proof -
  have "digits ''1''" "digits ''23456789''" by (simp_all add: is_digit_def)
  moreover have "digits_val ''123456789'' = 123456789" by (simp add: digits_val_def digit_val_def)
  ultimately show ?thesis
    using btc_amount_rounds [of "''1''" "''23456789''" 123456789] by (simp add: u64_max_def)
qed

section \<open>Piconero\<close>

lemma decimal_fraction_digits:
  assumes "digits f" "10 ^ places \<le> u64_max"
  shows "decimal_fraction f places = Some (digits_val f * 10 ^ places div 10 ^ length f)"
proof (cases "length f \<le> places")
  case True
  let ?p = "f @ replicate (places - length f) CHR ''0''"
  have d: "digits ?p" using assms digits_zeros by simp
  have val: "digits_val ?p = digits_val f * 10 ^ (places - length f)"
    by (simp add: digits_val_append digits_val_zeros)
  have "digits_val ?p < 10 ^ places" using digits_val_less [OF d] True by simp
  then have "parse_or_0 ?p = digits_val ?p" using d assms(2) by (intro parse_or_0_digits) simp_all
  moreover have "(10::nat) ^ places = 10 ^ (places - length f) * 10 ^ length f" using True by (simp flip: power_add)
  then have "digits_val f * 10 ^ places div 10 ^ length f = digits_val ?p"
    unfolding val by (metis mult.assoc nonzero_mult_div_cancel_right power_not_zero zero_neq_numeral)
  ultimately show ?thesis using True by (cases "length f = places") (simp_all add: decimal_fraction_def)
next
  case False
  let ?n = "length f - places"
  have "digits_val (take places f) < 10 ^ places"
    using digits_val_less [OF digits_take(1) [OF assms(1)], of places] False by simp
  then have "parse_or_0 (take places f) = digits_val (take places f)"
    using assms by (intro parse_or_0_digits digits_take) simp_all
  moreover have "digits_val f * 10 ^ places div 10 ^ length f = digits_val f div 10 ^ ?n"
  proof -
    have "(10::nat) ^ length f = 10 ^ ?n * 10 ^ places" using False by (simp flip: power_add)
    then show ?thesis by (simp add: div_mult_mult2)
  qed
  ultimately show ?thesis
    using False slice_to_ascii [OF digits_ascii [OF assms(1)], of places] digits_val_take [OF assms(1)]
    by (simp add: decimal_fraction_def)
qed

lemma pow10_12: "pow10_u64 12 = 10 ^ 12"
  by (simp add: pow10_u64_def)

text \<open>
  C26. A decimal monero amount is read as piconero, truncated at the twelfth decimal place, whenever
  the value fits 64 bits.
\<close>

theorem xmr_amount_truncates:
  assumes "digits w" "digits f" "digits_val (w @ f) * 10 ^ 12 div 10 ^ length f \<le> u64_max"
  shows "parse_xmr_amount_safe (w @ CHR ''.'' # f) = Some (digits_val (w @ f) * 10 ^ 12 div 10 ^ length f)"
proof -
  have "digits_val (w @ f) * 10 ^ 12 = digits_val w * 10 ^ 12 * 10 ^ length f + digits_val f * 10 ^ 12"
    by (simp add: digits_val_append algebra_simps)
  then have val: "digits_val (w @ f) * 10 ^ 12 div 10 ^ length f
      = digits_val w * 10 ^ 12 + digits_val f * 10 ^ 12 div 10 ^ length f"
    by (simp add: div_mult_self3)
  have "decimal_fraction f 12 = Some (digits_val f * 10 ^ 12 div 10 ^ length f)"
    using assms(2) by (intro decimal_fraction_digits) (simp_all add: u64_max_def)
  moreover have "parse_or_0 w = digits_val w"
    using assms(1,3) unfolding val by (intro parse_or_0_digits) simp_all
  ultimately show ?thesis
    using numeral_shape [OF assms(1,2)] assms(3) unfolding val
    by (simp add: parse_xmr_amount_safe_def parse_decimal_string_to_int_def pow10_12 saturating_small)
qed

lemma xmr_amount_truncates_witness: "parse_xmr_amount_safe ''0.001'' = Some 1000000000"
proof -
  have "digits ''0''" "digits ''001''" by (simp_all add: is_digit_def)
  moreover have "digits_val ''0001'' = 1" by (simp add: digits_val_def digit_val_def)
  ultimately show ?thesis
    using xmr_amount_truncates [of "''0''" "''001''"] by (simp add: u64_max_def)
qed

lemma pow10_zero_iff: "pow10_u64 e = 0 \<longleftrightarrow> 64 \<le> e"
proof -
  have "(2::nat) ^ 64 dvd 10 ^ e \<longleftrightarrow> 64 \<le> e"
  proof
    assume "(2::nat) ^ 64 dvd 10 ^ e"
    then have "(2::nat) ^ 64 dvd 2 ^ e * 5 ^ e" by (simp flip: power_mult_distrib)
    moreover have "coprime ((2::nat) ^ 64) (5 ^ e)" by (intro coprime_power_left_iff [THEN iffD2] disjI1 coprime_power_right_iff [THEN iffD2]) simp
    ultimately have "(2::nat) ^ 64 dvd 2 ^ e" by (simp only: coprime_dvd_mult_left_iff)
    then show "64 \<le> e" by (rule power_dvd_imp_le) simp
  next
    assume "64 \<le> e"
    then have "(2::nat) ^ 64 dvd 2 ^ e" by (rule le_imp_power_dvd)
    then show "(2::nat) ^ 64 dvd 10 ^ e" by (metis dvd_trans dvd_triv_left power_mult_distrib mult_2_right numeral_Bit0 one_add_one dvd_power_same even_numeral)
  qed
  then show ?thesis unfolding pow10_u64_def by (simp only: mod_eq_0_iff_dvd)
qed

lemma trim_subset: "set (trim s) \<subseteq> set s"
proof -
  have sub: "set t \<subseteq> set s" if "strip_any ws s = Some t" for ws s t
    using that by (induction ws s rule: strip_any.induct) (auto split: if_splits dest: in_set_dropD)
  have "set (trim_start_by ws s) \<subseteq> set s" for ws s
    by (induction ws s rule: trim_start_by.induct)
       (subst trim_start_by.simps, auto split: option.split dest: sub)
  then show ?thesis by (metis set_rev subset_trans trim_def)
qed

lemma split_on_subset: "x \<in> set (split_on p s) \<Longrightarrow> set x \<subseteq> set s"
  by (induction p s arbitrary: x rule: split_on.induct) (fastforce split: if_splits list.splits)+

lemma split_on_nonempty [simp]: "split_on p s \<noteq> []"
  by (induction p s rule: split_on.induct) (auto split: list.split)

lemma is_ascii_subset: "set t \<subseteq> set s \<Longrightarrow> is_ascii s \<Longrightarrow> is_ascii t"
  by (auto simp: is_ascii_def list_all_iff)

lemma decimal_ascii: "is_ascii s \<Longrightarrow> parse_decimal_string_to_int s places \<noteq> None"
proof -
  assume "is_ascii s"
  then have "is_ascii x" if "x \<in> set (split_on (\<lambda>c. c = CHR ''.'') s)" for x
    using is_ascii_subset split_on_subset that by blast
  then have "is_ascii (split_on (\<lambda>c. c = CHR ''.'') s ! 1)" if "length (split_on (\<lambda>c. c = CHR ''.'') s) = 2"
    using that by simp
  then show ?thesis
    by (auto simp: parse_decimal_string_to_int_def decimal_fraction_def slice_to_ascii Let_def)
qed

text \<open>
  On ASCII input the piconero parser panics exactly when the text has an exponent of -64 or
  less: the divisor, a wrapped power of ten, is then zero.
\<close>


theorem xmr_amount_panics:
  assumes "is_ascii s"
  shows "parse_xmr_amount_safe s = None \<longleftrightarrow>
    (contains_char CHR ''e'' (trim s) \<or> contains_char CHR ''E'' (trim s)) \<and> xmr_exponent (trim s) \<le> - 64"
proof -
  have asc: "is_ascii (trim s)" using assms trim_subset by (rule is_ascii_subset [rotated])
  have "is_ascii (hd (split_on is_exponent_char (trim s)))"
    using asc split_on_subset [OF hd_in_set [OF split_on_nonempty]] by (rule is_ascii_subset [rotated])
  then obtain m where m: "parse_decimal_string_to_int (hd (split_on is_exponent_char (trim s))) 12 = Some m"
    using decimal_ascii by blast
  have "parse_decimal_string_to_int (trim s) 12 \<noteq> None" using decimal_ascii [OF asc] .
  moreover have "64 \<le> nat (- x) \<longleftrightarrow> x \<le> - 64" for x :: int by auto
  moreover have "trim [] = []" by (simp add: trim_def trim_start_by.simps whitespace_def utf8_bytes_def upt_rec starts_with_def)
  ultimately show ?thesis
    by (auto simp: parse_xmr_amount_safe_def Let_def m pow10_zero_iff contains_char_def)
qed

lemma xmr_amount_panics_witness: "parse_xmr_amount_safe ''1e-64'' = None"
proof -
  have "trim ''1e-64'' = ''1e-64''" by (rule trim_plain) (simp_all add: is_plain_def)
  moreover have "xmr_exponent ''1e-64'' = - 64"
    by (simp add: xmr_exponent_def is_exponent_char_def parse_i32_def all_digits_def is_digit_def
        digits_val_def digit_val_def)
  moreover have "is_ascii ''1e-64''" by (simp add: is_ascii_def)
  ultimately show ?thesis
    using xmr_amount_panics [of "''1e-64''"] by (simp add: contains_char_def)
qed

end
