(* ===== verification/Xmr_Client.thy ===== *)
theory Xmr_Client
  imports Json Zk Config
begin

text \<open>
  \<^verbatim>\<open>src/src/services/payments/xmr.rs\<close>: the view-only Monero wallet client, with its fork detection,
  the search for a payment to an order's subaddress and the audit list.  The sleeps that jitter the
  timing of a call are not modelled.
\<close>

section \<open>Data\<close>

definition min_payment_piconero :: nat where "min_payment_piconero = 1000000000"

record xmr_transfer =
  xt_tx_hash :: string
  xt_address :: string
  xt_amount :: nat
  xt_confirmations :: nat
  xt_timestamp :: nat
  xt_block_height :: nat

record payment_status =
  received :: bool
  ps_amount :: nat
  ps_confirmations :: nat
  ps_tx_hash :: "string option"
  ps_address :: "string option"
  ps_fork_detected :: bool

record payment_audit =
  pa_order_id :: string
  pa_tx_hash :: string
  pa_address :: string
  pa_amount :: nat
  credited_height :: nat
  credited_at :: int
  verified :: bool
  rollback_at :: "int option"

record xmr_client =
  xmr_nonce :: nat
  last_block_height :: nat
  last_block_hash :: string
  fork_detected :: bool
  pending_audits :: "payment_audit list"

definition new_xmr_client :: xmr_client where
  "new_xmr_client = \<lparr>xmr_nonce = 0, last_block_height = 0, last_block_hash = [], fork_detected = False,
     pending_audits = []\<rparr>"

text \<open>The last comparison is \<^verbatim>\<open>ct_eq\<close>, on equal lengths.\<close>

definition constant_time_eq_str :: "string \<Rightarrow> string \<Rightarrow> bool" where
  "constant_time_eq_str a b =
     (if length (as_bytes a) \<noteq> length (as_bytes b) then False
      else ct_fold (zip (as_bytes a) (as_bytes b)) = 0)"

lemma constant_time_eq_str_iff [simp]: "constant_time_eq_str a b \<longleftrightarrow> a = b"
proof
  assume "constant_time_eq_str a b"
  then show "a = b" using ct_fold_zip [of "as_bytes a" "as_bytes b"]
    by (simp add: constant_time_eq_str_def split: if_splits)
qed (simp add: constant_time_eq_str_def ct_fold_zip)

section \<open>Calls\<close>

definition xmr_rpc_call ::
    "node \<Rightarrow> monero_config \<Rightarrow> string \<Rightarrow> json \<Rightarrow> xmr_client \<Rightarrow> (string + json) \<times> xmr_client" where
  "xmr_rpc_call N C meth params c =
     (let i = next_nonce (xmr_nonce c)
      in (rpc_exchange N (auth_header N (wallet_rpc_user C) (wallet_rpc_password C)) ''XMR'' i meth params,
          c\<lparr>xmr_nonce := i\<rparr>))"

definition xmr_get_height :: "node \<Rightarrow> monero_config \<Rightarrow> xmr_client \<Rightarrow> (string + nat) \<times> xmr_client" where
  "xmr_get_height N C c =
     then_do (xmr_rpc_call N C ''get_height'' JNull c) (\<lambda>v c.
       (ok_or ''Missing height in response'' (as_u64 (json_index v ''height'')), c))"

definition xmr_get_block_hash :: "node \<Rightarrow> monero_config \<Rightarrow> nat \<Rightarrow> xmr_client \<Rightarrow> (string + string) \<times> xmr_client" where
  "xmr_get_block_hash N C height c =
     then_do (xmr_rpc_call N C ''get_block_hash'' (JObject [(''height'', JPosInt height)]) c) (\<lambda>v c.
       (ok_or ''Missing block hash'' (as_str v), c))"

section \<open>Fork detection\<close>

text \<open>The check of the remembered hash; a failed call passes (\<^verbatim>\<open>if let Ok\<close>).\<close>

definition xmr_check_known_hash ::
    "node \<Rightarrow> monero_config \<Rightarrow> nat \<Rightarrow> string \<Rightarrow> xmr_client \<Rightarrow> (string + bool) \<times> xmr_client" where
  "xmr_check_known_hash N C current_height current_hash c =
     (if current_height > last_block_height c \<and> last_block_hash c \<noteq> [] then
        (let known_hash = last_block_hash c; reorg_height = last_block_height c;
             (res, c) = xmr_get_block_hash N C reorg_height c
         in case res of
              Inr current_known_hash \<Rightarrow>
                (if \<not> constant_time_eq_str current_known_hash known_hash
                 then (Inr True, c\<lparr>fork_detected := True, last_block_hash := current_hash\<rparr>)
                 else (Inr False, c))
            | Inl _ \<Rightarrow> (Inr False, c))
      else (Inr False, c))"

definition xmr_check_for_fork :: "node \<Rightarrow> monero_config \<Rightarrow> xmr_client \<Rightarrow> (string + bool) \<times> xmr_client" where
  "xmr_check_for_fork N C c =
     then_do (xmr_get_height N C c) (\<lambda>current_height c.
     then_do (xmr_get_block_hash N C current_height c) (\<lambda>current_hash c.
       if last_block_height c = 0 then
         (Inr False, c\<lparr>last_block_height := current_height, last_block_hash := current_hash\<rparr>)
       else if current_height < last_block_height c then
         (Inr True, c\<lparr>fork_detected := True, last_block_height := current_height, last_block_hash := current_hash\<rparr>)
       else then_do (xmr_check_known_hash N C current_height current_hash c) (\<lambda>fork c.
         if fork then (Inr True, c)
         else (Inr False, c\<lparr>last_block_height := current_height, last_block_hash := current_hash\<rparr>))))"

definition fork_resolved :: "xmr_client \<Rightarrow> xmr_client" where
  "fork_resolved c = (if fork_detected c then c\<lparr>fork_detected := False\<rparr> else c)"

definition is_fork_detected :: "xmr_client \<Rightarrow> bool" where
  "is_fork_detected c = fork_detected c"

section \<open>Addresses and transfers\<close>

definition create_subaddress :: "node \<Rightarrow> monero_config \<Rightarrow> string \<Rightarrow> xmr_client \<Rightarrow> (string + string) \<times> xmr_client" where
  "create_subaddress N C order_id c =
     then_do (xmr_rpc_call N C ''create_address''
        (JObject [(''account_index'', JPosInt 0), (''label'', JString (''order:'' @ order_id))]) c) (\<lambda>v c.
       (ok_or ''Missing address in response'' (as_str (json_index v ''address'')), c))"

definition is_incoming :: "string \<Rightarrow> bool" where
  "is_incoming tx_type \<longleftrightarrow> \<not> (\<not> contains_str ''in'' tx_type \<and> tx_type \<noteq> ''in'')"

definition xmr_transfer_of :: "string \<Rightarrow> nat \<Rightarrow> json \<Rightarrow> xmr_transfer option" where
  "xmr_transfer_of subaddress current_height tx =
     (if \<not> is_incoming (unwrap_or (as_str (json_index tx ''type'')) []) then None
      else let amount = unwrap_or (as_u64 (json_index tx ''amount'')) 0
           in if amount < min_payment_piconero then None
              else let block_height = unwrap_or (as_u64 (json_index tx ''height'')) current_height
                   in Some \<lparr>xt_tx_hash = unwrap_or (as_str (json_index tx ''txid'')) [],
                            xt_address = subaddress, xt_amount = amount,
                            xt_confirmations = current_height - block_height,
                            xt_timestamp = unwrap_or (as_u64 (json_index tx ''timestamp'')) 0,
                            xt_block_height = block_height\<rparr>)"

definition xmr_transfers_of :: "string \<Rightarrow> nat \<Rightarrow> json \<Rightarrow> xmr_transfer list" where
  "xmr_transfers_of subaddress current_height v =
     (case (case json_get v ''transactions'' of Some t \<Rightarrow> Some t | None \<Rightarrow> json_get v ''txs'') of
        None \<Rightarrow> []
      | Some t \<Rightarrow> (case as_array t of None \<Rightarrow> []
                   | Some txs \<Rightarrow> List.map_filter (xmr_transfer_of subaddress current_height) txs))"

definition xmr_get_incoming_transfers ::
    "node \<Rightarrow> monero_config \<Rightarrow> string \<Rightarrow> xmr_client \<Rightarrow> (string + xmr_transfer list) \<times> xmr_client" where
  "xmr_get_incoming_transfers N C subaddress c =
     then_do (xmr_get_height N C c) (\<lambda>current_height c.
     then_do (xmr_rpc_call N C ''get_address_txs''
        (JObject [(''address'', JString subaddress), (''account_index'', JPosInt 0)]) c) (\<lambda>v c.
       (Inr (xmr_transfers_of subaddress current_height v), c)))"

section \<open>Payments\<close>

definition no_payment :: payment_status where
  "no_payment = \<lparr>received = False, ps_amount = 0, ps_confirmations = 0, ps_tx_hash = None,
     ps_address = None, ps_fork_detected = False\<rparr>"

definition xmr_payment_of :: "xmr_transfer \<Rightarrow> payment_status" where
  "xmr_payment_of t = \<lparr>received = True, ps_amount = xt_amount t, ps_confirmations = xt_confirmations t,
     ps_tx_hash = Some (xt_tx_hash t), ps_address = Some (xt_address t), ps_fork_detected = False\<rparr>"

text \<open>The loop over the transfers; both branches on the confirmations return the same status.\<close>

fun xmr_find_payment :: "string \<Rightarrow> nat \<Rightarrow> nat \<Rightarrow> xmr_transfer list \<Rightarrow> payment_status" where
  "xmr_find_payment subaddress expected required [] = no_payment"
| "xmr_find_payment subaddress expected required (t # ts) =
     (if \<not> constant_time_eq_str (xt_address t) subaddress then xmr_find_payment subaddress expected required ts
      else if xt_amount t < min_payment_piconero then xmr_find_payment subaddress expected required ts
      else if xt_amount t \<ge> expected \<and> expected > 0 then
        (if xt_confirmations t \<ge> required then xmr_payment_of t else xmr_payment_of t)
      else xmr_find_payment subaddress expected required ts)"

definition xmr_check_payment_with_confirmations ::
    "node \<Rightarrow> monero_config \<Rightarrow> string \<Rightarrow> nat \<Rightarrow> nat \<Rightarrow> xmr_client \<Rightarrow> (string + payment_status) \<times> xmr_client" where
  "xmr_check_payment_with_confirmations N C subaddress expected required c =
     then_do (xmr_check_for_fork N C c) (\<lambda>fork c.
       if fork then (Inr (no_payment\<lparr>ps_fork_detected := True\<rparr>), c)
       else then_do (xmr_get_incoming_transfers N C subaddress c) (\<lambda>transfers c.
         (Inr (xmr_find_payment subaddress expected required transfers), c)))"

definition xmr_get_balance :: "node \<Rightarrow> monero_config \<Rightarrow> string \<Rightarrow> xmr_client \<Rightarrow> (string + nat \<times> nat) \<times> xmr_client" where
  "xmr_get_balance N C subaddress c =
     then_do (xmr_rpc_call N C ''get_balance''
        (JObject [(''account_index'', JPosInt 0), (''address'', JString subaddress)]) c) (\<lambda>v c.
       (Inr (unwrap_or (as_u64 (json_index v ''balance'')) 0,
             unwrap_or (as_u64 (json_index v ''unlocked_balance'')) 0), c))"

section \<open>Audits\<close>

definition record_payment_audit :: "payment_audit \<Rightarrow> xmr_client \<Rightarrow> xmr_client" where
  "record_payment_audit a c = c\<lparr>pending_audits := pending_audits c @ [a]\<rparr>"

definition get_pending_audits :: "xmr_client \<Rightarrow> payment_audit list" where
  "get_pending_audits c = pending_audits c"

definition clear_verified_audits :: "xmr_client \<Rightarrow> xmr_client" where
  "clear_verified_audits c =
     c\<lparr>pending_audits := filter (\<lambda>a. \<not> verified a \<and> rollback_at a = None) (pending_audits c)\<rparr>"

definition verify_audit :: "string \<Rightarrow> xmr_client \<Rightarrow> xmr_client" where
  "verify_audit tx c =
     c\<lparr>pending_audits := map (\<lambda>a. if constant_time_eq_str (pa_tx_hash a) tx then a\<lparr>verified := True\<rparr> else a)
        (pending_audits c)\<rparr>"

definition rollback_payment :: "int \<Rightarrow> string \<Rightarrow> xmr_client \<Rightarrow> (string + unit) \<times> xmr_client" where
  "rollback_payment t tx c =
     (Inr (), c\<lparr>pending_audits :=
        map (\<lambda>a. if constant_time_eq_str (pa_tx_hash a) tx
                  then a\<lparr>rollback_at := Some (floor_timestamp_6h t)\<rparr> else a) (pending_audits c)\<rparr>)"

section \<open>A concrete wallet for witnesses\<close>

definition demo_text :: "json \<Rightarrow> string" where
  "demo_text v =
     CHR ''{'' # unwrap_or (as_str (json_index v ''method'')) []
       @ replicate (unwrap_or (as_u64 (json_index (json_index v ''params'') ''height'')) 0) CHR ''#'' @ ''}''"

definition demo_node :: "nat \<Rightarrow> (nat \<Rightarrow> string) \<Rightarrow> json list \<Rightarrow> node" where
  "demo_node height hash txs = \<lparr>
     rpc_send = (\<lambda>auth b. Inr (JObject [(''result'',
        if b ! 5 = 104 then JObject [(''height'', JPosInt height)]
        else if b ! 5 = 98 then JString (hash (length (filter (\<lambda>x. x = 35) b)))
        else JObject [(''txs'', JArray txs)])])),
     json_text = demo_text, b64_standard = id\<rparr>"

definition demo_wallet :: monero_config where
  "demo_wallet = default_monero_config"

lemma demo_pad:
  "\<exists>k. pad_json_body demo_text (rpc_body i m ps) =
     as_bytes (CHR ''{'' # m @ replicate (unwrap_or (as_u64 (json_index ps ''height'')) 0) CHR ''#''
       @ replicate k CHR '' '' @ ''}'')"
  by (auto simp: pad_json_body_def demo_text_def rpc_body_def json_index_def Let_def as_bytes_def)

lemma demo_call:
  "fst (xmr_rpc_call (demo_node height hash txs) C m ps c) = Inr (
     let b = pad_json_body demo_text (rpc_body (next_nonce (xmr_nonce c)) m ps) in
     if b ! 5 = 104 then JObject [(''height'', JPosInt height)]
     else if b ! 5 = 98 then JString (hash (length (filter (\<lambda>x. x = 35) b)))
     else JObject [(''txs'', JArray txs)])"
  by (simp add: xmr_rpc_call_def rpc_exchange_def demo_node_def rpc_error_def Let_def json_index_def)

lemma demo_txs:
  "fst (xmr_rpc_call (demo_node height hash txs) C ''get_address_txs'' ps c) = Inr (JObject [(''txs'', JArray txs)])"
  using demo_pad [of "next_nonce (xmr_nonce c)" "''get_address_txs''" ps]
  by (auto simp: demo_call as_bytes_def)

section \<open>A payment is what the wallet reported\<close>

lemma xmr_find_payment_received:
  "received (xmr_find_payment s e k ts) \<Longrightarrow>
     \<exists>t\<in>set ts. xmr_find_payment s e k ts = xmr_payment_of t \<and> xt_address t = s
       \<and> min_payment_piconero \<le> xt_amount t \<and> e \<le> xt_amount t \<and> 0 < e"
  by (induction ts) (auto simp: no_payment_def split: if_splits)

lemma xmr_find_payment_complete:
  "t \<in> set ts \<Longrightarrow> xt_address t = s \<Longrightarrow> min_payment_piconero \<le> xt_amount t \<Longrightarrow> e \<le> xt_amount t \<Longrightarrow> 0 < e
     \<Longrightarrow> received (xmr_find_payment s e k ts)"
  by (induction ts) (auto simp: xmr_payment_of_def)

lemma map_filter_mem: "t \<in> set (List.map_filter f xs) \<Longrightarrow> \<exists>x\<in>set xs. f x = Some t"
  by (auto simp: List.map_filter_def)

lemma xmr_transfers_of_mem:
  "t \<in> set (xmr_transfers_of s h v) \<Longrightarrow> \<exists>tx txs. (json_get v ''transactions'' = Some (JArray txs)
       \<or> json_get v ''txs'' = Some (JArray txs)) \<and> tx \<in> set txs \<and> xmr_transfer_of s h tx = Some t"
  by (cases "json_get v ''transactions''"; cases "json_get v ''txs''")
     (fastforce simp: xmr_transfers_of_def split: option.splits dest!: map_filter_mem)+

text \<open>
  C17. The Monero client reports a payment only for a transaction its wallet listed for that very
  subaddress in answer to this check: of a type with \<open>in\<close> in its name, of at least the expected
  amount and the dust limit, counting as confirmations the blocks since its height; and only when
  the fork check of the same call found none.
\<close>

theorem xmr_payment_sound:
  assumes "xmr_check_payment_with_confirmations N C s e k c = (Inr st, c')" "received st"
  shows "\<exists>c1 h v txs tx. xmr_check_for_fork N C c = (Inr False, c1)
     \<and> fst (xmr_get_height N C c1) = Inr h
     \<and> fst (xmr_rpc_call N C ''get_address_txs'' (JObject [(''address'', JString s), (''account_index'', JPosInt 0)])
              (snd (xmr_get_height N C c1))) = Inr v
     \<and> (json_get v ''transactions'' = Some (JArray txs) \<or> json_get v ''txs'' = Some (JArray txs))
     \<and> tx \<in> set txs \<and> is_incoming (unwrap_or (as_str (json_index tx ''type'')) [])
     \<and> json_index tx ''amount'' = JPosInt (ps_amount st) \<and> 0 < e \<and> e \<le> ps_amount st \<and> 10 ^ 9 \<le> ps_amount st
     \<and> ps_confirmations st = h - unwrap_or (as_u64 (json_index tx ''height'')) h
     \<and> ps_address st = Some s \<and> \<not> ps_fork_detected st"
proof -
  obtain fork c1 where f: "xmr_check_for_fork N C c = (Inr fork, c1)"
    using assms(1) by (auto simp: xmr_check_payment_with_confirmations_def then_do_Inr)
  moreover have "\<not> fork"
    using assms f by (cases fork) (auto simp: xmr_check_payment_with_confirmations_def no_payment_def)
  ultimately have c1: "xmr_check_for_fork N C c = (Inr False, c1)" by simp
  obtain h c2 where h: "xmr_get_height N C c1 = (Inr h, c2)"
    using assms by (auto simp: xmr_check_payment_with_confirmations_def xmr_get_incoming_transfers_def c1 then_do_Inr)
  obtain v c3 where v: "xmr_rpc_call N C ''get_address_txs'' (JObject [(''address'', JString s), (''account_index'', JPosInt 0)]) c2
      = (Inr v, c3)"
    using assms by (auto simp: xmr_check_payment_with_confirmations_def xmr_get_incoming_transfers_def c1 h then_do_Inr)
  have st: "st = xmr_find_payment s e k (xmr_transfers_of s h v)"
    using assms(1) by (simp add: xmr_check_payment_with_confirmations_def xmr_get_incoming_transfers_def c1 h v)
  obtain t where t: "t \<in> set (xmr_transfers_of s h v)" "st = xmr_payment_of t" "xt_address t = s"
    "min_payment_piconero \<le> xt_amount t" "e \<le> xt_amount t" "0 < e"
    using xmr_find_payment_received assms(2) st by blast
  obtain txs tx where tx: "json_get v ''transactions'' = Some (JArray txs) \<or> json_get v ''txs'' = Some (JArray txs)"
    "tx \<in> set txs" "xmr_transfer_of s h tx = Some t"
    using xmr_transfers_of_mem [OF t(1)] by blast
  have "is_incoming (unwrap_or (as_str (json_index tx ''type'')) [])"
    "xt_amount t = unwrap_or (as_u64 (json_index tx ''amount'')) 0"
    "xt_confirmations t = h - unwrap_or (as_u64 (json_index tx ''height'')) h"
    using tx(3) by (auto simp: xmr_transfer_of_def Let_def split: if_splits)
  moreover have "json_index tx ''amount'' = JPosInt (xt_amount t)"
    using calculation(2) t(4)
    by (cases "json_index tx ''amount''") (simp_all add: as_u64_def min_payment_piconero_def)
  ultimately show ?thesis
    using c1 h v tx(1,2) t(2-6)
    by (intro exI [of _ c1] exI [of _ h] exI [of _ v] exI [of _ txs] exI [of _ tx])
       (auto simp: xmr_payment_of_def min_payment_piconero_def)
qed

section \<open>A reorganisation is reported for ever\<close>

text \<open>A wallet that serves one fixed chain.\<close>

definition serves_chain :: "node \<Rightarrow> monero_config \<Rightarrow> nat \<Rightarrow> (nat \<Rightarrow> string) \<Rightarrow> bool" where
  "serves_chain N C height hash \<longleftrightarrow> (\<forall>c.
     fst (xmr_rpc_call N C ''get_height'' JNull c) = Inr (JObject [(''height'', JPosInt height)])
     \<and> (\<forall>h. fst (xmr_rpc_call N C ''get_block_hash'' (JObject [(''height'', JPosInt h)]) c) = Inr (JString (hash h))))"

lemma serves_chain_calls:
  assumes "serves_chain N C height hash"
  shows "xmr_get_height N C c = (Inr height, c\<lparr>xmr_nonce := next_nonce (xmr_nonce c)\<rparr>)"
    and "xmr_get_block_hash N C h c = (Inr (hash h), c\<lparr>xmr_nonce := next_nonce (xmr_nonce c)\<rparr>)"
proof -
  have *: "xmr_rpc_call N C m ps c = (fst (xmr_rpc_call N C m ps c), c\<lparr>xmr_nonce := next_nonce (xmr_nonce c)\<rparr>)" for m ps
    by (simp add: xmr_rpc_call_def Let_def)
  show "xmr_get_height N C c = (Inr height, c\<lparr>xmr_nonce := next_nonce (xmr_nonce c)\<rparr>)"
    using assms unfolding xmr_get_height_def by (subst *) (simp add: serves_chain_def json_index_def)
  show "xmr_get_block_hash N C h c = (Inr (hash h), c\<lparr>xmr_nonce := next_nonce (xmr_nonce c)\<rparr>)"
    using assms unfolding xmr_get_block_hash_def by (subst *) (simp add: serves_chain_def)
qed

lemma demo_serves: "serves_chain (demo_node height hash txs) C height hash"
  unfolding serves_chain_def
proof (intro allI conjI)
  fix c h
  show "fst (xmr_rpc_call (demo_node height hash txs) C ''get_height'' JNull c) = Inr (JObject [(''height'', JPosInt height)])"
    using demo_pad [of "next_nonce (xmr_nonce c)" "''get_height''" JNull] by (auto simp: demo_call as_bytes_def)
  show "fst (xmr_rpc_call (demo_node height hash txs) C ''get_block_hash'' (JObject [(''height'', JPosInt h)]) c) = Inr (JString (hash h))"
    using demo_pad [of "next_nonce (xmr_nonce c)" "''get_block_hash''" "JObject [(''height'', JPosInt h)]"]
    by (auto simp: demo_call as_bytes_def json_index_def)
qed

definition demo_tx :: json where
  "demo_tx = JObject [(''type'', JString ''in''), (''amount'', JPosInt 2000000000), (''height'', JPosInt 5),
     (''txid'', JString ''t'')]"

lemma xmr_payment_sound_witness:
  "\<exists>st c'. xmr_check_payment_with_confirmations (demo_node 20 (\<lambda>_. ''a'') [demo_tx]) demo_wallet ''s'' 1500000000 10
       new_xmr_client = (Inr st, c') \<and> received st \<and> ps_confirmations st = 15 \<and> 1500000000 \<le> ps_amount st"
proof -
  let ?N = "demo_node 20 (\<lambda>_. ''a'') [demo_tx]"
  note calls = serves_chain_calls [OF demo_serves, of 20 "\<lambda>_. ''a''" "[demo_tx]"]
  obtain c1 where c1: "xmr_check_for_fork ?N demo_wallet new_xmr_client = (Inr False, c1)"
    by (simp add: xmr_check_for_fork_def calls new_xmr_client_def)
  have tr: "xmr_transfers_of ''s'' 20 (JObject [(''txs'', JArray [demo_tx])]) =
      [\<lparr>xt_tx_hash = ''t'', xt_address = ''s'', xt_amount = 2000000000, xt_confirmations = 15, xt_timestamp = 0, xt_block_height = 5\<rparr>]"
    by (simp add: xmr_transfers_of_def List.map_filter_def xmr_transfer_of_def demo_tx_def json_index_def
        is_incoming_def starts_with_def min_payment_piconero_def)
  obtain st c' where run: "xmr_check_payment_with_confirmations ?N demo_wallet ''s'' 1500000000 10 new_xmr_client = (Inr st, c')"
    "received st" "ps_confirmations st = 15"
    using tr demo_txs [of 20 "\<lambda>_. ''a''" "[demo_tx]"]
    by (auto simp: xmr_check_payment_with_confirmations_def c1 xmr_get_incoming_transfers_def calls then_do_def
        xmr_payment_of_def min_payment_piconero_def)
  with xmr_payment_sound [OF run(1,2)] show ?thesis by auto
qed

text \<open>What one check does on such a wallet, once a height is remembered.\<close>

lemma xmr_check_on_chain:
  assumes "serves_chain N C height hash" "0 < last_block_height c" "last_block_height c < height" "last_block_hash c \<noteq> []"
  shows "fst (xmr_check_for_fork N C c) = Inr (hash (last_block_height c) \<noteq> last_block_hash c)"
    and "hash (last_block_height c) \<noteq> last_block_hash c \<Longrightarrow>
      last_block_height (snd (xmr_check_for_fork N C c)) = last_block_height c
      \<and> last_block_hash (snd (xmr_check_for_fork N C c)) = hash height"
  using assms
  by (simp_all add: xmr_check_for_fork_def xmr_check_known_hash_def serves_chain_calls [OF assms(1)] Let_def)

definition checks :: "node \<Rightarrow> monero_config \<Rightarrow> nat \<Rightarrow> xmr_client \<Rightarrow> xmr_client" where
  "checks N C n c = ((\<lambda>c. snd (xmr_check_for_fork N C c)) ^^ n) c"

text \<open>
  Once the client has seen the block it remembered replaced, it never leaves the fork: a mismatch
  stores the new tip's hash but keeps the old height, so every later check against the same, settled
  chain compares hashes of two different heights and reports a fork again.  No Monero payment is
  credited after that.
\<close>

theorem xmr_fork_sticks:
  assumes "serves_chain N C height hash" "0 < last_block_height c" "last_block_height c < height"
    and "last_block_hash c \<noteq> []" "hash height \<noteq> []"
    and "hash (last_block_height c) \<noteq> last_block_hash c" "hash (last_block_height c) \<noteq> hash height"
  shows "fst (xmr_check_for_fork N C (checks N C n c)) = Inr True
     \<and> fst (xmr_check_payment_with_confirmations N C s e k (checks N C n c)) = Inr (no_payment\<lparr>ps_fork_detected := True\<rparr>)"
proof -
  have inv: "last_block_height (checks N C n c) = last_block_height c
      \<and> last_block_hash (checks N C n c) \<noteq> [] \<and> hash (last_block_height c) \<noteq> last_block_hash (checks N C n c)"
  proof (induction n)
    case (Suc n)
    have "checks N C (Suc n) c = snd (xmr_check_for_fork N C (checks N C n c))" by (simp add: checks_def)
    with Suc xmr_check_on_chain(2) [OF assms(1), of "checks N C n c"] assms show ?case by simp
  qed (use assms in \<open>simp add: checks_def\<close>)
  have "fst (xmr_check_for_fork N C (checks N C n c)) = Inr True"
    using xmr_check_on_chain(1) [OF assms(1), of "checks N C n c"] inv assms(2,3) by auto
  then show ?thesis
    by (simp add: xmr_check_payment_with_confirmations_def then_do_def)
qed

lemma xmr_fork_sticks_witness:
  "fst (xmr_check_payment_with_confirmations (demo_node 20 (\<lambda>h. if h = 20 then ''new'' else ''b'') []) demo_wallet ''s'' 1 10
     (checks (demo_node 20 (\<lambda>h. if h = 20 then ''new'' else ''b'') []) demo_wallet 100
       (new_xmr_client\<lparr>last_block_height := 7, last_block_hash := ''a''\<rparr>))) = Inr (no_payment\<lparr>ps_fork_detected := True\<rparr>)"
  using xmr_fork_sticks [OF demo_serves, of "new_xmr_client\<lparr>last_block_height := 7, last_block_hash := ''a''\<rparr>"
      20 "\<lambda>h. if h = 20 then ''new'' else ''b''" "[]" demo_wallet 100 "''s''" 1 10] by simp

end
