(* ===== verification/Btc_Client.thy ===== *)
theory Btc_Client
  imports Json Config
begin

text \<open>
  \<^verbatim>\<open>src/src/services/payments/btc.rs\<close> and \<^verbatim>\<open>btc_client.rs\<close>: the Bitcoin Core RPC client, its fork
  check, and the search for a payment to an order's address.  Every method reads the \<^verbatim>\<open>result\<close>
  member of the answer as a struct that has a \<^verbatim>\<open>result\<close> field of its own.
\<close>

section \<open>Data\<close>

definition satoshis_per_btc :: nat where "satoshis_per_btc = 100000000"
definition dust_threshold_sats :: nat where "dust_threshold_sats = 546"

record transaction_detail =
  txid :: string
  td_address :: "string option"
  td_amount :: f64
  td_fee :: "f64 option"
  td_confirmations :: int
  td_time :: int
  td_label :: "string option"

record list_unspent_entry =
  lu_txid :: string
  lu_vout :: nat
  lu_address :: string
  lu_amount :: f64
  lu_confirmations :: int

record list_since_entry =
  ls_txid :: string
  ls_address :: "string option"
  ls_amount :: f64
  ls_confirmations :: int

record decoded_script =
  ds_asm :: "string option"
  ds_hex :: string
  ds_type :: "string option"

record decoded_vout =
  dv_value :: f64
  dv_n :: nat
  script_pub_key :: decoded_script

record decoded_tx =
  dt_txid :: string
  dt_hash :: string
  dt_version :: int
  dt_size :: int
  dt_vout :: "decoded_vout list"

record btc_transfer =
  bt_address :: string
  bt_amount :: nat
  bt_confirmations :: nat
  bt_tx_hash :: string

record btc_payment_status =
  bp_received :: bool
  bp_amount :: nat
  bp_confirmations :: nat
  bp_tx_hash :: "string option"
  bp_address :: "string option"
  bp_fork_detected :: bool

record btc_client =
  btc_nonce :: nat
  cached_block :: "(nat \<times> string) option"

definition new_btc_client :: btc_client where
  "new_btc_client = \<lparr>btc_nonce = 0, cached_block = None\<rparr>"

text \<open>The derived order of the status enumeration.\<close>

datatype btc_status = Pending | PartiallyFunded | Funded | Expired

definition btc_status_str :: "btc_status \<Rightarrow> string" where
  "btc_status_str s =
     (case s of Pending \<Rightarrow> ''pending'' | PartiallyFunded \<Rightarrow> ''partially_funded''
      | Funded \<Rightarrow> ''funded'' | Expired \<Rightarrow> ''expired'')"

primrec btc_status_index :: "btc_status \<Rightarrow> nat" where
  "btc_status_index Pending = 0"
| "btc_status_index PartiallyFunded = 1"
| "btc_status_index Funded = 2"
| "btc_status_index Expired = 3"

lemma btc_status_index_inject: "btc_status_index s = btc_status_index t \<longleftrightarrow> s = t"
  by (cases s; cases t) simp_all

instantiation btc_status :: linorder
begin

definition less_eq_btc_status :: "btc_status \<Rightarrow> btc_status \<Rightarrow> bool" where
  "s \<le> t \<longleftrightarrow> btc_status_index s \<le> btc_status_index t"

definition less_btc_status :: "btc_status \<Rightarrow> btc_status \<Rightarrow> bool" where
  "s < t \<longleftrightarrow> btc_status_index s < btc_status_index t"

instance
  by standard (auto simp: less_eq_btc_status_def less_btc_status_def btc_status_index_inject)

end

section \<open>Reading the answers\<close>

definition as_u32 :: "json \<Rightarrow> nat option" where
  "as_u32 v = (case as_u64 v of Some n \<Rightarrow> (if n < 2 ^ 32 then Some n else None) | None \<Rightarrow> None)"

text \<open>\<^verbatim>\<open>struct R { result: T }\<close>\<close>

definition inner_result :: "(json \<Rightarrow> 'a option) \<Rightarrow> json \<Rightarrow> 'a option" where
  "inner_result p v = Option.bind (struct_fields [''result''] v) (\<lambda>fs. field p fs ''result'')"

definition transaction_detail_of :: "json \<Rightarrow> transaction_detail option" where
  "transaction_detail_of v =
     Option.bind (struct_fields [''txid'', ''address'', ''amount'', ''fee'', ''confirmations'', ''time'', ''label''] v) (\<lambda>fs.
     Option.bind (field as_str fs ''txid'') (\<lambda>i.
     Option.bind (opt_field as_str fs ''address'') (\<lambda>a.
     Option.bind (field as_f64 fs ''amount'') (\<lambda>m.
     Option.bind (opt_field as_f64 fs ''fee'') (\<lambda>f.
     Option.bind (field as_i32 fs ''confirmations'') (\<lambda>c.
     Option.bind (field as_i64 fs ''time'') (\<lambda>t.
     Option.bind (opt_field as_str fs ''label'') (\<lambda>l.
       Some \<lparr>txid = i, td_address = a, td_amount = m, td_fee = f, td_confirmations = c, td_time = t,
             td_label = l\<rparr>))))))))"

definition list_unspent_of :: "json \<Rightarrow> list_unspent_entry option" where
  "list_unspent_of v =
     Option.bind (struct_fields [''txid'', ''vout'', ''address'', ''amount'', ''confirmations''] v) (\<lambda>fs.
     Option.bind (field as_str fs ''txid'') (\<lambda>i.
     Option.bind (field as_u32 fs ''vout'') (\<lambda>n.
     Option.bind (field as_str fs ''address'') (\<lambda>a.
     Option.bind (field as_f64 fs ''amount'') (\<lambda>m.
     Option.bind (field as_i64 fs ''confirmations'') (\<lambda>c.
       Some \<lparr>lu_txid = i, lu_vout = n, lu_address = a, lu_amount = m, lu_confirmations = c\<rparr>))))))"

definition list_since_entry_of :: "json \<Rightarrow> list_since_entry option" where
  "list_since_entry_of v =
     Option.bind (struct_fields [''txid'', ''address'', ''amount'', ''confirmations''] v) (\<lambda>fs.
     Option.bind (field as_str fs ''txid'') (\<lambda>i.
     Option.bind (opt_field as_str fs ''address'') (\<lambda>a.
     Option.bind (field as_f64 fs ''amount'') (\<lambda>m.
     Option.bind (field as_i64 fs ''confirmations'') (\<lambda>c.
       Some \<lparr>ls_txid = i, ls_address = a, ls_amount = m, ls_confirmations = c\<rparr>)))))"

definition list_since_of :: "json \<Rightarrow> (list_since_entry list \<times> string) option" where
  "list_since_of v =
     Option.bind (struct_fields [''transactions'', ''lastblock''] v) (\<lambda>fs.
     Option.bind (field (as_vec list_since_entry_of) fs ''transactions'') (\<lambda>txs.
     Option.bind (field as_str fs ''lastblock'') (\<lambda>b. Some (txs, b))))"

definition decoded_script_of :: "json \<Rightarrow> decoded_script option" where
  "decoded_script_of v =
     Option.bind (struct_fields [''asm'', ''hex'', ''type''] v) (\<lambda>fs.
     Option.bind (opt_field as_str fs ''asm'') (\<lambda>a.
     Option.bind (field as_str fs ''hex'') (\<lambda>h.
     Option.bind (opt_field as_str fs ''type'') (\<lambda>t. Some \<lparr>ds_asm = a, ds_hex = h, ds_type = t\<rparr>))))"

definition decoded_vout_of :: "json \<Rightarrow> decoded_vout option" where
  "decoded_vout_of v =
     Option.bind (struct_fields [''value'', ''n'', ''script_pub_key''] v) (\<lambda>fs.
     Option.bind (field as_f64 fs ''value'') (\<lambda>x.
     Option.bind (field as_u32 fs ''n'') (\<lambda>n.
     Option.bind (field decoded_script_of fs ''script_pub_key'') (\<lambda>s.
       Some \<lparr>dv_value = x, dv_n = n, script_pub_key = s\<rparr>))))"

definition decoded_tx_of :: "json \<Rightarrow> decoded_tx option" where
  "decoded_tx_of v =
     Option.bind (struct_fields [''txid'', ''hash'', ''version'', ''size'', ''vout''] v) (\<lambda>fs.
     Option.bind (field as_str fs ''txid'') (\<lambda>i.
     Option.bind (field as_str fs ''hash'') (\<lambda>h.
     Option.bind (field as_i64 fs ''version'') (\<lambda>n.
     Option.bind (field as_i64 fs ''size'') (\<lambda>z.
     Option.bind (field (as_vec decoded_vout_of) fs ''vout'') (\<lambda>vs.
       Some \<lparr>dt_txid = i, dt_hash = h, dt_version = n, dt_size = z, dt_vout = vs\<rparr>))))))"

definition raw_transaction_of :: "json \<Rightarrow> string option" where
  "raw_transaction_of v = Option.bind (struct_fields [''hex''] v) (\<lambda>fs. field as_str fs ''hex'')"

definition wallet_info_of :: "json \<Rightarrow> string option option" where
  "wallet_info_of v = Option.bind (struct_fields [''wallet_name''] v) (\<lambda>fs. opt_field as_str fs ''wallet_name'')"

section \<open>The RPC client\<close>

text \<open>The counter moves on; the result member is deserialised by \<open>p\<close>.\<close>

definition btc_rpc_call ::
    "node \<Rightarrow> bitcoin_config \<Rightarrow> (json \<Rightarrow> 'a option) \<Rightarrow> string \<Rightarrow> json \<Rightarrow> btc_client \<Rightarrow> (string + 'a) \<times> btc_client" where
  "btc_rpc_call N C p meth params c =
     (let i = next_nonce (btc_nonce c)
      in (and_then (rpc_exchange N (auth_header N (btc_rpc_user C) (btc_rpc_password C)) ''BTC'' i meth params) (\<lambda>v.
            ok_or ''deserialization failed'' (p v)),
          c\<lparr>btc_nonce := i\<rparr>))"

definition wallet_is_ready :: "node \<Rightarrow> bitcoin_config \<Rightarrow> btc_client \<Rightarrow> (string + bool) \<times> btc_client" where
  "wallet_is_ready N C c =
     then_do (btc_rpc_call N C wallet_info_of ''getwalletinfo'' (JArray []) c) (\<lambda>_ c. (Inr True, c))"

definition get_block_height :: "node \<Rightarrow> bitcoin_config \<Rightarrow> btc_client \<Rightarrow> (string + nat) \<times> btc_client" where
  "get_block_height N C c = btc_rpc_call N C (inner_result as_u64) ''getblockcount'' JNull c"

definition btc_get_block_hash :: "node \<Rightarrow> bitcoin_config \<Rightarrow> nat \<Rightarrow> btc_client \<Rightarrow> (string + string) \<times> btc_client" where
  "btc_get_block_hash N C height c =
     btc_rpc_call N C (inner_result as_str) ''getblockhash'' (JArray [JPosInt height]) c"

definition btc_check_for_fork :: "node \<Rightarrow> bitcoin_config \<Rightarrow> btc_client \<Rightarrow> (string + bool) \<times> btc_client" where
  "btc_check_for_fork N C c =
     then_do (get_block_height N C c) (\<lambda>current_height c.
     then_do (btc_get_block_hash N C current_height c) (\<lambda>current_hash c.
       case cached_block c of
         Some (cached_height, cached_hash) \<Rightarrow>
           (if cached_height = current_height then
              (if \<not> constant_time_compare (as_bytes cached_hash) (as_bytes current_hash)
               then (Inr True, c\<lparr>cached_block := Some (current_height, current_hash)\<rparr>)
               else (Inr False, c))
            else (Inr False, c\<lparr>cached_block := Some (current_height, current_hash)\<rparr>))
       | None \<Rightarrow> (Inr False, c\<lparr>cached_block := Some (current_height, current_hash)\<rparr>)))"

definition btc_create_address :: "node \<Rightarrow> bitcoin_config \<Rightarrow> string \<Rightarrow> btc_client \<Rightarrow> (string + string) \<times> btc_client" where
  "btc_create_address N C order_id c =
     btc_rpc_call N C (inner_result as_str) ''getnewaddress''
       (JArray [JString (''order:'' @ order_id), JString (btc_address_type C)]) c"

definition list_transactions_for_address ::
    "node \<Rightarrow> bitcoin_config \<Rightarrow> string \<Rightarrow> btc_client \<Rightarrow> (string + transaction_detail list) \<times> btc_client" where
  "list_transactions_for_address N C addr c =
     then_do (btc_rpc_call N C (inner_result (as_vec transaction_detail_of)) ''listtransactions''
        (JArray [JString ''order:*'', JPosInt 10000, JPosInt 0, JBool True]) c) (\<lambda>txs c.
       (Inr (filter (\<lambda>tx. case td_address tx of
                 Some a \<Rightarrow> constant_time_compare (as_bytes a) (as_bytes addr) | None \<Rightarrow> False) txs), c))"

definition get_transaction ::
    "node \<Rightarrow> bitcoin_config \<Rightarrow> string \<Rightarrow> btc_client \<Rightarrow> (string + transaction_detail) \<times> btc_client" where
  "get_transaction N C tx_hash c =
     btc_rpc_call N C (inner_result transaction_detail_of) ''gettransaction'' (JArray [JString tx_hash, JBool True]) c"

definition btc_f64_to_sats :: "f64 \<Rightarrow> nat" where
  "btc_f64_to_sats amount = f64_as_u64 (f64_round (f64_mul amount (u64_as_f64 satoshis_per_btc)))"

definition sats_to_btc_f64 :: "nat \<Rightarrow> f64" where
  "sats_to_btc_f64 sats = f64_div (u64_as_f64 sats) (u64_as_f64 satoshis_per_btc)"

definition get_address_balance ::
    "node \<Rightarrow> bitcoin_config \<Rightarrow> string \<Rightarrow> btc_client \<Rightarrow> (string + nat \<times> nat) \<times> btc_client" where
  "get_address_balance N C addr c =
     then_do (list_transactions_for_address N C addr c) (\<lambda>txs c.
       (Inr (foldl (\<lambda>(total, confs) tx.
                if td_confirmations tx > 0
                then (saturating_add_u64 total (btc_f64_to_sats (td_amount tx)),
                      max confs (nat (td_confirmations tx)))
                else (total, confs)) (0, 0) txs), c))"

definition get_transaction_confirmations ::
    "node \<Rightarrow> bitcoin_config \<Rightarrow> string \<Rightarrow> btc_client \<Rightarrow> (string + nat) \<times> btc_client" where
  "get_transaction_confirmations N C tx_hash c =
     then_do (get_transaction N C tx_hash c) (\<lambda>tx c. (Inr (nat (max 0 (td_confirmations tx))), c))"

definition list_unspent ::
    "node \<Rightarrow> bitcoin_config \<Rightarrow> string list \<Rightarrow> btc_client \<Rightarrow> (string + list_unspent_entry list) \<times> btc_client" where
  "list_unspent N C addrs c =
     btc_rpc_call N C (inner_result (as_vec list_unspent_of)) ''listunspent''
       (JArray [JPosInt 0, JPosInt 9999999, JArray (map JString addrs)]) c"

definition get_raw_transaction :: "node \<Rightarrow> bitcoin_config \<Rightarrow> string \<Rightarrow> btc_client \<Rightarrow> (string + string) \<times> btc_client" where
  "get_raw_transaction N C tx_hash c =
     btc_rpc_call N C (inner_result raw_transaction_of) ''gettransaction'' (JArray [JString tx_hash, JBool True]) c"

definition list_since_block ::
    "node \<Rightarrow> bitcoin_config \<Rightarrow> string \<Rightarrow> btc_client \<Rightarrow> (string + list_since_entry list \<times> string) \<times> btc_client" where
  "list_since_block N C block_hash c =
     btc_rpc_call N C (inner_result list_since_of) ''listsinceblock'' (JArray [JString block_hash]) c"

definition decode_raw_transaction :: "node \<Rightarrow> bitcoin_config \<Rightarrow> string \<Rightarrow> btc_client \<Rightarrow> (string + decoded_tx) \<times> btc_client" where
  "decode_raw_transaction N C h c =
     btc_rpc_call N C (inner_result decoded_tx_of) ''decoderawtransaction'' (JArray [JString h]) c"

definition parse_btc_amount :: "string \<Rightarrow> string + nat" where
  "parse_btc_amount amount_str =
     (if amount_str = [] then Inl ''Empty amount''
      else and_then (ok_or ''Invalid BTC amount'' (parse_f64 amount_str)) (\<lambda>amount.
        if f64_le_zero amount then Inl ''Amount must be positive''
        else let sats = btc_f64_to_sats amount
             in if sats < dust_threshold_sats then Inl ''Amount below dust threshold'' else Inr sats))"

section \<open>The payment client\<close>

definition not_received :: btc_payment_status where
  "not_received = \<lparr>bp_received = False, bp_amount = 0, bp_confirmations = 0, bp_tx_hash = None,
     bp_address = None, bp_fork_detected = False\<rparr>"

definition btc_funded :: "nat \<Rightarrow> nat \<Rightarrow> string \<Rightarrow> string \<Rightarrow> btc_payment_status" where
  "btc_funded m k tx a = \<lparr>bp_received = True, bp_amount = m, bp_confirmations = k, bp_tx_hash = Some tx,
     bp_address = Some a, bp_fork_detected = False\<rparr>"

definition btc_transfer_of :: "transaction_detail \<Rightarrow> btc_transfer option" where
  "btc_transfer_of tx =
     (if td_confirmations tx \<le> 0 then None
      else if f64_le_zero (td_amount tx) then None
      else let sats = f64_as_u64 (f64_round (f64_mul (td_amount tx) (Finite 100000000)))
           in if sats < dust_threshold_sats then None
              else map_option (\<lambda>a. \<lparr>bt_address = a, bt_amount = sats,
                     bt_confirmations = nat (max 0 (td_confirmations tx)), bt_tx_hash = txid tx\<rparr>) (td_address tx))"

definition btc_get_incoming_transfers ::
    "node \<Rightarrow> bitcoin_config \<Rightarrow> string \<Rightarrow> btc_client \<Rightarrow> (string + btc_transfer list) \<times> btc_client" where
  "btc_get_incoming_transfers N C addr c =
     then_do (list_transactions_for_address N C addr c) (\<lambda>txs c. (Inr (List.map_filter btc_transfer_of txs), c))"

primrec btc_find_payment :: "string \<Rightarrow> nat \<Rightarrow> nat \<Rightarrow> btc_transfer list \<Rightarrow> btc_payment_status" where
  "btc_find_payment addr expected required [] = not_received"
| "btc_find_payment addr expected required (t # ts) =
     (if \<not> constant_time_compare (as_bytes (bt_address t)) (as_bytes addr) then btc_find_payment addr expected required ts
      else if bt_amount t < dust_threshold_sats then btc_find_payment addr expected required ts
      else if bt_amount t \<ge> expected \<and> expected > 0 \<and> bt_confirmations t \<ge> required
        then btc_funded (bt_amount t) (bt_confirmations t) (bt_tx_hash t) addr
      else btc_find_payment addr expected required ts)"

definition btc_check_payment_with_confirmations ::
    "node \<Rightarrow> bitcoin_config \<Rightarrow> string \<Rightarrow> nat \<Rightarrow> nat \<Rightarrow> btc_client \<Rightarrow> (string + btc_payment_status) \<times> btc_client" where
  "btc_check_payment_with_confirmations N C addr expected required c =
     then_do (btc_check_for_fork N C c) (\<lambda>fork c.
       if fork then (Inr (not_received\<lparr>bp_fork_detected := True\<rparr>), c)
       else then_do (btc_get_incoming_transfers N C addr c) (\<lambda>ts c.
         (Inr (btc_find_payment addr expected required ts), c)))"

section \<open>Satoshi as floats\<close>

lemma satoshis_per_btc_f64 [simp]: "u64_as_f64 satoshis_per_btc = Finite 100000000"
  using u64_as_f64_small [of 100000000] by (simp add: satoshis_per_btc_def)

lemma sats_to_btc_exact: "n < 2 ^ 51 \<Longrightarrow> sats_to_btc_f64 n = to_f64 (of_nat n / 100000000)"
  by (simp add: sats_to_btc_f64_def u64_as_f64_small)

lemma sats_back: "n < 2 ^ 51 \<Longrightarrow> btc_f64_to_sats (to_f64 (of_nat n / 100000000)) = n"
  using scaled_back(2) by (simp add: btc_f64_to_sats_def)

text \<open>
  C10. No satoshi is lost in a float.  Up to 2 ^ 51 satoshi, more than all bitcoin there will be, a count turned
  into bitcoin and back is the same count; and a confirmed transfer whose amount the node gives as the float
  nearest to \<open>n\<close> hundred-millionths is reported with exactly \<open>n\<close> satoshi, unless \<open>n\<close> is below the dust limit.
\<close>

theorem no_satoshi_lost:
  assumes "n < 2 ^ 51"
  shows "btc_f64_to_sats (sats_to_btc_f64 n) = n
    \<and> (td_confirmations tx > 0 \<and> td_address tx = Some a \<and> td_amount tx = to_f64 (of_nat n / 100000000) \<longrightarrow>
         btc_transfer_of tx =
           (if n < 546 then None
            else Some \<lparr>bt_address = a, bt_amount = n, bt_confirmations = nat (td_confirmations tx), bt_tx_hash = txid tx\<rparr>))"
  using scaled_back [OF assms]
  by (auto simp: sats_to_btc_exact [OF assms] sats_back [OF assms] btc_transfer_of_def dust_threshold_sats_def Let_def)

lemma no_satoshi_lost_witness: "btc_f64_to_sats (sats_to_btc_f64 2099999999999999) = 2099999999999999"
  using no_satoshi_lost [of 2099999999999999] by simp

section \<open>Answers of Bitcoin Core\<close>

text \<open>
  \<^verbatim>\<open>getblockcount\<close> answers with a number: the \<^verbatim>\<open>result\<close> member is \<^verbatim>\<open>800000\<close>, not an object.
\<close>

definition core_block_count :: "node \<Rightarrow> bitcoin_config \<Rightarrow> bool" where
  "core_block_count N C \<longleftrightarrow> (\<forall>i v. rpc_exchange N (auth_header N (btc_rpc_user C) (btc_rpc_password C)) ''BTC'' i
       ''getblockcount'' JNull = Inr v \<longrightarrow> (\<exists>n. v = JPosInt n))"

lemma inner_result_number [simp]: "inner_result p (JPosInt n) = None"
  by (simp add: inner_result_def struct_fields_def)

lemma core_calls_fail:
  assumes "core_block_count N C"
  shows core_height: "\<not> is_ok (fst (get_block_height N C c))"
    and core_fork: "\<not> is_ok (fst (btc_check_for_fork N C c))"
    and core_check: "\<not> is_ok (fst (btc_check_payment_with_confirmations N C addr e k c))"
proof -
  have *: "\<not> is_ok (fst (get_block_height N C c))" for c
    using assms
    by (cases "rpc_exchange N (auth_header N (btc_rpc_user C) (btc_rpc_password C)) ''BTC'' (next_nonce (btc_nonce c)) ''getblockcount'' JNull")
       (fastforce simp: get_block_height_def btc_rpc_call_def Let_def core_block_count_def and_then_def ok_or_def)+
  have f: "\<not> is_ok (fst (btc_check_for_fork N C c))"
    unfolding btc_check_for_fork_def by (rule then_do_fails) (rule *)
  then have "\<not> is_ok (fst (btc_check_payment_with_confirmations N C addr e k c))"
    unfolding btc_check_payment_with_confirmations_def by (rule then_do_fails)
  with * f show "\<not> is_ok (fst (get_block_height N C c))" "\<not> is_ok (fst (btc_check_for_fork N C c))"
    "\<not> is_ok (fst (btc_check_payment_with_confirmations N C addr e k c))" by auto
qed

end
