(* ===== verification/Settlement.thy ===== *)
theory Settlement
  imports Btc_Client Oblivious
begin

text \<open>
  Bitcoin settlement: the stealth keys of \<^verbatim>\<open>crypto/stealth.rs\<close> and \<^verbatim>\<open>crypto/escrow.rs\<close>, the
  transactions of \<^verbatim>\<open>services/escrow/btc.rs\<close>, the settlement of a released order in
  \<^verbatim>\<open>services/payments/stealth_escrow.rs\<close> and the self-transfer chain of \<^verbatim>\<open>payments/coinswap.rs\<close>.
  The \<^verbatim>\<open>secp256k1\<close> and \<^verbatim>\<open>bitcoin\<close> crates are parameters.
\<close>

section \<open>Transactions\<close>

record tx_in =
  prev_txid :: bytes
  prev_vout :: nat
  script_witness :: "bytes list"

record tx_out =
  out_value :: nat
  out_script :: bytes

text \<open>Version one, lock time zero, empty script signatures and final sequence numbers throughout.\<close>

record btc_tx =
  tx_inputs :: "tx_in list"
  tx_outputs :: "tx_out list"

record psbt_input =
  witness_utxo :: "tx_out option"
  witness_script :: "bytes option"
  partial_sigs :: "(bytes \<times> bytes) list"  \<comment> \<open>in key order\<close>
  final_witness :: "bytes list option"

record psbt =
  unsigned_tx :: btc_tx
  psbt_inputs :: "psbt_input list"

section \<open>The crates\<close>

record btclib =
  addr_from_str :: "string \<Rightarrow> string + string"
  require_network :: "btc_network \<Rightarrow> string \<Rightarrow> string + bytes"  \<comment> \<open>the script of a checked address\<close>
  txid_from_str :: "string \<Rightarrow> string + bytes"
  p2pkh_address :: "btc_network \<Rightarrow> bytes \<Rightarrow> string"
  p2wpkh_address :: "btc_network \<Rightarrow> bytes \<Rightarrow> string"
  is_p2wpkh :: "bytes \<Rightarrow> bool"
  psbt_from_unsigned_tx :: "btc_tx \<Rightarrow> string + psbt"
  psbt_extract_tx :: "psbt \<Rightarrow> string + btc_tx"
  tx_serialize_hex :: "btc_tx \<Rightarrow> string"
  p2wpkh_sighash :: "btc_tx \<Rightarrow> nat \<Rightarrow> bytes \<Rightarrow> nat \<Rightarrow> string + bytes"
  sign_ecdsa :: "bytes \<Rightarrow> bytes \<Rightarrow> bytes"  \<comment> \<open>message, secret key; with the sighash byte\<close>
  insert_sig :: "bytes \<Rightarrow> bytes \<Rightarrow> (bytes \<times> bytes) list \<Rightarrow> (bytes \<times> bytes) list"
  secp_sk :: "bytes \<Rightarrow> string + bytes"  \<comment> \<open>\<open>SecretKey::from_slice\<close>\<close>
  secp_pk :: "bytes \<Rightarrow> string + bytes"  \<comment> \<open>\<open>PublicKey::from_slice\<close>, serialised compressed\<close>
  secp_public :: "bytes \<Rightarrow> bytes"
  ecdh_shared :: "bytes \<Rightarrow> bytes \<Rightarrow> bytes"  \<comment> \<open>public key, secret key\<close>

section \<open>Keys\<close>

definition escrow_order_key :: "ext \<Rightarrow> btclib \<Rightarrow> bytes \<Rightarrow> bytes \<Rightarrow> string + bytes" where
  "escrow_order_key L B master_seed order_id =
     and_then (ok_or ''HMAC init failed'' (hmac_sha256 L master_seed (as_bytes ''order:'' @ order_id))) (\<lambda>r.
       map_err (\<lambda>e. ''Invalid derived key: '' @ e) (secp_sk B r))"

definition order_public_key :: "btclib \<Rightarrow> bytes \<Rightarrow> bytes" where
  "order_public_key B sk = secp_public B sk"

definition derive_stealth_private_key :: "ext \<Rightarrow> btclib \<Rightarrow> bytes \<Rightarrow> bytes \<Rightarrow> bytes \<Rightarrow> string + bytes" where
  "derive_stealth_private_key L B their_pk our_sk order_id =
     (let shared = ecdh_shared B their_pk our_sk;
          tweak = sha256 L (shared @ as_bytes ''stealth-key-v1'' @ order_id)
      in map_err (\<lambda>e. ''invalid stealth key derivation: '' @ e) (secp_sk B tweak))"

definition derive_stealth_private_key_seller :: "ext \<Rightarrow> btclib \<Rightarrow> bytes \<Rightarrow> bytes \<Rightarrow> bytes \<Rightarrow> string + bytes" where
  "derive_stealth_private_key_seller L B their_pk our_sk order_id =
     derive_stealth_private_key L B their_pk our_sk order_id"

definition stealth_public_key :: "btclib \<Rightarrow> bytes \<Rightarrow> bytes" where
  "stealth_public_key B sk = secp_public B sk"

definition stealth_p2wpkh_address :: "btclib \<Rightarrow> bytes \<Rightarrow> btc_network \<Rightarrow> string" where
  "stealth_p2wpkh_address B pk net = p2wpkh_address B net pk"

definition parse_secp_pubkey :: "ext \<Rightarrow> btclib \<Rightarrow> string \<Rightarrow> string + bytes" where
  "parse_secp_pubkey L B s =
     and_then (ok_or (''Invalid hex pubkey: '' @ hex_error L s) (hex_decode L s)) (\<lambda>b.
       map_err (\<lambda>e. ''Invalid secp256k1 pubkey: '' @ e) (secp_pk B b))"

definition stealth_address_from_hex ::
    "ext \<Rightarrow> btclib \<Rightarrow> string \<Rightarrow> string \<Rightarrow> bytes \<Rightarrow> btc_network \<Rightarrow> string + string" where
  "stealth_address_from_hex L B buyer_pk_hex seller_sk_hex order_id net =
     and_then (parse_secp_pubkey L B buyer_pk_hex) (\<lambda>buyer_pk.
     and_then (ok_or (''invalid seller sk hex: '' @ hex_error L seller_sk_hex) (hex_decode L seller_sk_hex)) (\<lambda>b.
     and_then (map_err (\<lambda>e. ''invalid seller secret key: '' @ e) (secp_sk B b)) (\<lambda>seller_sk.
     and_then (derive_stealth_private_key L B buyer_pk seller_sk order_id) (\<lambda>sk.
       Inr (stealth_p2wpkh_address B (stealth_public_key B sk) net)))))"

section \<open>Building, signing and finalising\<close>

definition wrap_u64 :: "int \<Rightarrow> nat" where
  "wrap_u64 x = nat (x mod 2 ^ 64)"

text \<open>\<^verbatim>\<open>Address::from_str(..)?.require_network(..)?\<close> with the two messages of each use.\<close>

definition checked_script :: "btclib \<Rightarrow> btc_network \<Rightarrow> string \<Rightarrow> string \<Rightarrow> string \<Rightarrow> string + bytes" where
  "checked_script B net invalid wrong a =
     and_then (map_err (\<lambda>e. invalid @ e) (addr_from_str B a)) (\<lambda>x.
       map_err (\<lambda>e. wrong @ e) (require_network B net x))"

definition fresh_input :: "bytes \<Rightarrow> nat \<Rightarrow> tx_in" where
  "fresh_input t v = \<lparr>prev_txid = t, prev_vout = v, script_witness = []\<rparr>"

fun settlement_inputs :: "btclib \<Rightarrow> (string \<times> nat \<times> nat) list \<Rightarrow> string + tx_in list" where
  "settlement_inputs B [] = Inr []"
| "settlement_inputs B ((t, v, a) # us) =
     and_then (map_err (\<lambda>e. ''Invalid txid '' @ t @ '': '' @ e) (txid_from_str B t)) (\<lambda>i.
       and_then (settlement_inputs B us) (\<lambda>ins. Inr (fresh_input i v # ins)))"

definition settlement_split :: "nat \<Rightarrow> (string \<times> nat \<times> nat) list \<Rightarrow> nat \<times> nat" where
  "settlement_split pct utxos =
     (let total_sats = wrap_u64 (int (sum_list (map (\<lambda>(_, _, a). a) utxos)));
          seller_sats = wrap_u64 (int total_sats * int (wrap_u64 (100 - int pct))) div 100;
          fee_sats = wrap_u64 (int total_sats - int seller_sats)
      in (seller_sats, fee_sats))"

definition set_witness_utxo :: "bytes \<Rightarrow> nat \<Rightarrow> psbt_input \<Rightarrow> psbt_input" where
  "set_witness_utxo script a i = i\<lparr>witness_utxo := Some \<lparr>out_value = a, out_script = script\<rparr>\<rparr>"

definition build_multi_utxo_settlement_psbt ::
    "btclib \<Rightarrow> (string \<times> nat \<times> nat) list \<Rightarrow> string \<Rightarrow> string \<Rightarrow> string \<Rightarrow> nat \<Rightarrow> btc_network \<Rightarrow> string + psbt" where
  "build_multi_utxo_settlement_psbt B utxos stealth_addr seller_addr fee_addr pct net =
     (if utxos = [] then Inl ''At least one UTXO required''
      else
        and_then (checked_script B net ''Invalid stealth address: '' ''Stealth address wrong network: '' stealth_addr) (\<lambda>stealth.
        and_then (checked_script B net ''Invalid seller address: '' ''Seller address wrong network: '' seller_addr) (\<lambda>seller.
        and_then (checked_script B net ''Invalid fee address: '' ''Fee address wrong network: '' fee_addr) (\<lambda>fee.
        let (seller_sats, fee_sats) = settlement_split pct utxos in
        and_then (settlement_inputs B utxos) (\<lambda>ins.
        and_then (map_err (\<lambda>e. ''Failed to create PSBT: '' @ e) (psbt_from_unsigned_tx B
            \<lparr>tx_inputs = ins, tx_outputs = [\<lparr>out_value = seller_sats, out_script = seller\<rparr>,
                                            \<lparr>out_value = fee_sats, out_script = fee\<rparr>]\<rparr>)) (\<lambda>p.
          Inr (p\<lparr>psbt_inputs := map2 (\<lambda>(_, _, a) i. set_witness_utxo stealth a i) utxos (psbt_inputs p)\<rparr>)))))))"

definition build_stealth_settlement_psbt ::
    "btclib \<Rightarrow> string \<Rightarrow> nat \<Rightarrow> nat \<Rightarrow> string \<Rightarrow> string \<Rightarrow> string \<Rightarrow> nat \<Rightarrow> btc_network \<Rightarrow> string + psbt" where
  "build_stealth_settlement_psbt B t v a stealth_addr seller_addr fee_addr pct net =
     build_multi_utxo_settlement_psbt B [(t, v, a)] stealth_addr seller_addr fee_addr pct net"

definition sign_stealth_input :: "btclib \<Rightarrow> psbt \<Rightarrow> nat \<Rightarrow> bytes \<Rightarrow> bytes \<Rightarrow> nat \<Rightarrow> string + psbt" where
  "sign_stealth_input B p k sk pk amount =
     (if k \<ge> length (psbt_inputs p) then Inl (''Input index '' @ dec k @ '' out of bounds'')
      else if secp_public B sk \<noteq> pk then Inl ''Stealth secret key does not match the provided public key''
      else
        and_then (ok_or (''PSBT input '' @ dec k @ '' has no witness_utxo'') (witness_utxo (psbt_inputs p ! k))) (\<lambda>u.
        and_then (require (is_p2wpkh B (out_script u)) ''UTXO script is not P2WPKH'') (\<lambda>_.
        and_then (map_err (\<lambda>e. ''Failed to compute P2WPKH sighash: '' @ e)
                    (p2wpkh_sighash B (unsigned_tx p) k (out_script u) amount)) (\<lambda>msg.
          Inr (p\<lparr>psbt_inputs := (psbt_inputs p)[k := (psbt_inputs p ! k)
                 \<lparr>partial_sigs := insert_sig B pk (sign_ecdsa B msg sk) (partial_sigs (psbt_inputs p ! k))\<rparr>]\<rparr>)))))"

fun finalize_inputs :: "nat \<Rightarrow> psbt_input list \<Rightarrow> string + psbt_input list" where
  "finalize_inputs k [] = Inr []"
| "finalize_inputs k (i # is) =
     (if witness_script i \<noteq> None then Inl (''Input '' @ dec k @ '': P2WPKH must not have witness_script set'')
      else case partial_sigs i of
             [] \<Rightarrow> Inl (''Input '' @ dec k @ '' has no signatures'')
           | (pk, sig) # _ \<Rightarrow>
               and_then (finalize_inputs (Suc k) is) (\<lambda>js. Inr (i\<lparr>final_witness := Some [sig, pk]\<rparr> # js)))"

definition finalize_stealth_psbt :: "btclib \<Rightarrow> psbt \<Rightarrow> string + string" where
  "finalize_stealth_psbt B p =
     (if psbt_inputs p = [] then Inl ''PSBT has no inputs''
      else and_then (finalize_inputs 0 (psbt_inputs p)) (\<lambda>is.
           and_then (map_err (\<lambda>e. ''PSBT extract failed: '' @ e) (psbt_extract_tx B (p\<lparr>psbt_inputs := is\<rparr>))) (\<lambda>tx.
             Inr (tx_serialize_hex B tx))))"

definition broadcast_psbt :: "node \<Rightarrow> bitcoin_config \<Rightarrow> string \<Rightarrow> btc_client \<Rightarrow> (string + string) \<times> btc_client" where
  "broadcast_psbt N C tx_hex c =
     then_do (btc_rpc_call N C Some ''sendrawtransaction'' (JArray [JString tx_hex]) c) (\<lambda>v c.
       (ok_or ''sendrawtransaction returned non-string'' (as_str v), c))"

definition import_request :: "string \<Rightarrow> (string \<times> json) list \<Rightarrow> string \<Rightarrow> json" where
  "import_request a extra label =
     JArray [JObject ([(''scriptPubKey'', JObject [(''address'', JString a)])] @ extra @
               [(''label'', JString label), (''watchonly'', JBool True), (''internal'', JBool False),
                (''timestamp'', JString ''now'')]),
             JObject [(''rescan'', JBool False)]]"

definition import_multisig_watchonly ::
    "node \<Rightarrow> bitcoin_config \<Rightarrow> string \<Rightarrow> string \<Rightarrow> string \<Rightarrow> btc_client \<Rightarrow> (string + unit) \<times> btc_client" where
  "import_multisig_watchonly N C a script_hex label c =
     then_do (btc_rpc_call N C Some ''importmulti''
        (import_request a [(''witnessscript'', JString script_hex)] label) c) (\<lambda>_ c. (Inr (), c))"

definition import_address_watchonly ::
    "node \<Rightarrow> bitcoin_config \<Rightarrow> string \<Rightarrow> string \<Rightarrow> btc_client \<Rightarrow> (string + unit) \<times> btc_client" where
  "import_address_watchonly N C a label c =
     then_do (btc_rpc_call N C Some ''importmulti'' (import_request a [] label) c) (\<lambda>_ c. (Inr (), c))"

section \<open>Settling an order\<close>

definition create_stealth_address_for_order ::
    "ext \<Rightarrow> btclib \<Rightarrow> node \<Rightarrow> bitcoin_config \<Rightarrow> string \<Rightarrow> bytes \<Rightarrow> bytes \<Rightarrow> btc_network \<Rightarrow> btc_client
       \<Rightarrow> string res \<times> btc_client" where
  "create_stealth_address_for_order L B N C buyer_pk_hex master_seed order_id net c =
     then_do (map_err (\<lambda>_. BadRequest ''Invalid buyer pubkey'') (parse_secp_pubkey L B buyer_pk_hex), c) (\<lambda>buyer_pk c.
     then_do (map_err (\<lambda>e. Internal (''Owner key derivation: '' @ e)) (escrow_order_key L B master_seed order_id), c) (\<lambda>owner_sk c.
     then_do (map_err (\<lambda>e. Internal (''Stealth key derivation: '' @ e))
               (derive_stealth_private_key L B buyer_pk owner_sk order_id), c) (\<lambda>stealth_sk c.
     let a = stealth_p2wpkh_address B (stealth_public_key B stealth_sk) net;
         (r, c) = import_address_watchonly N C a (''order:'' @ hex_encode L order_id) c
     in then_do (map_err (\<lambda>e. Internal (''BTC import: '' @ e)) r, c) (\<lambda>_ c. (Inr a, c)))))"

fun sign_all :: "btclib \<Rightarrow> bytes \<Rightarrow> bytes \<Rightarrow> nat \<Rightarrow> (string \<times> nat \<times> nat) list \<Rightarrow> psbt \<Rightarrow> psbt res" where
  "sign_all B sk pk k [] p = Inr p"
| "sign_all B sk pk k ((_, _, a) # es) p =
     and_then (map_err (\<lambda>e. Internal (''PSBT signing input '' @ dec k @ '': '' @ e)) (sign_stealth_input B p k sk pk a))
       (sign_all B sk pk (Suc k) es)"

definition confirmed_entries :: "list_unspent_entry list \<Rightarrow> (string \<times> nat \<times> nat) list" where
  "confirmed_entries us =
     map (\<lambda>u. (lu_txid u, lu_vout u, btc_f64_to_sats (lu_amount u))) (filter (\<lambda>u. lu_confirmations u > 0) us)"

definition stealth_keypair ::
    "ext \<Rightarrow> btclib \<Rightarrow> bytes option \<Rightarrow> bytes \<Rightarrow> order_data \<Rightarrow> (bytes \<times> bytes) res" where
  "stealth_keypair L B wkey order_id d =
     and_then (ok_or (Internal ''Worker key not set'') wkey) (\<lambda>key.
     and_then (map_err (\<lambda>e. Internal (''Owner key derivation: '' @ e)) (escrow_order_key L B key order_id)) (\<lambda>owner_sk.
     and_then (ok_or (Internal ''Missing buyer pubkey'') (buyer_pubkey d)) (\<lambda>buyer_pk_hex.
     and_then (map_err (\<lambda>_. Internal ''Invalid buyer pubkey'') (parse_secp_pubkey L B buyer_pk_hex)) (\<lambda>buyer_pk.
     and_then (map_err (\<lambda>e. Internal (''Stealth key derivation: '' @ e))
                (derive_stealth_private_key L B buyer_pk owner_sk order_id)) (\<lambda>stealth_sk.
       Inr (stealth_sk, stealth_public_key B stealth_sk))))))"

text \<open>The order's data with the transaction id set, or an error.\<close>

definition settle_stealth_order ::
    "ext \<Rightarrow> btclib \<Rightarrow> node \<Rightarrow> config \<Rightarrow> bytes option \<Rightarrow> bytes \<Rightarrow> order_data \<Rightarrow> order_data res" where
  "settle_stealth_order L B N G wkey order_id d =
     (if currency d \<noteq> ''BTC'' \<or> settlement_txid d \<noteq> None then Inr d
      else
        let C = cfg_bitcoin G in
        and_then (map_err (\<lambda>e. Internal (''Config error: '' @ e)) (configured_network C)) (\<lambda>net.
        and_then (ok_or (Internal ''No escrow address for BTC order'') (escrow_address d)) (\<lambda>stealth_addr.
        let (us, c) = list_unspent N C [stealth_addr] new_btc_client in
        and_then (map_err (\<lambda>e. Internal (''list_unspent: '' @ e)) us) (\<lambda>utxos.
        and_then (require (utxos \<noteq> []) (Internal ''No UTXOs at stealth address'')) (\<lambda>_.
        and_then (ok_or (Internal ''Missing seller pubkey'') (seller_pubkey d)) (\<lambda>seller_pk_hex.
        and_then (map_err (\<lambda>_. Internal ''Invalid seller pubkey'') (parse_secp_pubkey L B seller_pk_hex)) (\<lambda>seller_pk.
        and_then (ok_or (Internal ''No fee address configured'') (fee_address_btc (cfg_escrow G))) (\<lambda>fee_addr.
        let entries = confirmed_entries utxos in
        and_then (require (entries \<noteq> []) (Internal ''No confirmed UTXOs at stealth address'')) (\<lambda>_.
        and_then (map_err (\<lambda>e. Internal (''PSBT build: '' @ e))
          (build_multi_utxo_settlement_psbt B entries stealth_addr (p2pkh_address B net seller_pk) fee_addr
             (escrow_fee_percent (cfg_escrow G)) net)) (\<lambda>p.
        and_then (stealth_keypair L B wkey order_id d) (\<lambda>(sk, pk).
        and_then (sign_all B sk pk 0 entries p) (\<lambda>p.
        and_then (map_err (\<lambda>e. Internal (''PSBT finalize: '' @ e)) (finalize_stealth_psbt B p)) (\<lambda>tx_hex.
        and_then (map_err (\<lambda>e. Internal (''Broadcast: '' @ e)) (fst (broadcast_psbt N C tx_hex c))) (\<lambda>t.
          Inr (d\<lparr>settlement_txid := Some t\<rparr>)))))))))))))))"

section \<open>Self-transfer chains\<close>

definition dust_sats :: nat where "dust_sats = 546"
definition default_fee_sats :: nat where "default_fee_sats = 2000"

record coinswap_config =
  hop_count :: nat
  cs_network :: btc_network
  fee_sats_per_hop :: nat

definition default_coinswap_config :: coinswap_config where
  "default_coinswap_config = \<lparr>hop_count = 3, cs_network = Regtest, fee_sats_per_hop = default_fee_sats\<rparr>"

definition build_self_transfer_psbt ::
    "btclib \<Rightarrow> string \<Rightarrow> nat \<Rightarrow> nat \<Rightarrow> string \<Rightarrow> string \<Rightarrow> nat \<Rightarrow> btc_network \<Rightarrow> string + psbt" where
  "build_self_transfer_psbt B t v amount prev_addr next_addr fee net =
     and_then (map_err (\<lambda>e. ''Invalid prev_txid: '' @ e) (txid_from_str B t)) (\<lambda>i.
     and_then (checked_script B net [] ''Next address wrong network: '' next_addr) (\<lambda>next_script.
     and_then (checked_script B net [] ''Prev address wrong network: '' prev_addr) (\<lambda>prev_script.
     let output_value = amount - fee in
     and_then (require (\<not> output_value < dust_sats)
       (''Output '' @ dec output_value @ '' sats below dust threshold after '' @ dec fee @ '' sats fee'')) (\<lambda>_.
     and_then (map_err (\<lambda>e. ''PSBT create: '' @ e) (psbt_from_unsigned_tx B
         \<lparr>tx_inputs = [fresh_input i v], tx_outputs = [\<lparr>out_value = output_value, out_script = next_script\<rparr>]\<rparr>)) (\<lambda>p.
       Inr (p\<lparr>psbt_inputs := (psbt_inputs p)[0 := set_witness_utxo prev_script amount (psbt_inputs p ! 0)]\<rparr>))))))"

definition hop_key :: "ext \<Rightarrow> btclib \<Rightarrow> bytes \<Rightarrow> bytes \<Rightarrow> nat \<Rightarrow> string + bytes" where
  "hop_key L B master_seed chain_seed i =
     escrow_order_key L B master_seed (as_bytes ''coinswap:'' @ chain_seed @ u64_le_bytes i)"

text \<open>Where the funds are between two hops.\<close>

record hop_state =
  at_txid :: string
  at_vout :: nat
  at_amount :: nat
  at_address :: string
  at_sk :: bytes
  at_pk :: bytes

definition next_hop_address ::
    "btclib \<Rightarrow> btc_network \<Rightarrow> string \<Rightarrow> bytes option \<Rightarrow> string + string" where
  "next_hop_address B net final_addr next_sk =
     (case next_sk of
        Some sk \<Rightarrow> Inr (stealth_p2wpkh_address B (stealth_public_key B sk) net)
      | None \<Rightarrow> and_then (checked_script B net [] ''Final address wrong network: '' final_addr) (\<lambda>_. Inr final_addr))"

definition coinswap_hop ::
    "ext \<Rightarrow> btclib \<Rightarrow> node \<Rightarrow> bitcoin_config \<Rightarrow> bytes \<Rightarrow> bytes \<Rightarrow> string \<Rightarrow> coinswap_config \<Rightarrow> nat \<Rightarrow> hop_state
       \<Rightarrow> btc_client \<Rightarrow> (string + hop_state) \<times> btc_client" where
  "coinswap_hop L B N C master_seed chain_seed final_addr G hop h c =
     (let fee = fee_sats_per_hop G; is_last = (hop = hop_count G - 1) in
      then_do (and_then (hop_key L B master_seed chain_seed hop) (\<lambda>k. Inr (if is_last then None else Some k)), c) (\<lambda>next_sk c.
      then_do (next_hop_address B (cs_network G) final_addr next_sk, c) (\<lambda>next_addr c.
      then_do (build_self_transfer_psbt B (at_txid h) (at_vout h) (at_amount h) (at_address h) next_addr fee (cs_network G), c) (\<lambda>p c.
      then_do (sign_stealth_input B p 0 (at_sk h) (at_pk h) (at_amount h), c) (\<lambda>p c.
      then_do (finalize_stealth_psbt B p, c) (\<lambda>tx_hex c.
      then_do (broadcast_psbt N C tx_hex c) (\<lambda>t c.
        let h = h\<lparr>at_txid := t, at_vout := 0, at_amount := at_amount h - fee\<rparr>
        in (Inr (case next_sk of
                   Some sk \<Rightarrow> h\<lparr>at_address := next_addr, at_sk := sk, at_pk := secp_public B sk\<rparr>
                 | None \<Rightarrow> h), c))))))))"

fun coinswap_hops ::
    "ext \<Rightarrow> btclib \<Rightarrow> node \<Rightarrow> bitcoin_config \<Rightarrow> bytes \<Rightarrow> bytes \<Rightarrow> string \<Rightarrow> coinswap_config \<Rightarrow> nat list \<Rightarrow> hop_state
       \<Rightarrow> btc_client \<Rightarrow> (string + string list) \<times> btc_client" where
  "coinswap_hops L B N C m s f G [] h c = (Inr [], c)"
| "coinswap_hops L B N C m s f G (k # ks) h c =
     then_do (coinswap_hop L B N C m s f G k h c) (\<lambda>h c.
     then_do (coinswap_hops L B N C m s f G ks h c) (\<lambda>ts c. (Inr (at_txid h # ts), c)))"

definition run_coinswap_chain ::
    "ext \<Rightarrow> btclib \<Rightarrow> node \<Rightarrow> bitcoin_config \<Rightarrow> bytes \<Rightarrow> bytes \<Rightarrow> hop_state \<Rightarrow> string \<Rightarrow> coinswap_config
       \<Rightarrow> btc_client \<Rightarrow> (string + string list) \<times> btc_client" where
  "run_coinswap_chain L B N C master_seed chain_seed start final_addr G c =
     coinswap_hops L B N C master_seed chain_seed final_addr G [0..<hop_count G] start c"

section \<open>What a settlement pays\<close>

text \<open>What the \<^verbatim>\<open>bitcoin\<close> crate documents of \<^verbatim>\<open>Psbt::from_unsigned_tx\<close>: one empty input per input.\<close>

definition psbt_ok :: "btclib \<Rightarrow> bool" where
  "psbt_ok B \<longleftrightarrow> (\<forall>tx p. psbt_from_unsigned_tx B tx = Inr p \<longrightarrow>
     unsigned_tx p = tx \<and> length (psbt_inputs p) = length (tx_inputs tx))"

lemma psbt_okD:
  "psbt_ok B \<Longrightarrow> psbt_from_unsigned_tx B tx = Inr p \<Longrightarrow>
     unsigned_tx p = tx \<and> length (psbt_inputs p) = length (tx_inputs tx)"
  by (auto simp: psbt_ok_def)

abbreviation amounts :: "(string \<times> nat \<times> nat) list \<Rightarrow> nat list" where
  "amounts us \<equiv> map (\<lambda>(_, _, a). a) us"

lemma length_settlement_inputs: "settlement_inputs B us = Inr ins \<Longrightarrow> length ins = length us"
  by (induction us arbitrary: ins rule: settlement_inputs.induct) auto

lemma wrap_u64_id: "n < 2 ^ 64 \<Longrightarrow> wrap_u64 (int n) = n"
proof -
  assume "n < 2 ^ 64"
  then have "int n < int (2 ^ 64)" by (simp only: of_nat_less_iff)
  then show ?thesis by (simp add: wrap_u64_def)
qed

lemma settlement_split_exact:
  assumes "pct \<le> 100" "100 * sum_list (amounts us) < 2 ^ 64"
  shows "settlement_split pct us =
     (sum_list (amounts us) * (100 - pct) div 100, sum_list (amounts us) - sum_list (amounts us) * (100 - pct) div 100)"
proof -
  define T where "T = sum_list (amounts us)"
  have "T * (100 - pct) \<le> T * 100" by (intro mult_le_mono2) simp
  then have T: "T < 2 ^ 64" "T * (100 - pct) < 2 ^ 64"
    using assms(2) unfolding T_def [symmetric] by linarith+
  have pct: "wrap_u64 (100 - int pct) = 100 - pct"
    using wrap_u64_id [of "100 - pct"] assms(1) by (simp add: of_nat_diff)
  have le: "T * (100 - pct) div 100 \<le> T"
    using div_le_mono [OF mult_le_mono2 [of "100 - pct" 100 T], of 100] by simp
  have "wrap_u64 (int T * int (100 - pct)) = T * (100 - pct)"
    using wrap_u64_id [OF T(2)] by simp
  moreover have "wrap_u64 (int T - int (T * (100 - pct) div 100)) = T - T * (100 - pct) div 100"
    using wrap_u64_id [of "T - T * (100 - pct) div 100"] le T(1) by (simp add: of_nat_diff)
  ultimately show ?thesis
    using pct wrap_u64_id [OF T(1)] by (simp add: settlement_split_def Let_def flip: T_def)
qed

lemma build_settlement_shape:
  assumes "psbt_ok B" "build_multi_utxo_settlement_psbt B us sa ra fa pct net = Inr p"
  obtains seller fee where "tx_outputs (unsigned_tx p) =
      [\<lparr>out_value = fst (settlement_split pct us), out_script = seller\<rparr>, \<lparr>out_value = snd (settlement_split pct us), out_script = fee\<rparr>]"
    "map (map_option out_value \<circ> witness_utxo) (psbt_inputs p) = map Some (amounts us)"
proof -
  obtain stealth seller fee ins p0 where x: "settlement_inputs B us = Inr ins"
    "psbt_from_unsigned_tx B \<lparr>tx_inputs = ins, tx_outputs = [\<lparr>out_value = fst (settlement_split pct us), out_script = seller\<rparr>,
        \<lparr>out_value = snd (settlement_split pct us), out_script = fee\<rparr>]\<rparr> = Inr p0"
    "p = p0\<lparr>psbt_inputs := map2 (\<lambda>(_, _, a) i. set_witness_utxo stealth a i) us (psbt_inputs p0)\<rparr>"
    using assms(2) by (auto simp: build_multi_utxo_settlement_psbt_def split_beta split: if_splits)
  then have len: "length (psbt_inputs p0) = length us" and tx: "unsigned_tx p0 =
      \<lparr>tx_inputs = ins, tx_outputs = [\<lparr>out_value = fst (settlement_split pct us), out_script = seller\<rparr>,
        \<lparr>out_value = snd (settlement_split pct us), out_script = fee\<rparr>]\<rparr>"
    using psbt_okD [OF assms(1) x(2)] length_settlement_inputs [OF x(1)] by simp_all
  have "map (map_option out_value \<circ> witness_utxo) (map2 (\<lambda>(_, _, a) i. set_witness_utxo stealth a i) us is) = map Some (amounts us)"
    if "length is = length us" for "is"
    using that by (induction "is" us rule: list_induct2) (auto simp: set_witness_utxo_def split_beta)
  with len tx x(3) show thesis by (intro that) simp_all
qed


section \<open>A concrete crate for witnesses\<close>

definition demo_crates :: btclib where
  "demo_crates = \<lparr>addr_from_str = Inr, require_network = (\<lambda>_ s. Inr (as_bytes s)), txid_from_str = (\<lambda>s. Inr (as_bytes s)),
     p2pkh_address = (\<lambda>_ _. ''p''), p2wpkh_address = (\<lambda>_ _. ''w''), is_p2wpkh = (\<lambda>_. True),
     psbt_from_unsigned_tx = (\<lambda>tx. Inr \<lparr>unsigned_tx = tx, psbt_inputs = map (\<lambda>_. \<lparr>witness_utxo = None,
        witness_script = None, partial_sigs = [], final_witness = None\<rparr>) (tx_inputs tx)\<rparr>),
     psbt_extract_tx = (\<lambda>p. Inr (unsigned_tx p)), tx_serialize_hex = (\<lambda>_. ''00''),
     p2wpkh_sighash = (\<lambda>_ _ _ _. Inr []), sign_ecdsa = (\<lambda>m k. k), insert_sig = (\<lambda>pk s ss. (pk, s) # ss),
     secp_sk = Inr, secp_pk = Inr, secp_public = id, ecdh_shared = (\<lambda>_ _. [])\<rparr>"

lemma demo_crates_sel:
  "addr_from_str demo_crates = Inr" "require_network demo_crates = (\<lambda>_ s. Inr (as_bytes s))"
  "txid_from_str demo_crates = (\<lambda>s. Inr (as_bytes s))" "p2wpkh_address demo_crates = (\<lambda>_ _. ''w'')"
  "is_p2wpkh demo_crates = (\<lambda>_. True)"
  "psbt_from_unsigned_tx demo_crates = (\<lambda>tx. Inr \<lparr>unsigned_tx = tx, psbt_inputs = map (\<lambda>_. \<lparr>witness_utxo = None,
        witness_script = None, partial_sigs = [], final_witness = None\<rparr>) (tx_inputs tx)\<rparr>)"
  "psbt_extract_tx demo_crates = (\<lambda>p. Inr (unsigned_tx p))" "tx_serialize_hex demo_crates = (\<lambda>_. ''00'')"
  "p2wpkh_sighash demo_crates = (\<lambda>_ _ _ _. Inr [])" "sign_ecdsa demo_crates = (\<lambda>m k. k)"
  "insert_sig demo_crates = (\<lambda>pk s ss. (pk, s) # ss)" "secp_sk demo_crates = Inr" "secp_pk demo_crates = Inr"
  "secp_public demo_crates = id"
  by (simp_all add: demo_crates_def)

lemma demo_psbt_ok: "psbt_ok demo_crates"
  by (auto simp: psbt_ok_def demo_crates_sel)


section \<open>What a chain of self-transfers costs\<close>

lemma coinswap_hop_Inr:
  assumes "coinswap_hop L B N C m s f G k h c = (Inr h', c')"
  shows "fee_sats_per_hop G + dust_sats \<le> at_amount h \<and> at_amount h' = at_amount h - fee_sats_per_hop G"
proof -
  obtain next_sk na p where p: "build_self_transfer_psbt B (at_txid h) (at_vout h) (at_amount h) (at_address h) na
      (fee_sats_per_hop G) (cs_network G) = Inr p"
    and "at_amount h' = at_amount (case next_sk of None \<Rightarrow> h\<lparr>at_amount := at_amount h - fee_sats_per_hop G\<rparr>
       | Some sk \<Rightarrow> h\<lparr>at_amount := at_amount h - fee_sats_per_hop G, at_address := na, at_sk := sk, at_pk := secp_public B sk\<rparr>)"
    using assms unfolding coinswap_hop_def Let_def then_do_Inr by (auto split: option.splits)
  moreover have "dust_sats \<le> at_amount h - fee_sats_per_hop G"
    using p unfolding build_self_transfer_psbt_def by (auto simp: Let_def)
  ultimately show ?thesis by (auto simp: dust_sats_def split: option.splits)
qed

lemma coinswap_hops_Inr:
  "coinswap_hops L B N C m s f G ks h c = (Inr ts, c') \<Longrightarrow>
     length ts = length ks \<and> (ks = [] \<or> length ks * fee_sats_per_hop G + dust_sats \<le> at_amount h)"
proof (induction ks arbitrary: h c ts c')
  case (Cons k ks)
  then obtain h1 c1 ts1 c2 where x: "coinswap_hop L B N C m s f G k h c = (Inr h1, c1)"
    "coinswap_hops L B N C m s f G ks h1 c1 = (Inr ts1, c2)" "ts = at_txid h1 # ts1"
    by (auto simp: then_do_Inr)
  then show ?case
    using coinswap_hop_Inr [OF x(1)] Cons.IH [OF x(2)] by auto
qed simp

text \<open>
  A self-transfer chain that completes has broadcast one transaction per hop, and the starting
  amount covered the fee of every hop with at least the dust limit left at the end.
\<close>

theorem coinswap_chain_cost:
  assumes "run_coinswap_chain L B N C m s start f G c = (Inr ts, c')"
  shows "length ts = hop_count G
    \<and> (hop_count G = 0 \<or> hop_count G * fee_sats_per_hop G + 546 \<le> at_amount start)"
  using coinswap_hops_Inr [of L B N C m s f G "[0..<hop_count G]" start c ts c'] assms
  by (auto simp: run_coinswap_chain_def dust_sats_def)

definition demo_btc_node :: "json \<Rightarrow> node" where
  "demo_btc_node v = \<lparr>rpc_send = (\<lambda>_ _. Inr (JObject [(''result'', v)])), json_text = (\<lambda>_. ''{}''),
     b64_standard = id\<rparr>"

lemma demo_btc_call:
  "btc_rpc_call (demo_btc_node v) C p meth ps c =
     (ok_or ''deserialization failed'' (p v), c\<lparr>btc_nonce := next_nonce (btc_nonce c)\<rparr>)"
  by (simp add: btc_rpc_call_def rpc_exchange_def demo_btc_node_def rpc_error_def json_index_def Let_def)

definition demo_start :: hop_state where
  "demo_start = \<lparr>at_txid = ''0'', at_vout = 0, at_amount = 5000, at_address = ''a'', at_sk = [1], at_pk = [1]\<rparr>"

lemma demo_hop:
  "coinswap_hop demo_ext demo_crates (demo_btc_node (JString ''t'')) C [] [] ''d'' G k
     \<lparr>at_txid = t, at_vout = v, at_amount = n, at_address = a, at_sk = sk, at_pk = sk\<rparr> c =
   (if n - fee_sats_per_hop G < 546
    then (Inl (''Output '' @ dec (n - fee_sats_per_hop G) @ '' sats below dust threshold after '' @ dec (fee_sats_per_hop G) @ '' sats fee''), c)
    else (Inr (let next = replicate 32 (of_nat (length (as_bytes ''order:'' @ as_bytes ''coinswap:'' @ u64_le_bytes k))); last = (k = hop_count G - 1)
          in \<lparr>at_txid = ''t'', at_vout = 0, at_amount = n - fee_sats_per_hop G, at_address = (if last then a else ''w''),
              at_sk = (if last then sk else next), at_pk = (if last then sk else next)\<rparr>),
        c\<lparr>btc_nonce := next_nonce (btc_nonce c)\<rparr>))"
  by (simp add: coinswap_hop_def hop_key_def escrow_order_key_def demo_ext_sel demo_crates_sel next_hop_address_def
      build_self_transfer_psbt_def checked_script_def sign_stealth_input_def fresh_input_def set_witness_utxo_def
      finalize_stealth_psbt_def broadcast_psbt_def demo_btc_call dust_sats_def stealth_p2wpkh_address_def
      stealth_public_key_def Let_def)

lemma coinswap_chain_cost_witness:
  "\<exists>ts c'. run_coinswap_chain demo_ext demo_crates (demo_btc_node (JString ''t'')) default_bitcoin_config [] [] demo_start ''d''
       (default_coinswap_config\<lparr>hop_count := 2\<rparr>) new_btc_client = (Inr ts, c') \<and> length ts = 2"
proof -
  let ?G = "default_coinswap_config\<lparr>hop_count := 2\<rparr>"
  obtain ts c' where run: "run_coinswap_chain demo_ext demo_crates (demo_btc_node (JString ''t'')) default_bitcoin_config [] []
      demo_start ''d'' ?G new_btc_client = (Inr ts, c')"
    by (simp add: run_coinswap_chain_def upt_rec demo_start_def demo_hop default_coinswap_config_def default_fee_sats_def Let_def)
  then show ?thesis using coinswap_chain_cost [OF run] by auto
qed

end
