(* ===== verification/Payment_Poller.thy ===== *)
theory Payment_Poller
  imports Sealed_Orders Amounts Xmr_Client Settlement
begin

text \<open>
  \<^verbatim>\<open>src/src/background/payment_poller.rs\<close>: the worker pass that credits payments, cancels expired
  orders and retries settlements.  The sleeps of \<^verbatim>\<open>dummy_payment_check\<close> are not modelled.
\<close>

section \<open>State and environment\<close>

datatype worker_error =
    Failed string
  | Panicked  \<comment> \<open>the process aborts\<close>

record worker_state =
  ws_orders :: orders
  ws_xmr :: "xmr_client option"
  ws_btc :: "btc_client option"
  ws_sent :: "string list"  \<comment> \<open>what went out on the notification channel\<close>

text \<open>\<open>pe_keys_order\<close> is the order in which \<^verbatim>\<open>HashMap::into_keys\<close> yields the keys.\<close>

record pay_env =
  pe_config :: config
  pe_xmr_node :: node
  pe_btc_node :: node
  pe_crates :: btclib
  pe_keys_order :: "bytes list \<Rightarrow> bytes list"

definition required_confirmations_xmr :: nat where "required_confirmations_xmr = 10"
definition required_confirmations_btc :: nat where "required_confirmations_btc = 6"

definition on_orders ::
    "(orders \<Rightarrow> (string + 'a) \<times> orders) \<Rightarrow> worker_state \<Rightarrow> (worker_error + 'a) \<times> worker_state" where
  "on_orders f s = (map_err Failed (fst (f (ws_orders s))), s\<lparr>ws_orders := snd (f (ws_orders s))\<rparr>)"

definition get_or_init_xmr_client :: "worker_state \<Rightarrow> worker_state" where
  "get_or_init_xmr_client s = (if ws_xmr s = None then s\<lparr>ws_xmr := Some new_xmr_client\<rparr> else s)"

definition get_or_init_btc_client :: "worker_state \<Rightarrow> worker_state" where
  "get_or_init_btc_client s = (if ws_btc s = None then s\<lparr>ws_btc := Some new_btc_client\<rparr> else s)"

text \<open>A call of the initialised client.\<close>

definition with_xmr :: "(xmr_client \<Rightarrow> 'a \<times> xmr_client) \<Rightarrow> worker_state \<Rightarrow> 'a \<times> worker_state" where
  "with_xmr f s = (let (r, c) = f (unwrap_or (ws_xmr s) new_xmr_client) in (r, s\<lparr>ws_xmr := Some c\<rparr>))"

definition with_btc :: "(btc_client \<Rightarrow> 'a \<times> btc_client) \<Rightarrow> worker_state \<Rightarrow> 'a \<times> worker_state" where
  "with_btc f s = (let (r, c) = f (unwrap_or (ws_btc s) new_btc_client) in (r, s\<lparr>ws_btc := Some c\<rparr>))"

section \<open>Marking an order\<close>

text \<open>The beginning the three writers share: the key, the row as it is now, and its data.\<close>

definition read_order :: "ext \<Rightarrow> app \<Rightarrow> wenv \<Rightarrow> bytes \<Rightarrow> orders \<Rightarrow> string + bytes \<times> order \<times> order_data" where
  "read_order L A W i rows =
     and_then (ok_or ''worker_key not set'' (app_worker_key A)) (\<lambda>key.
     and_then (case w_read_fault W i of Some e \<Rightarrow> Inl e | None \<Rightarrow> Inr (select_order i rows)) (\<lambda>row.
     and_then (ok_or ''order not found'' row) (\<lambda>r.
     and_then (ok_or ''decrypt failed'' (decrypt_order_blob L (encrypted_order_blob r) key (o_id r))) (\<lambda>raw.
     and_then (map_err (\<lambda>e. ''parse failed: '' @ e) (order_from_json L raw)) (\<lambda>d.
       Inr (key, r, d))))))"

definition mark_order_funded :: "ext \<Rightarrow> app \<Rightarrow> wenv \<Rightarrow> bytes \<Rightarrow> int \<Rightarrow> worker_state \<Rightarrow> (worker_error + unit) \<times> worker_state" where
  "mark_order_funded L A W i now s =
     then_do (map_err Failed (read_order L A W i (ws_orders s)), s) (\<lambda>(key, r, d) s.
       if order_state d \<noteq> ''pending'' then (Inl (Failed ''order not in pending state''), s)
       else
         let d = d\<lparr>order_state := ''funded'', funded_at := Some now\<rparr>;
             s = s\<lparr>ws_sent := ws_sent s @ [hex_encode L i]\<rparr>
         in on_orders (write_order L W key i d (o_version r)) s)"

definition mark_order_cancelled :: "ext \<Rightarrow> app \<Rightarrow> wenv \<Rightarrow> bytes \<Rightarrow> worker_state \<Rightarrow> (worker_error + unit) \<times> worker_state" where
  "mark_order_cancelled L A W i s =
     then_do (map_err Failed (read_order L A W i (ws_orders s)), s) (\<lambda>(key, r, d) s.
       if order_state d \<noteq> ''pending'' then (Inl (Failed ''order not in pending state''), s)
       else
         let d = d\<lparr>order_state := ''cancelled''\<rparr>
         in on_orders (write_sealed L W key i d SetOrderBlob (o_version r)) s)"

definition retry_btc_settlement ::
    "ext \<Rightarrow> app \<Rightarrow> wenv \<Rightarrow> pay_env \<Rightarrow> bytes \<Rightarrow> worker_state \<Rightarrow> (worker_error + unit) \<times> worker_state" where
  "retry_btc_settlement L A W P i s =
     then_do (map_err Failed (read_order L A W i (ws_orders s)), s) (\<lambda>(key, r, d) s.
       if order_state d \<noteq> ''released'' \<or> settlement_txid d \<noteq> None then (Inr (), s)
       else case settle_stealth_order L (pe_crates P) (pe_btc_node P) (pe_config P) (app_worker_key A) i d of
              Inl _ \<Rightarrow> (Inr (), s)
            | Inr d \<Rightarrow>
                (if settlement_txid d = None then (Inr (), s)
                 else on_orders (\<lambda>rows. then_do (seal_order L W key i d, rows) (\<lambda>blob rows.
                   then_do (worker_update W (set_blob_expiry d blob) i (o_version r) rows)
                     (\<lambda>_ rows. (Inr (), rows)))) s))"

section \<open>What a client's report leads to\<close>

datatype verdict = Credit | Cancel | Leave

definition verdict_of ::
    "string \<Rightarrow> nat \<Rightarrow> int \<Rightarrow> int option \<Rightarrow> bool \<Rightarrow> bool \<Rightarrow> nat \<Rightarrow> string option \<Rightarrow> verdict" where
  "verdict_of escrow_addr required now expires fork got confs returned =
     (if fork then Leave
      else if got \<and> confs \<ge> required then
        (case returned of
           Some a \<Rightarrow> (if \<not> constant_time_compare (as_bytes a) (as_bytes escrow_addr) then Leave else Credit)
         | None \<Rightarrow> Credit)
      else if got then Leave
      else if now > unwrap_or expires (wrap_i64 (now + 86400)) then Cancel else Leave)"

definition xmr_audit :: "ext \<Rightarrow> bytes \<Rightarrow> string \<Rightarrow> int \<Rightarrow> payment_status \<Rightarrow> payment_audit" where
  "xmr_audit L i addr now st =
     \<lparr>pa_order_id = hex_encode L i, pa_tx_hash = unwrap_or (ps_tx_hash st) [], pa_address = addr,
      pa_amount = ps_amount st, credited_height = 0, credited_at = now, verified = True, rollback_at = None\<rparr>"

definition xmr_verdict :: "string \<Rightarrow> int \<Rightarrow> int option \<Rightarrow> payment_status \<Rightarrow> verdict" where
  "xmr_verdict addr now expires st =
     verdict_of addr required_confirmations_xmr now expires (ps_fork_detected st) (received st)
       (ps_confirmations st) (ps_address st)"

definition btc_verdict :: "string \<Rightarrow> int \<Rightarrow> int option \<Rightarrow> btc_payment_status \<Rightarrow> verdict" where
  "btc_verdict addr now expires st =
     verdict_of addr required_confirmations_btc now expires (bp_fork_detected st) (bp_received st)
       (bp_confirmations st) (bp_address st)"

definition check_xmr_order ::
    "ext \<Rightarrow> app \<Rightarrow> wenv \<Rightarrow> pay_env \<Rightarrow> int \<Rightarrow> bytes \<times> order_data \<Rightarrow> worker_state \<Rightarrow> (worker_error + unit) \<times> worker_state" where
  "check_xmr_order L A W P now = (\<lambda>(i, d) s.
     case escrow_address d of
       None \<Rightarrow> (Inr (), s)
     | Some addr \<Rightarrow>
        (case parse_xmr_amount_safe (unwrap_or (escrow_amount d) ''0'') of
           None \<Rightarrow> (Inl Panicked, s)
         | Some expected \<Rightarrow>
            (if expected = 0 then (Inr (), s)
             else
               let (res, s) = with_xmr (xmr_check_payment_with_confirmations (pe_xmr_node P) (cfg_monero (pe_config P))
                     addr expected required_confirmations_xmr) s
               in case res of
                    Inl _ \<Rightarrow> (Inr (), s)
                  | Inr st \<Rightarrow>
                     (case xmr_verdict addr now (expires_at d) st of
                        Credit \<Rightarrow>
                          ignore (mark_order_funded L A W i now
                            (snd (with_xmr (\<lambda>c. ((), record_payment_audit (xmr_audit L i addr now st) c)) s)))
                      | Cancel \<Rightarrow> ignore (mark_order_cancelled L A W i s)
                      | Leave \<Rightarrow> (Inr (), s)))))"

definition check_btc_order ::
    "ext \<Rightarrow> app \<Rightarrow> wenv \<Rightarrow> pay_env \<Rightarrow> int \<Rightarrow> bytes \<times> order_data \<Rightarrow> worker_state \<Rightarrow> (worker_error + unit) \<times> worker_state" where
  "check_btc_order L A W P now = (\<lambda>(i, d) s.
     case escrow_address d of
       None \<Rightarrow> (Inr (), s)
     | Some addr \<Rightarrow>
        (case parse_btc_amount_safe (unwrap_or (escrow_amount d) ''0'') of
           None \<Rightarrow> (Inl Panicked, s)
         | Some expected \<Rightarrow>
            (if expected = 0 then (Inr (), s)
             else
               let (res, s) = with_btc (btc_check_payment_with_confirmations (pe_btc_node P) (cfg_bitcoin (pe_config P))
                     addr expected required_confirmations_btc) s
               in case res of
                    Inl _ \<Rightarrow> (Inr (), s)
                  | Inr st \<Rightarrow>
                     (case btc_verdict addr now (expires_at d) st of
                        Credit \<Rightarrow> ignore (mark_order_funded L A W i now s)
                      | Cancel \<Rightarrow> ignore (mark_order_cancelled L A W i s)
                      | Leave \<Rightarrow> (Inr (), s)))))"

definition check_xmr_payments where
  "check_xmr_payments L A W P now orders = for_each (check_xmr_order L A W P now) orders"

definition check_btc_payments where
  "check_btc_payments L A W P now orders = for_each (check_btc_order L A W P now) orders"

section \<open>The pass\<close>

definition load_order_data :: "ext \<Rightarrow> bytes \<Rightarrow> bytes \<Rightarrow> order \<Rightarrow> order_data option" where
  "load_order_data L sk key r =
     (case (case decrypt_ecdh_blob L (encrypted_order_blob r) sk of
              Some raw \<Rightarrow> Some raw
            | None \<Rightarrow> decrypt_order_blob L (encrypted_order_blob r) key (o_id r)) of
        None \<Rightarrow> None
      | Some raw \<Rightarrow> (case order_from_json L raw of Inl _ \<Rightarrow> None | Inr d \<Rightarrow> Some d))"

datatype work = XmrOrder | BtcOrder | Unsettled | NoWork

definition classify :: "order_data \<Rightarrow> work" where
  "classify d =
     (if escrow_address d = None then NoWork
      else if order_state d = ''pending'' then
        (if currency d = ''XMR'' then XmrOrder else if currency d = ''BTC'' then BtcOrder else NoWork)
      else if order_state d = ''released'' then
        (if currency d = ''BTC'' \<and> settlement_txid d = None then Unsettled else NoWork)
      else NoWork)"

definition work_items :: "ext \<Rightarrow> bytes \<Rightarrow> bytes \<Rightarrow> work \<Rightarrow> orders \<Rightarrow> (bytes \<times> order_data) list" where
  "work_items L sk key w rows =
     List.map_filter (\<lambda>r. case load_order_data L sk key r of
        Some d \<Rightarrow> (if classify d = w then Some (o_id r, d) else None) | None \<Rightarrow> None) rows"

definition check_pending_payments ::
    "ext \<Rightarrow> app \<Rightarrow> wenv \<Rightarrow> pay_env \<Rightarrow> worker_state \<Rightarrow> (worker_error + unit) \<times> worker_state" where
  "check_pending_payments L A W P s =
     (let now = floor_timestamp_6h (w_time W) in
      then_do (map_err Failed (get_worker_key A), s) (\<lambda>key s.
      then_do (case w_load_fault W of Some e \<Rightarrow> Inl (Failed e) | None \<Rightarrow> Inr (ws_orders s), s) (\<lambda>rows s.
      let s = get_or_init_btc_client (get_or_init_xmr_client s) in
      then_do (ok_or Panicked (derive_domain_key L key ''payment-decrypt''), s) (\<lambda>sk s.
      let xmr_orders = work_items L sk key XmrOrder rows;
          btc_orders = work_items L sk key BtcOrder rows;
          unsettled = pe_keys_order P (map fst (work_items L sk key Unsettled rows))
      in then_do
           (if xmr_orders \<noteq> [] \<or> btc_orders \<noteq> [] then
              then_do (let (fork, s) = with_xmr (xmr_check_for_fork (pe_xmr_node P) (cfg_monero (pe_config P))) s
                       in if fork = Inr False then check_xmr_payments L A W P now xmr_orders s else (Inr (), s)) (\<lambda>_ s.
                let (fork, s) = with_btc (btc_check_for_fork (pe_btc_node P) (cfg_bitcoin (pe_config P))) s
                in if fork = Inr False then check_btc_payments L A W P now btc_orders s else (Inr (), s))
            else (Inr (), s)) (\<lambda>_ s.
           for_each (\<lambda>i s. ignore (retry_btc_settlement L A W P i s)) unsettled s)))))"

definition create_escrow_address :: "pay_env \<Rightarrow> string \<Rightarrow> worker_state \<Rightarrow> (string + string) \<times> worker_state" where
  "create_escrow_address P order_id s =
     with_xmr (create_subaddress (pe_xmr_node P) (cfg_monero (pe_config P)) order_id) (get_or_init_xmr_client s)"

section \<open>What one write does\<close>

lemma on_orders_snd [simp]: "ws_orders (snd (on_orders f s)) = snd (f (ws_orders s))"
  by (simp add: on_orders_def)

lemma read_order_Inr:
  assumes "read_order L A W i rows = Inr (key, r, d)"
  shows "app_worker_key A = Some key" "select_order i rows = Some r" "open_order L key r = Some d" "o_id r = i"
proof -
  obtain raw where "app_worker_key A = Some key" "w_read_fault W i = None" "select_order i rows = Some r"
    "decrypt_order_blob L (encrypted_order_blob r) key (o_id r) = Some raw" "order_from_json L raw = Inr d"
    using assms by (cases "w_read_fault W i") (auto simp: read_order_def)
  then show "app_worker_key A = Some key" "select_order i rows = Some r" "open_order L key r = Some d" "o_id r = i"
    by (auto simp: open_order_def dest: select_by_Some)
qed

text \<open>The data of the row before a write, and what becomes of it.\<close>

definition data_step :: "ext \<Rightarrow> app \<Rightarrow> wenv \<Rightarrow> (order_data \<Rightarrow> order_data \<Rightarrow> bool) \<Rightarrow> order \<Rightarrow> order \<Rightarrow> bool" where
  "data_step L A W D r r' \<longleftrightarrow> (\<exists>key d d'. app_worker_key A = Some key \<and> open_order L key r = Some d \<and> D d d'
     \<and> (worker_laws L W \<longrightarrow> rewritten L key d' r r'))"

lemma data_step_mono: "data_step L A W D r r' \<Longrightarrow> (\<And>d d'. D d d' \<Longrightarrow> E d d') \<Longrightarrow> data_step L A W E r r'"
  unfolding data_step_def by blast

lemma data_step_write:
  assumes "read_order L A W i rows = Inr (key, r, d)" "D d d'" "\<And>blob r. encrypted_order_blob (order_set (w blob) r) = blob"
  shows "row_step i (data_step L A W D) rows (snd (write_sealed L W key i d' w v rows))"
  using row_step_write_sealed [of w i L W key d' rows v] read_order_Inr [OF assms(1)] assms(2,3)
  unfolding row_step_def data_step_def by force

definition funds :: "int \<Rightarrow> order_data \<Rightarrow> order_data \<Rightarrow> bool" where
  "funds now d d' \<longleftrightarrow> order_state d = ''pending'' \<and> d' = d\<lparr>order_state := ''funded'', funded_at := Some now\<rparr>"

definition cancels :: "order_data \<Rightarrow> order_data \<Rightarrow> bool" where
  "cancels d d' \<longleftrightarrow> order_state d = ''pending'' \<and> d' = d\<lparr>order_state := ''cancelled''\<rparr>"

definition settles :: "ext \<Rightarrow> app \<Rightarrow> pay_env \<Rightarrow> bytes \<Rightarrow> order_data \<Rightarrow> order_data \<Rightarrow> bool" where
  "settles L A P i d d' \<longleftrightarrow> order_state d = ''released'' \<and> settlement_txid d = None \<and> settlement_txid d' \<noteq> None
     \<and> settle_stealth_order L (pe_crates P) (pe_btc_node P) (pe_config P) (app_worker_key A) i d = Inr d'"

lemma mark_order_funded_step:
  "row_step i (data_step L A W (funds now)) (ws_orders s) (ws_orders (snd (mark_order_funded L A W i now s)))"
  by (cases "read_order L A W i (ws_orders s)")
     (auto simp: mark_order_funded_def write_order_def funds_def Let_def intro!: data_step_write)

lemma mark_order_cancelled_step:
  "row_step i (data_step L A W cancels) (ws_orders s) (ws_orders (snd (mark_order_cancelled L A W i s)))"
  by (cases "read_order L A W i (ws_orders s)")
     (auto simp: mark_order_cancelled_def cancels_def Let_def intro!: data_step_write)

text \<open>The settlement does not look at the affected rows; the table is the one the checked write leaves.\<close>

lemma unchecked_write_snd:
  "snd (then_do (seal_order L W key i d, rows) (\<lambda>blob rows.
      then_do (worker_update W (w blob) i v rows) (\<lambda>_ rows. (Inr (), rows))))
   = snd (write_sealed L W key i d w v rows)"
  by (auto simp: write_sealed_def then_do_def checked_update_snd split: sum.split)

lemma retry_btc_settlement_step:
  "row_step i (data_step L A W (settles L A P i)) (ws_orders s) (ws_orders (snd (retry_btc_settlement L A W P i s)))"
  by (cases "read_order L A W i (ws_orders s)")
     (auto simp: retry_btc_settlement_def settles_def unchecked_write_snd split: sum.split intro!: data_step_write)

section \<open>What a credit rests on\<close>

text \<open>
  The interface of a payment client: whatever it reports as received is at least the amount asked
  for, at the address asked about, on a chain without a fork.
\<close>

locale payment_source =
  fixes check :: "string \<Rightarrow> nat \<Rightarrow> 'c \<Rightarrow> (string + 'st) \<times> 'c"
    and fork got :: "'st \<Rightarrow> bool" and confs amount :: "'st \<Rightarrow> nat" and returned :: "'st \<Rightarrow> string option"
  assumes report: "check addr e c = (Inr st, c') \<Longrightarrow> got st \<Longrightarrow> e \<le> amount st \<and> returned st = Some addr \<and> \<not> fork st"
begin

text \<open>Asking for \<open>k\<close> confirmations, the poller credits exactly the sufficiently confirmed reports.\<close>

lemma credited_iff:
  assumes "check addr e c = (Inr st, c')"
  shows "verdict_of addr k now x (fork st) (got st) (confs st) (returned st) = Credit \<longleftrightarrow> got st \<and> k \<le> confs st"
  using report [OF assms] by (auto simp: verdict_of_def split: option.split)

lemma credited_amount:
  assumes "check addr e c = (Inr st, c')" "verdict_of addr k now x (fork st) (got st) (confs st) (returned st) = Credit"
  shows "got st \<and> k \<le> confs st \<and> e \<le> amount st"
  using assms report [OF assms(1)] credited_iff [OF assms(1)] by blast

end

interpretation xmr_source: payment_source
  "\<lambda>addr e. xmr_check_payment_with_confirmations (pe_xmr_node P) (cfg_monero (pe_config P)) addr e required_confirmations_xmr"
  ps_fork_detected received ps_confirmations ps_amount ps_address
proof unfold_locales
  fix addr e c c' and st :: payment_status
  assume "xmr_check_payment_with_confirmations (pe_xmr_node P) (cfg_monero (pe_config P)) addr e required_confirmations_xmr c = (Inr st, c')"
    "received st"
  then obtain ts where "st = xmr_find_payment addr e required_confirmations_xmr ts"
    by (auto simp: xmr_check_payment_with_confirmations_def then_do_Inr no_payment_def split: if_splits)
  with xmr_find_payment_received \<open>received st\<close> show "e \<le> ps_amount st \<and> ps_address st = Some addr \<and> \<not> ps_fork_detected st"
    by (fastforce simp: xmr_payment_of_def)
qed

lemma btc_find_payment_received:
  "bp_received (btc_find_payment a e k ts) \<Longrightarrow>
     \<exists>t\<in>set ts. btc_find_payment a e k ts = btc_funded (bt_amount t) (bt_confirmations t) (bt_tx_hash t) a
       \<and> bt_address t = a \<and> e \<le> bt_amount t \<and> 0 < e \<and> k \<le> bt_confirmations t"
  by (induction ts) (auto simp: not_received_def split: if_splits)

interpretation btc_source: payment_source
  "\<lambda>addr e. btc_check_payment_with_confirmations (pe_btc_node P) (cfg_bitcoin (pe_config P)) addr e required_confirmations_btc"
  bp_fork_detected bp_received bp_confirmations bp_amount bp_address
proof unfold_locales
  fix addr e c c' and st :: btc_payment_status
  assume "btc_check_payment_with_confirmations (pe_btc_node P) (cfg_bitcoin (pe_config P)) addr e required_confirmations_btc c = (Inr st, c')"
    "bp_received st"
  then obtain ts where "st = btc_find_payment addr e required_confirmations_btc ts"
    by (auto simp: btc_check_payment_with_confirmations_def then_do_Inr not_received_def split: if_splits)
  with btc_find_payment_received \<open>bp_received st\<close> show "e \<le> bp_amount st \<and> bp_address st = Some addr \<and> \<not> bp_fork_detected st"
    by (fastforce simp: btc_funded_def)
qed

section \<open>What the pass does to an order\<close>

text \<open>\<open>d0\<close> is the data the pass has read at its start, \<open>d\<close> and \<open>d'\<close> those of the row around the write.\<close>

definition asked :: "(string \<Rightarrow> nat option) \<Rightarrow> order_data \<Rightarrow> string \<Rightarrow> nat \<Rightarrow> bool" where
  "asked parse d0 addr e \<longleftrightarrow>
     escrow_address d0 = Some addr \<and> parse (unwrap_or (escrow_amount d0) ''0'') = Some e \<and> 0 < e"

definition overdue :: "int \<Rightarrow> order_data \<Rightarrow> bool" where
  "overdue now d0 \<longleftrightarrow> unwrap_or (expires_at d0) (wrap_i64 (now + 86400)) < now"

definition xmr_step :: "pay_env \<Rightarrow> int \<Rightarrow> order_data \<Rightarrow> order_data \<Rightarrow> order_data \<Rightarrow> bool" where
  "xmr_step P now d0 d d' \<longleftrightarrow> (\<exists>addr e c st c'. asked parse_xmr_amount_safe d0 addr e
     \<and> xmr_check_payment_with_confirmations (pe_xmr_node P) (cfg_monero (pe_config P)) addr e
         required_confirmations_xmr c = (Inr st, c')
     \<and> (received st \<and> e \<le> ps_amount st \<and> required_confirmations_xmr \<le> ps_confirmations st \<and> funds now d d'
        \<or> \<not> received st \<and> \<not> ps_fork_detected st \<and> overdue now d0 \<and> cancels d d'))"

definition btc_step :: "pay_env \<Rightarrow> int \<Rightarrow> order_data \<Rightarrow> order_data \<Rightarrow> order_data \<Rightarrow> bool" where
  "btc_step P now d0 d d' \<longleftrightarrow> (\<exists>addr e c st c'. asked parse_btc_amount_safe d0 addr e
     \<and> btc_check_payment_with_confirmations (pe_btc_node P) (cfg_bitcoin (pe_config P)) addr e
         required_confirmations_btc c = (Inr st, c')
     \<and> (bp_received st \<and> e \<le> bp_amount st \<and> required_confirmations_btc \<le> bp_confirmations st \<and> funds now d d'
        \<or> \<not> bp_received st \<and> \<not> bp_fork_detected st \<and> overdue now d0 \<and> cancels d d'))"

definition poll_step ::
    "ext \<Rightarrow> app \<Rightarrow> pay_env \<Rightarrow> int \<Rightarrow> bytes \<Rightarrow> order_data \<Rightarrow> order_data \<Rightarrow> order_data \<Rightarrow> bool" where
  "poll_step L A P now i d0 d d' =
     (case classify d0 of
        XmrOrder \<Rightarrow> xmr_step P now d0 d d'
      | BtcOrder \<Rightarrow> btc_step P now d0 d d'
      | Unsettled \<Rightarrow> settles L A P i d d'
      | NoWork \<Rightarrow> False)"

lemma verdict_Cancel:
  "verdict_of addr k now x fork got confs ret = Cancel \<Longrightarrow>
     \<not> fork \<and> \<not> got \<and> unwrap_or x (wrap_i64 (now + 86400)) < now"
  by (auto simp: verdict_of_def split: if_splits option.splits)

lemma with_client_orders [simp]:
  "ws_orders (snd (with_xmr f s)) = ws_orders s" "ws_orders (snd (with_btc g s)) = ws_orders s"
  by (simp_all add: with_xmr_def with_btc_def split_beta)

lemma with_client_call:
  "with_xmr f s = (r, s') \<Longrightarrow> (\<exists>c c'. f c = (r, c')) \<and> ws_orders s' = ws_orders s"
  "with_btc g s = (r', s') \<Longrightarrow> (\<exists>c c'. g c = (r', c')) \<and> ws_orders s' = ws_orders s"
  by (auto simp: with_xmr_def with_btc_def split_beta intro: prod.collapse [symmetric])

text \<open>The loop body of both currencies: it fails only before the client is called, and then writes nothing.\<close>

lemma client_check:
  fixes s :: worker_state
  assumes run: "run = (case escrow_address d0 of
       None \<Rightarrow> (Inr (), s)
     | Some addr \<Rightarrow>
        (case parse (unwrap_or (escrow_amount d0) ''0'') of
           None \<Rightarrow> (Inl Panicked, s)
         | Some e \<Rightarrow>
            (if e = 0 then (Inr (), s)
             else
               let (res, s) = call addr e s
               in case res of
                    Inl _ \<Rightarrow> (Inr (), s)
                  | Inr st \<Rightarrow>
                     (case verdict addr st of
                        Credit \<Rightarrow> ignore (credit addr st s)
                      | Cancel \<Rightarrow> ignore (cancel s)
                      | Leave \<Rightarrow> (Inr (), s)))))"
    and keeps: "\<And>addr e. ws_orders (snd (call addr e s)) = ws_orders s"
    and credit: "\<And>addr e st s'. asked parse d0 addr e \<Longrightarrow> call addr e s = (Inr st, s') \<Longrightarrow> verdict addr st = Credit
       \<Longrightarrow> row_step i R (ws_orders s') (ws_orders (snd (credit addr st s')))"
    and cancel: "\<And>addr e st s'. asked parse d0 addr e \<Longrightarrow> call addr e s = (Inr st, s') \<Longrightarrow> verdict addr st = Cancel
       \<Longrightarrow> row_step i R (ws_orders s') (ws_orders (snd (cancel s')))"
  shows "row_step i R (ws_orders s) (ws_orders (snd run)) \<and> (\<not> is_ok (fst run) \<longrightarrow> ws_orders (snd run) = ws_orders s)"
proof (cases "\<exists>addr e. asked parse d0 addr e")
  case True
  then obtain addr e where ask: "asked parse d0 addr e" by blast
  obtain res s' where c: "call addr e s = (res, s')" by (cases "call addr e s")
  then have s': "ws_orders s' = ws_orders s" using keeps [of addr e] by simp
  have "run = (case res of
                    Inl _ \<Rightarrow> (Inr (), s')
                  | Inr st \<Rightarrow>
                     (case verdict addr st of
                        Credit \<Rightarrow> ignore (credit addr st s')
                      | Cancel \<Rightarrow> ignore (cancel s')
                      | Leave \<Rightarrow> (Inr (), s')))"
    using ask c by (simp add: run asked_def)
  then show ?thesis
    using credit [OF ask] cancel [OF ask] c s' by (cases res) (auto split: verdict.split)
next
  case False
  then show ?thesis by (auto simp: run asked_def split: option.split)
qed

lemma check_xmr_order_step:
  "row_step (fst x) (data_step L A W (xmr_step P now (snd x))) (ws_orders s) (ws_orders (snd (check_xmr_order L A W P now x s)))
     \<and> (\<not> is_ok (fst (check_xmr_order L A W P now x s)) \<longrightarrow> ws_orders (snd (check_xmr_order L A W P now x s)) = ws_orders s)"
proof (cases x)
  case (Pair i d0)
  show ?thesis
    unfolding Pair fst_conv snd_conv
  proof (rule client_check [where s = s and ?d0.0 = d0 and parse = parse_xmr_amount_safe
        and call = "\<lambda>addr e. with_xmr (xmr_check_payment_with_confirmations (pe_xmr_node P) (cfg_monero (pe_config P)) addr e
            required_confirmations_xmr)"
        and verdict = "\<lambda>addr. xmr_verdict addr now (expires_at d0)"
        and credit = "\<lambda>addr st s. mark_order_funded L A W i now
            (snd (with_xmr (\<lambda>c. ((), record_payment_audit (xmr_audit L i addr now st) c)) s))"
        and cancel = "mark_order_cancelled L A W i",
        OF check_xmr_order_def [THEN fun_cong, of L A W P now "(i, d0)", unfolded split, THEN fun_cong, of s]])
    fix addr e st s'
    assume ask: "asked parse_xmr_amount_safe d0 addr e"
      and call: "with_xmr (xmr_check_payment_with_confirmations (pe_xmr_node P) (cfg_monero (pe_config P)) addr e
        required_confirmations_xmr) s = (Inr st, s')"
    obtain c c' where c: "xmr_check_payment_with_confirmations (pe_xmr_node P) (cfg_monero (pe_config P)) addr e
        required_confirmations_xmr c = (Inr st, c')"
      using with_client_call(1) [OF call] by blast
    {
      assume "xmr_verdict addr now (expires_at d0) st = Credit"
      then have "xmr_step P now d0 d d'" if "funds now d d'" for d d'
        using ask c xmr_source.credited_amount [OF c] that unfolding xmr_step_def xmr_verdict_def by blast
      then show "row_step i (data_step L A W (xmr_step P now d0)) (ws_orders s') (ws_orders (snd
          (mark_order_funded L A W i now (snd (with_xmr (\<lambda>c. ((), record_payment_audit (xmr_audit L i addr now st) c)) s')))))"
        using mark_order_funded_step [of i L A W now
            "snd (with_xmr (\<lambda>c. ((), record_payment_audit (xmr_audit L i addr now st) c)) s')"]
        by (auto intro: row_step_mono data_step_mono)
    }
    {
      assume "xmr_verdict addr now (expires_at d0) st = Cancel"
      then have "xmr_step P now d0 d d'" if "cancels d d'" for d d'
        using ask c verdict_Cancel that unfolding xmr_step_def xmr_verdict_def overdue_def by blast
      then show "row_step i (data_step L A W (xmr_step P now d0)) (ws_orders s') (ws_orders (snd (mark_order_cancelled L A W i s')))"
        by (auto intro: row_step_mono [OF mark_order_cancelled_step] data_step_mono)
    }
  qed simp
qed

lemma check_btc_order_step:
  "row_step (fst x) (data_step L A W (btc_step P now (snd x))) (ws_orders s) (ws_orders (snd (check_btc_order L A W P now x s)))
     \<and> (\<not> is_ok (fst (check_btc_order L A W P now x s)) \<longrightarrow> ws_orders (snd (check_btc_order L A W P now x s)) = ws_orders s)"
proof (cases x)
  case (Pair i d0)
  show ?thesis
    unfolding Pair fst_conv snd_conv
  proof (rule client_check [where s = s and ?d0.0 = d0 and parse = parse_btc_amount_safe
        and call = "\<lambda>addr e. with_btc (btc_check_payment_with_confirmations (pe_btc_node P) (cfg_bitcoin (pe_config P)) addr e
            required_confirmations_btc)"
        and verdict = "\<lambda>addr. btc_verdict addr now (expires_at d0)"
        and credit = "\<lambda>addr st. mark_order_funded L A W i now"
        and cancel = "mark_order_cancelled L A W i",
        OF check_btc_order_def [THEN fun_cong, of L A W P now "(i, d0)", unfolded split, THEN fun_cong, of s]])
    fix addr e st s'
    assume ask: "asked parse_btc_amount_safe d0 addr e"
      and call: "with_btc (btc_check_payment_with_confirmations (pe_btc_node P) (cfg_bitcoin (pe_config P)) addr e
        required_confirmations_btc) s = (Inr st, s')"
    obtain c c' where c: "btc_check_payment_with_confirmations (pe_btc_node P) (cfg_bitcoin (pe_config P)) addr e
        required_confirmations_btc c = (Inr st, c')"
      using with_client_call(2) [OF call] by blast
    {
      assume "btc_verdict addr now (expires_at d0) st = Credit"
      then have "btc_step P now d0 d d'" if "funds now d d'" for d d'
        using ask c btc_source.credited_amount [OF c] that unfolding btc_step_def btc_verdict_def by blast
      then show "row_step i (data_step L A W (btc_step P now d0)) (ws_orders s') (ws_orders (snd (mark_order_funded L A W i now s')))"
        by (auto intro: row_step_mono [OF mark_order_funded_step] data_step_mono)
    }
    {
      assume "btc_verdict addr now (expires_at d0) st = Cancel"
      then have "btc_step P now d0 d d'" if "cancels d d'" for d d'
        using ask c verdict_Cancel that unfolding btc_step_def btc_verdict_def overdue_def by blast
      then show "row_step i (data_step L A W (btc_step P now d0)) (ws_orders s') (ws_orders (snd (mark_order_cancelled L A W i s')))"
        by (auto intro: row_step_mono [OF mark_order_cancelled_step] data_step_mono)
    }
  qed simp
qed

interpretation xmr_pass: row_pass "check_xmr_order L A W P now" ws_orders fst
  "\<lambda>x r r'. r' = r \<or> data_step L A W (xmr_step P now (snd x)) r r'" o_id o_version
  by (rule row_step_pass) (use check_xmr_order_step in blast)+

interpretation btc_pass: row_pass "check_btc_order L A W P now" ws_orders fst
  "\<lambda>x r r'. r' = r \<or> data_step L A W (btc_step P now (snd x)) r r'" o_id o_version
  by (rule row_step_pass) (use check_btc_order_step in blast)+

interpretation settle_pass: row_pass "\<lambda>i s. ignore (retry_btc_settlement L A W P i s)" ws_orders "\<lambda>i. i"
  "\<lambda>i r r'. r' = r \<or> data_step L A W (settles L A P i) r r'" o_id o_version
  by (rule row_step_pass) (simp_all add: retry_btc_settlement_step)

text \<open>The work lists hold the rows of the snapshot, each at most once.\<close>

lemma work_items_mem:
  assumes "orders_wf rows" "(i, d0) \<in> set (work_items L sk key w rows)" "select_order i rows = Some r"
  shows "load_order_data L sk key r = Some d0" "classify d0 = w"
proof -
  obtain r' where r': "r' \<in> set rows" "load_order_data L sk key r' = Some d0" "classify d0 = w" "i = o_id r'"
    using assms(2) by (auto simp: work_items_def dest!: map_filter_mem split: option.splits if_splits)
  then have "r' = r" using assms(1,3) select_by_eq [of o_id rows r' i] by (simp add: orders_wf_def)
  with r' show "load_order_data L sk key r = Some d0" "classify d0 = w" by simp_all
qed

lemma work_items_distinct: "orders_wf rows \<Longrightarrow> distinct (map fst (work_items L sk key w rows))"
proof (induction rows)
  case (Cons r rows)
  have "fst ` set (work_items L sk key w rows) \<subseteq> o_id ` set rows"
    by (auto simp: work_items_def dest!: map_filter_mem split: option.splits if_splits)
  with Cons show ?case
    by (auto simp: work_items_def List.map_filter_simps orders_wf_def split: option.splits)
qed (simp add: work_items_def List.map_filter_simps)

text \<open>\<^verbatim>\<open>HashMap::into_keys\<close> yields every key once.\<close>

definition hash_keys_ok :: "pay_env \<Rightarrow> bool" where
  "hash_keys_ok P \<longleftrightarrow> (\<forall>ks. distinct ks \<longrightarrow> distinct (pe_keys_order P ks) \<and> set (pe_keys_order P ks) = set ks)"

lemma init_client_orders [simp]:
  "ws_orders (get_or_init_xmr_client s) = ws_orders s" "ws_orders (get_or_init_btc_client s) = ws_orders s"
  by (simp_all add: get_or_init_xmr_client_def get_or_init_btc_client_def)

text \<open>What a phase of the pass over one work list does to a row of the snapshot.\<close>

definition phase ::
    "ext \<Rightarrow> app \<Rightarrow> wenv \<Rightarrow> pay_env \<Rightarrow> int \<Rightarrow> bytes \<Rightarrow> bytes \<Rightarrow> work \<Rightarrow> bytes \<Rightarrow> order \<Rightarrow> order \<Rightarrow> order \<Rightarrow> bool" where
  "phase L A W P now sk key w i r r1 r' \<longleftrightarrow> r' = r1 \<or> (\<exists>d0. load_order_data L sk key r = Some d0 \<and> classify d0 = w
     \<and> data_step L A W (poll_step L A P now i d0) r1 r')"

lemma phase_stay [simp]: "phase L A W P now sk key w i r r1 r1"
  by (simp add: phase_def)

lemma phase_item:
  assumes "orders_wf rows" "(i, d0) \<in> set (work_items L sk key w rows)" "select_order i rows = Some r"
    and "data_step L A W D r1 r'" "classify d0 = w \<Longrightarrow> D = poll_step L A P now i d0"
  shows "phase L A W P now sk key w i r r1 r'"
  using work_items_mem [OF assms(1-3)] assms(4,5) unfolding phase_def by blast

lemma phase_items:
  assumes "orders_wf rows" "select_order i rows = Some r"
  shows "(i, d0) \<in> set (work_items L sk key XmrOrder rows) \<Longrightarrow> data_step L A W (xmr_step P now d0) r1 r'
      \<Longrightarrow> phase L A W P now sk key XmrOrder i r r1 r'"
    and "(i, d0) \<in> set (work_items L sk key BtcOrder rows) \<Longrightarrow> data_step L A W (btc_step P now d0) r1 r'
      \<Longrightarrow> phase L A W P now sk key BtcOrder i r r1 r'"
    and "(i, d0) \<in> set (work_items L sk key Unsettled rows) \<Longrightarrow> data_step L A W (settles L A P i) r1 r'
      \<Longrightarrow> phase L A W P now sk key Unsettled i r r1 r'"
  by (rule phase_item [OF assms(1) _ assms(2)], assumption+, simp add: poll_step_def fun_eq_iff)+

lemma phase_row:
  assumes "orders_wf rows" "select_order i rows = Some r" "select_order i (ws_orders s) = Some r1" "orders_wf (ws_orders s)"
  shows xmr_phase: "\<exists>r'. select_order i (ws_orders (snd (check_xmr_payments L A W P now (work_items L sk key XmrOrder rows) s))) = Some r'
      \<and> phase L A W P now sk key XmrOrder i r r1 r'"
    and btc_phase: "\<exists>r'. select_order i (ws_orders (snd (check_btc_payments L A W P now (work_items L sk key BtcOrder rows) s))) = Some r'
      \<and> phase L A W P now sk key BtcOrder i r r1 r'"
    and settle_phase: "hash_keys_ok P \<Longrightarrow> \<exists>r'. select_order i (ws_orders (snd (for_each (\<lambda>i s. ignore (retry_btc_settlement L A W P i s))
          (pe_keys_order P (map fst (work_items L sk key Unsettled rows))) s))) = Some r'
      \<and> phase L A W P now sk key Unsettled i r r1 r'"
proof -
  note distinct = work_items_distinct [OF assms(1)] and item = phase_items [OF assms(1,2)]
  let ?s = "snd (check_xmr_payments L A W P now (work_items L sk key XmrOrder rows) s)"
  obtain r' where "select_order i (ws_orders ?s) = Some r'" "r' = r1 \<or> (\<exists>x\<in>set (work_items L sk key XmrOrder rows).
      fst x = i \<and> (r' = r1 \<or> data_step L A W (xmr_step P now (snd x)) r1 r'))"
    unfolding check_xmr_payments_def using xmr_pass.pass_any [folded orders_wf_def, OF assms(4) distinct assms(3)] by blast
  then show "\<exists>r'. select_order i (ws_orders ?s) = Some r' \<and> phase L A W P now sk key XmrOrder i r r1 r'"
    by (auto intro: item)
  let ?s = "snd (check_btc_payments L A W P now (work_items L sk key BtcOrder rows) s)"
  obtain r' where "select_order i (ws_orders ?s) = Some r'" "r' = r1 \<or> (\<exists>x\<in>set (work_items L sk key BtcOrder rows).
      fst x = i \<and> (r' = r1 \<or> data_step L A W (btc_step P now (snd x)) r1 r'))"
    unfolding check_btc_payments_def using btc_pass.pass_any [folded orders_wf_def, OF assms(4) distinct assms(3)] by blast
  then show "\<exists>r'. select_order i (ws_orders ?s) = Some r' \<and> phase L A W P now sk key BtcOrder i r r1 r'"
    by (auto intro: item)
  let ?ks = "pe_keys_order P (map fst (work_items L sk key Unsettled rows))"
  assume "hash_keys_ok P"
  then have ks: "distinct (map (\<lambda>i. i) ?ks)" "set ?ks = fst ` set (work_items L sk key Unsettled rows)"
    using distinct by (simp_all add: hash_keys_ok_def)
  obtain r' where "select_order i (ws_orders (snd (for_each (\<lambda>i s. ignore (retry_btc_settlement L A W P i s)) ?ks s))) = Some r'"
      "r' = r1 \<or> (i \<in> set ?ks \<and> (r' = r1 \<or> data_step L A W (settles L A P i) r1 r'))"
    using settle_pass.pass_any [folded orders_wf_def, OF assms(4) ks(1) assms(3)] by blast
  then show "\<exists>r'. select_order i (ws_orders (snd (for_each (\<lambda>i s. ignore (retry_btc_settlement L A W P i s)) ?ks s))) = Some r'
      \<and> phase L A W P now sk key Unsettled i r r1 r'"
    unfolding ks(2) by (auto intro: item)
qed

text \<open>The pass changes a row in at most one of its phases, since a work list holds only its own class.\<close>

definition polled :: "ext \<Rightarrow> app \<Rightarrow> wenv \<Rightarrow> pay_env \<Rightarrow> int \<Rightarrow> bytes \<Rightarrow> bytes \<Rightarrow> work set \<Rightarrow> bytes \<Rightarrow> order \<Rightarrow> order \<Rightarrow> bool" where
  "polled L A W P now sk key ws i r r' \<longleftrightarrow> r' = r \<or> (\<exists>d0. load_order_data L sk key r = Some d0 \<and> classify d0 \<in> ws
     \<and> data_step L A W (poll_step L A P now i d0) r r')"

lemma polled_stay [simp]: "polled L A W P now sk key ws i r r"
  by (simp add: polled_def)

lemma polled_phase:
  "polled L A W P now sk key ws i r r1 \<Longrightarrow> phase L A W P now sk key w i r r1 r' \<Longrightarrow> w \<notin> ws
     \<Longrightarrow> polled L A W P now sk key (insert w ws) i r r'"
  by (auto simp: polled_def phase_def)

lemma polled_mono: "polled L A W P now sk key ws i r r' \<Longrightarrow> ws \<subseteq> ws' \<Longrightarrow> polled L A W P now sk key ws' i r r'"
  by (auto simp: polled_def)

text \<open>The first two phases, each after its fork check.\<close>

lemma credit_phases:
  assumes "orders_wf rows" "select_order i rows = Some r" "ws_orders s = rows"
    and run: "run = then_do
         (let (fork, s) = with_xmr (xmr_check_for_fork (pe_xmr_node P) (cfg_monero (pe_config P))) s
          in if fork = Inr False then check_xmr_payments L A W P now (work_items L sk key XmrOrder rows) s else (Inr (), s))
         (\<lambda>_ s. let (fork, s) = with_btc (btc_check_for_fork (pe_btc_node P) (cfg_bitcoin (pe_config P))) s
          in if fork = Inr False then check_btc_payments L A W P now (work_items L sk key BtcOrder rows) s else (Inr (), s))"
  shows "\<exists>r'. select_order i (ws_orders (snd run)) = Some r' \<and> orders_wf (ws_orders (snd run))
     \<and> polled L A W P now sk key {XmrOrder, BtcOrder} i r r'"
proof -
  obtain fork s1 where s1: "with_xmr (xmr_check_for_fork (pe_xmr_node P) (cfg_monero (pe_config P))) s = (fork, s1)"
    by fastforce
  then have o1: "ws_orders s1 = rows" using with_client_call(1) [OF s1] assms(3) by simp
  let ?p = "if fork = Inr False then check_xmr_payments L A W P now (work_items L sk key XmrOrder rows) s1 else (Inr (), s1)"
  have "\<exists>r1. select_order i (ws_orders (snd ?p)) = Some r1 \<and> phase L A W P now sk key XmrOrder i r r r1"
    using xmr_phase [OF assms(1,2), of s1 r L A W P now sk key] o1 assms(1,2) by (cases "fork = Inr False") auto
  then obtain r1 where r1: "select_order i (ws_orders (snd ?p)) = Some r1" "polled L A W P now sk key {XmrOrder} i r r1"
    using polled_phase [OF polled_stay, of L A W P now sk key XmrOrder i r _ "{}"] by auto
  have wf1: "orders_wf (ws_orders (snd ?p))"
    using xmr_pass.pass_wf [folded orders_wf_def, of s1] assms(1) o1 by (simp add: check_xmr_payments_def)
  show ?thesis
  proof (cases "fst ?p")
    case (Inl e)
    then show ?thesis using r1 wf1 polled_mono [OF r1(2)] by (auto simp: run s1 then_do_def)
  next
    case (Inr u)
    obtain fork2 s2 where s2: "with_btc (btc_check_for_fork (pe_btc_node P) (cfg_bitcoin (pe_config P))) (snd ?p) = (fork2, s2)"
      by fastforce
    then have o2: "ws_orders s2 = ws_orders (snd ?p)" using with_client_call(2) [OF s2] by simp
    let ?q = "if fork2 = Inr False then check_btc_payments L A W P now (work_items L sk key BtcOrder rows) s2 else (Inr (), s2)"
    have q: "run = ?q" using Inr by (simp add: run s1 s2 then_do_def)
    have "\<exists>r2. select_order i (ws_orders (snd ?q)) = Some r2 \<and> phase L A W P now sk key BtcOrder i r r1 r2"
      using btc_phase [OF assms(1,2), of s2 r1 L A W P now sk key] o2 r1(1) wf1 by (cases "fork2 = Inr False") auto
    moreover have "orders_wf (ws_orders (snd ?q))"
      using btc_pass.pass_wf [folded orders_wf_def, of s2] wf1 o2 by (simp add: check_btc_payments_def)
    ultimately show ?thesis
      using polled_phase [OF r1(2), of BtcOrder] unfolding q by (auto simp: insert_commute)
  qed
qed

lemma poll_row:
  assumes "hash_keys_ok P" "app_worker_key A = Some key" "orders_wf (ws_orders s)" "select_order i (ws_orders s) = Some r"
  shows "\<exists>r'. select_order i (ws_orders (snd (check_pending_payments L A W P s))) = Some r'
     \<and> (r' = r \<or> (\<exists>sk. derive_domain_key L key ''payment-decrypt'' = Some sk
           \<and> polled L A W P (floor_timestamp_6h (w_time W)) sk key UNIV i r r'))"
proof (cases "w_load_fault W = None \<and> (\<exists>sk. derive_domain_key L key ''payment-decrypt'' = Some sk)")
  case False
  then show ?thesis
    using assms(2,4) by (auto simp: check_pending_payments_def get_worker_key_def Let_def split: option.split)
next
  case True
  then obtain sk where sk: "w_load_fault W = None" "derive_domain_key L key ''payment-decrypt'' = Some sk" by blast
  let ?rows = "ws_orders s" and ?s = "get_or_init_btc_client (get_or_init_xmr_client s)" and ?now = "floor_timestamp_6h (w_time W)"
  let ?items = "\<lambda>w. work_items L sk key w ?rows"
  define credits where "credits = then_do
         (let (fork, s) = with_xmr (xmr_check_for_fork (pe_xmr_node P) (cfg_monero (pe_config P))) ?s
          in if fork = Inr False then check_xmr_payments L A W P ?now (?items XmrOrder) s else (Inr (), s))
         (\<lambda>_ s. let (fork, s) = with_btc (btc_check_for_fork (pe_btc_node P) (cfg_bitcoin (pe_config P))) s
          in if fork = Inr False then check_btc_payments L A W P ?now (?items BtcOrder) s else (Inr (), s))"
  let ?p = "if ?items XmrOrder \<noteq> [] \<or> ?items BtcOrder \<noteq> [] then credits else (Inr (), ?s)"
  let ?retry = "for_each (\<lambda>i s. ignore (retry_btc_settlement L A W P i s)) (pe_keys_order P (map fst (?items Unsettled)))"
  have run: "check_pending_payments L A W P s = then_do ?p (\<lambda>_. ?retry)"
    unfolding check_pending_payments_def Let_def credits_def using sk assms(2) by (simp add: get_worker_key_def Let_def)
  obtain r1 where r1: "select_order i (ws_orders (snd ?p)) = Some r1" "orders_wf (ws_orders (snd ?p))"
    "polled L A W P ?now sk key {XmrOrder, BtcOrder} i r r1"
    using credit_phases [OF assms(3,4) _ credits_def] assms(3,4) by (cases "?items XmrOrder \<noteq> [] \<or> ?items BtcOrder \<noteq> []") auto
  obtain r2 where "select_order i (ws_orders (snd (?retry (snd ?p)))) = Some r2" "phase L A W P ?now sk key Unsettled i r r1 r2"
    using settle_phase [OF assms(3,4) r1(1,2) assms(1)] by blast
  with polled_phase [OF r1(3)] have "polled L A W P ?now sk key UNIV i r r2"
    by (auto intro: polled_mono)
  with r1 polled_mono [OF r1(3)] show ?thesis
    using \<open>select_order i (ws_orders (snd (?retry (snd ?p)))) = Some r2\<close> sk(2)
    unfolding run by (cases "fst ?p") (auto simp: then_do_def)
qed

section \<open>Properties\<close>

definition demo_pay_env :: pay_env where
  "demo_pay_env = \<lparr>pe_config = default_config, pe_xmr_node = demo_node 20 (\<lambda>_. ''a'') [demo_tx],
     pe_btc_node = demo_btc_node JNull, pe_crates = demo_crates, pe_keys_order = id\<rparr>"

definition demo_ordered :: order_data where
  "demo_ordered = demo_order\<lparr>escrow_amount := Some ''0.001''\<rparr>"

definition demo_paid :: order_data where
  "demo_paid = demo_ordered\<lparr>order_state := ''funded'', funded_at := Some 7\<rparr>"

definition demo_workers :: "order \<Rightarrow> worker_state" where
  "demo_workers r = \<lparr>ws_orders = [r], ws_xmr = None, ws_btc = None, ws_sent = []\<rparr>"

lemma demo_pay_env_ok: "hash_keys_ok demo_pay_env" "app_worker_key demo_app = Some (replicate 32 3)"
  by (simp_all add: hash_keys_ok_def demo_pay_env_def demo_app_def)

lemma demo_row_ok: "orders_wf (ws_orders (demo_workers (new_order_row [1] b t e)))"
  "select_order [1] (ws_orders (demo_workers (new_order_row [1] b t e))) = Some (new_order_row [1] b t e)"
  by (simp_all add: demo_workers_def orders_wf_def select_by_def new_order_row_def)

lemma demo_asked: "asked parse_xmr_amount_safe demo_ordered ''addr'' 1000000000"
proof -
  have d: "digits ''0''" "digits ''001''" by (simp_all add: is_digit_def)
  have "digits_val ''0'' = 0" "digits_val ''001'' = 1" by (simp_all add: digits_val_def digit_val_def)
  with numeral_shape [OF d] parse_or_0_digits [OF d(1)] decimal_fraction_digits [OF d(2), of 12]
  have "parse_xmr_amount_safe ''0.001'' = Some 1000000000"
    by (simp add: parse_xmr_amount_safe_def parse_decimal_string_to_int_def pow10_12 u64_max_def
        saturating_mul_u64_def saturating_add_u64_def)
  then show ?thesis by (simp add: asked_def demo_ordered_def demo_order_def)
qed

lemma demo_payment:
  "\<exists>st c. xmr_check_payment_with_confirmations (demo_node 20 (\<lambda>_. ''a'') [demo_tx]) C s 1000000000 10 new_xmr_client = (Inr st, c)
     \<and> received st \<and> ps_confirmations st = 15"
proof -
  let ?N = "demo_node 20 (\<lambda>_. ''a'') [demo_tx]"
  note calls = serves_chain_calls [OF demo_serves, of 20 "\<lambda>_. ''a''" "[demo_tx]"]
  obtain c1 where c1: "xmr_check_for_fork ?N C new_xmr_client = (Inr False, c1)"
    by (simp add: xmr_check_for_fork_def calls new_xmr_client_def)
  have tr: "xmr_transfers_of s 20 (JObject [(''txs'', JArray [demo_tx])]) =
      [\<lparr>xt_tx_hash = ''t'', xt_address = s, xt_amount = 2000000000, xt_confirmations = 15, xt_timestamp = 0, xt_block_height = 5\<rparr>]"
    by (simp add: xmr_transfers_of_def List.map_filter_def xmr_transfer_of_def demo_tx_def json_index_def
        is_incoming_def starts_with_def min_payment_piconero_def)
  show ?thesis
    using tr demo_txs [of 20 "\<lambda>_. ''a''" "[demo_tx]"]
    by (auto simp: xmr_check_payment_with_confirmations_def c1 xmr_get_incoming_transfers_def calls then_do_def
        xmr_payment_of_def min_payment_piconero_def)
qed

text \<open>
  C27. A pass of the payment poller changes an order in one way at most, and writes one new
  version of it.  A pending Monero or Bitcoin order becomes funded only when its client, asked about the order's
  address and amount, reported at least that amount with at least ten or six confirmations; it
  becomes cancelled only when the client reported no payment and no fork and the expiry is over; a
  released Bitcoin order gets the transaction id of its settlement.  Nothing else is ever written,
  also when the pass fails.
\<close>

theorem funded_only_when_paid:
  assumes "worker_laws L W" "hash_keys_ok P" "app_worker_key A = Some key"
    and "orders_wf (ws_orders s)" "select_order i (ws_orders s) = Some r"
    and "check_pending_payments L A W P s = (res, s')"
  shows "\<exists>r'. select_order i (ws_orders s') = Some r' \<and> (r' = r \<or>
     (\<exists>sk d0 d d'. derive_domain_key L key ''payment-decrypt'' = Some sk \<and> load_order_data L sk key r = Some d0
        \<and> open_order L key r = Some d \<and> open_order L key r' = Some d' \<and> o_version r' = o_version r + 1
        \<and> (classify d0 = XmrOrder \<and> xmr_step P (floor_timestamp_6h (w_time W)) d0 d d'
           \<or> classify d0 = BtcOrder \<and> btc_step P (floor_timestamp_6h (w_time W)) d0 d d'
           \<or> classify d0 = Unsettled \<and> settles L A P i d d')))"
proof -
  obtain r' where r': "select_order i (ws_orders s') = Some r'" "r' = r \<or> (\<exists>sk. derive_domain_key L key ''payment-decrypt'' = Some sk
      \<and> polled L A W P (floor_timestamp_6h (w_time W)) sk key UNIV i r r')"
    using poll_row [OF assms(2-5), of L W] assms(6) by auto
  show ?thesis
  proof (cases "r' = r")
    case False
    then obtain sk d0 d d' where "derive_domain_key L key ''payment-decrypt'' = Some sk" "load_order_data L sk key r = Some d0"
      "poll_step L A P (floor_timestamp_6h (w_time W)) i d0 d d'" "open_order L key r = Some d" "rewritten L key d' r r'"
      using r'(2) assms(1,3) by (auto simp: polled_def data_step_def)
    then show ?thesis using r'(1)
      by (cases "classify d0") (auto simp: poll_step_def rewritten_def)
  qed (use r' in simp)
qed

lemma funded_only_when_paid_witness:
  "let L = demo_worker [demo_ordered, demo_paid]; r = new_order_row [1] (demo_blob 0) 0 None;
       s' = snd (check_pending_payments L demo_app (demo_wenv 7) demo_pay_env (demo_workers r))
   in \<exists>r'. select_order [1] (ws_orders s') = Some r' \<and> (r' = r \<or> (\<exists>d'. open_order L (replicate 32 3) r' = Some d'))"
  using funded_only_when_paid [OF demo_worker_laws [of _ 7] demo_pay_env_ok demo_row_ok prod.collapse [symmetric],
      of "[demo_ordered, demo_paid]" "demo_blob 0" 0 None]
  unfolding Let_def by blast



text \<open>
  C28. A paid order is funded: when the row opens to a pending order, the client reports the amount with
  ten confirmations for it, and sealing and the database work, the visit succeeds, writes the funded
  order as the row's next version with its expiry bucket, announces the order's id and keeps an audit record.
\<close>

theorem paid_order_funded:
  assumes "worker_laws L W" "app_worker_key A = Some key" "orders_wf (ws_orders s)" "select_order i (ws_orders s) = Some r"
    and "open_order L key r = Some d" "order_state d = ''pending''" "w_read_fault W i = None" "w_write_fault W i = None"
    and "seal_order L W key i (d\<lparr>order_state := ''funded'', funded_at := Some now\<rparr>) = Inr blob"
    and "asked parse_xmr_amount_safe d0 addr e"
    and "xmr_check_payment_with_confirmations (pe_xmr_node P) (cfg_monero (pe_config P)) addr e 10
          (unwrap_or (ws_xmr s) new_xmr_client) = (Inr st, c)"
    and "received st" "10 \<le> ps_confirmations st"
    and "check_xmr_order L A W P now (i, d0) s = (res, s')"
  shows "res = Inr () \<and> (\<exists>r'. select_order i (ws_orders s') = Some r'
       \<and> open_order L key r' = Some (d\<lparr>order_state := ''funded'', funded_at := Some now\<rparr>)
       \<and> o_version r' = o_version r + 1 \<and> expiry_bucket r' = map_option floor_timestamp_6h (expires_at d))
     \<and> ws_sent s' = ws_sent s @ [hex_encode L i]
     \<and> pending_audits (the (ws_xmr s')) = pending_audits c @ [xmr_audit L i addr now st]"
proof -
  let ?d = "d\<lparr>order_state := ''funded'', funded_at := Some now\<rparr>"
  let ?s = "s\<lparr>ws_xmr := Some (record_payment_audit (xmr_audit L i addr now st) c)\<rparr>"
  let ?r = "apply_order_write (set_blob_expiry ?d blob) r"
  have "xmr_verdict addr now (expires_at d0) st = Credit"
    using xmr_source.credited_iff assms(11-13) unfolding xmr_verdict_def required_confirmations_xmr_def by fastforce
  then have "check_xmr_order L A W P now (i, d0) s = ignore (mark_order_funded L A W i now ?s)"
    using assms(10,11) by (simp add: check_xmr_order_def asked_def with_xmr_def required_confirmations_xmr_def)
  moreover have "o_id r = i" using assms(4) by (auto dest: select_by_Some)
  moreover have "read_order L A W i (ws_orders s) = Inr (key, r, d)"
    using assms(2,4,5,7) by (auto simp: read_order_def open_order_def split: option.splits sum.splits)
  moreover have "select_order i (snd (write_order L W key i ?d (o_version r) (ws_orders s))) = Some ?r"
    using checked_update_row [OF assms(3,4)] checked_update_ok [OF assms(3,4)] assms(8,9)
    by (simp add: write_order_def write_sealed_def)
  moreover have "rewritten L key ?d r ?r"
    using sealed_rewritten [of L W key r ?d blob "set_blob_expiry ?d"] assms(1,9) \<open>o_id r = i\<close> by simp
  ultimately show ?thesis
    using assms(6,14) by (auto simp: mark_order_funded_def Let_def on_orders_def rewritten_def record_payment_audit_def
        apply_order_write_def ignore_def)
qed

lemma paid_order_funded_witness:
  "let L = demo_worker [demo_ordered, demo_paid]; r = new_order_row [1] (demo_blob 0) 0 None;
       (res, s') = check_xmr_order L demo_app (demo_wenv 7) demo_pay_env 7 ([1], demo_ordered) (demo_workers r)
   in res = Inr () \<and> (\<exists>r'. select_order [1] (ws_orders s') = Some r' \<and> open_order L (replicate 32 3) r' = Some demo_paid)"
proof -
  let ?L = "demo_worker [demo_ordered, demo_paid]" and ?r = "new_order_row [1] (demo_blob 0) 0 None"
  obtain res s' where run: "check_xmr_order ?L demo_app (demo_wenv 7) demo_pay_env 7 ([1], demo_ordered) (demo_workers ?r) = (res, s')"
    by fastforce
  have op: "open_order ?L (replicate 32 3) ?r = Some demo_ordered"
    using demo_open [of ?r 0 "[demo_ordered, demo_paid]"] by (simp add: new_order_row_def)
  have paid: "demo_paid = demo_ordered\<lparr>order_state := ''funded'', funded_at := Some 7\<rparr>" by (simp add: demo_paid_def)
  have "demo_to_json [demo_ordered, demo_paid] demo_paid = Some (replicate (Suc 0) 0)"
    by (simp add: demo_to_json_def upt_rec demo_paid_def demo_ordered_def demo_order_def)
  then have seal: "seal_order ?L (demo_wenv 7) (replicate 32 3) [1] (demo_ordered\<lparr>order_state := ''funded'', funded_at := Some 7\<rparr>)
      = Inr (demo_blob (Suc 0))"
    unfolding paid [symmetric] by (rule demo_seal)
  have plain: "order_state demo_ordered = ''pending''" "w_read_fault (demo_wenv 7) [1] = None" "w_write_fault (demo_wenv 7) [1] = None"
    by (simp_all add: demo_ordered_def demo_order_def demo_wenv_def)
  obtain st c where pay: "xmr_check_payment_with_confirmations (pe_xmr_node demo_pay_env) (cfg_monero (pe_config demo_pay_env)) ''addr''
       1000000000 10 (unwrap_or (ws_xmr (demo_workers ?r)) new_xmr_client) = (Inr st, c)" "received st" "10 \<le> ps_confirmations st"
    using demo_payment by (fastforce simp: demo_pay_env_def demo_workers_def)
  from paid_order_funded [OF demo_worker_laws demo_pay_env_ok(2) demo_row_ok op plain seal demo_asked pay run, folded paid]
  show ?thesis unfolding Let_def run split by blast
qed

text \<open>
  C30. Against a Bitcoin Core node no Bitcoin order is ever credited or cancelled: the client unwraps the
  answer and then looks for a second \<^verbatim>\<open>result\<close> inside it, so that the block count never parses, the
  fork check fails and the row of a pending Bitcoin order stays as it is.
\<close>

theorem btc_orders_never_credited:
  assumes "core_block_count (pe_btc_node P) (cfg_bitcoin (pe_config P))"
    and "hash_keys_ok P" "app_worker_key A = Some key" "orders_wf (ws_orders s)" "select_order i (ws_orders s) = Some r"
    and "derive_domain_key L key ''payment-decrypt'' = Some sk" "load_order_data L sk key r = Some d0" "classify d0 = BtcOrder"
  shows "select_order i (ws_orders (snd (check_pending_payments L A W P s))) = Some r"
proof -
  have "\<not> btc_step P now d0 d d'" for now d d'
    using core_check [OF assms(1)] unfolding btc_step_def by (metis fst_conv is_ok_simps(1))
  then have "\<not> data_step L A W (poll_step L A P now i d0) r r'" for now r'
    using assms(8) by (simp add: data_step_def poll_step_def)
  then show ?thesis
    using poll_row [OF assms(2-5), of L W] assms(6,7) by (auto simp: polled_def)
qed

lemma btc_orders_never_credited_witness:
  "let d = demo_order\<lparr>currency := ''BTC''\<rparr>; L = demo_worker [d]; r = new_order_row [1] (demo_blob 0) 0 None;
       P = demo_pay_env\<lparr>pe_btc_node := demo_btc_node (JPosInt 800000)\<rparr>
   in select_order [1] (ws_orders (snd (check_pending_payments L demo_app (demo_wenv 7) P (demo_workers r)))) = Some r"
proof -
  let ?d = "demo_order\<lparr>currency := ''BTC''\<rparr>" and ?r = "new_order_row [1] (demo_blob 0) 0 None"
  let ?P = "demo_pay_env\<lparr>pe_btc_node := demo_btc_node (JPosInt 800000)\<rparr>"
  have "core_block_count (pe_btc_node ?P) (cfg_bitcoin (pe_config ?P))"
    by (simp add: core_block_count_def rpc_exchange_def demo_btc_node_def rpc_error_def json_index_def)
  moreover have "hash_keys_ok ?P" by (simp add: hash_keys_ok_def demo_pay_env_def)
  moreover obtain sk where "derive_domain_key (demo_worker [?d]) (replicate 32 3) ''payment-decrypt'' = Some sk"
    by (simp add: derive_domain_key_def demo_worker_def demo_ext_sel)
  moreover have "load_order_data (demo_worker [?d]) sk' (replicate 32 3) ?r = Some ?d" for sk'
    using demo_open [of ?r 0 "[?d]" "replicate 32 3"]
    by (simp add: load_order_data_def decrypt_ecdh_blob_def demo_blob_def new_order_row_def open_order_def split: option.splits sum.splits)
  moreover have "classify ?d = BtcOrder" by (simp add: classify_def demo_order_def)
  ultimately show ?thesis
    unfolding Let_def by (intro btc_orders_never_credited [OF _ _ demo_pay_env_ok(2) demo_row_ok])
qed

end
