(* ===== verification/Notification_Scanner.thy ===== *)
theory Notification_Scanner
  imports Sealed_Orders Settlement
begin

text \<open>
  \<^verbatim>\<open>src/src/background/notification_scanner.rs\<close>: the worker pass that looks for payment announcements
  in \<^verbatim>\<open>OP_RETURN\<close> outputs and gives the order named there its stealth address.
\<close>

section \<open>State and environment\<close>

record scan_state =
  sc_orders :: orders
  sc_tracker :: "notification_tracker list"
  sc_client :: btc_client
  sc_last_block :: "string option"

text \<open>The Bitcoin node, the crates, and the errors of the statements on the tracker table.\<close>

record scan_env =
  se_node :: node
  se_config :: bitcoin_config
  se_crates :: btclib
  se_tracker_read :: "bytes \<Rightarrow> string option"
  se_tracker_write :: "bytes \<Rightarrow> string option"

text \<open>A call of the Bitcoin client within the scan.\<close>

definition with_client :: "(btc_client \<Rightarrow> 'a \<times> btc_client) \<Rightarrow> scan_state \<Rightarrow> 'a \<times> scan_state" where
  "with_client f s = (let (r, c) = f (sc_client s) in (r, s\<lparr>sc_client := c\<rparr>))"

section \<open>Announcements\<close>

definition notification_magic :: bytes where
  "notification_magic = as_bytes ''bobN''"

fun extract_notification :: "ext \<Rightarrow> decoded_vout list \<Rightarrow> (bytes \<times> bytes) option" where
  "extract_notification L [] = None"
| "extract_notification L (v # vs) =
     (case ds_type (script_pub_key v) of
        None \<Rightarrow> None
      | Some script_type \<Rightarrow>
         (if script_type \<noteq> ''nulldata'' then extract_notification L vs
          else case ds_asm (script_pub_key v) of
                 None \<Rightarrow> None
               | Some asm \<Rightarrow>
                  (case strip_prefix ''OP_RETURN '' asm of
                     None \<Rightarrow> None
                   | Some rest \<Rightarrow>
                      (case hex_decode L (trim rest) of
                         None \<Rightarrow> None
                       | Some bs \<Rightarrow>
                          (if take (length notification_magic) bs \<noteq> notification_magic then extract_notification L vs
                           else let payload = drop (length notification_magic) bs
                                in if length payload < 65 then extract_notification L vs
                                   else Some (take 32 payload, take 33 (drop 32 payload)))))))"

section \<open>The scan\<close>

text \<open>The announcement of a transaction: both calls' errors and a missing announcement skip it.\<close>

definition fetch_notification ::
    "ext \<Rightarrow> scan_env \<Rightarrow> string \<Rightarrow> scan_state \<Rightarrow> (bytes \<times> bytes) option \<times> scan_state" where
  "fetch_notification L S t s =
     (case with_client (get_raw_transaction (se_node S) (se_config S) t) s of
        (Inl _, s) \<Rightarrow> (None, s)
      | (Inr raw, s) \<Rightarrow>
         (case with_client (decode_raw_transaction (se_node S) (se_config S) raw) s of
            (Inl _, s) \<Rightarrow> (None, s)
          | (Inr decoded, s) \<Rightarrow> (extract_notification L (dt_vout decoded), s)))"

text \<open>The order's data as it will be written, if the order can be given an address.\<close>

definition notified_data ::
    "ext \<Rightarrow> scan_env \<Rightarrow> btc_network \<Rightarrow> bytes \<Rightarrow> bytes \<Rightarrow> bytes \<Rightarrow> order \<Rightarrow> scan_state \<Rightarrow> order_data option \<times> scan_state" where
  "notified_data L S net key oid pk r s =
     (case open_order L key r of
        None \<Rightarrow> (None, s)
      | Some d \<Rightarrow>
         (if escrow_address d \<noteq> None then (None, s)
          else if \<not> is_ok (parse_secp_pubkey L (se_crates S) (hex_encode L pk)) then (None, s)
          else case with_client (create_stealth_address_for_order L (se_crates S) (se_node S) (se_config S)
                      (hex_encode L pk) key oid net) s of
                 (Inl _, s) \<Rightarrow> (None, s)
               | (Inr stealth_addr, s) \<Rightarrow>
                  (Some (d\<lparr>escrow_address := Some stealth_addr, buyer_pubkey := Some (hex_encode L pk)\<rparr>), s)))"

text \<open>\<^verbatim>\<open>INSERT OR IGNORE INTO notification_tracker\<close>.\<close>

definition track ::
    "scan_env \<Rightarrow> notification_tracker \<Rightarrow> scan_state \<Rightarrow> (string + unit) \<times> scan_state" where
  "track S n s =
     (case se_tracker_write S (tx_hash n) of
        Some e \<Rightarrow> (Inl e, s)
      | None \<Rightarrow> (Inr (), s\<lparr>sc_tracker := (case insert_row tx_hash n (sc_tracker s) of Some ns \<Rightarrow> ns | None \<Rightarrow> sc_tracker s)\<rparr>))"

text \<open>The write under the version read earlier, whose affected rows nobody counts, and the tracker entry.\<close>

definition record_notification ::
    "ext \<Rightarrow> wenv \<Rightarrow> scan_env \<Rightarrow> bytes \<Rightarrow> bytes \<Rightarrow> bytes \<Rightarrow> bytes \<Rightarrow> order_data \<Rightarrow> int \<Rightarrow> scan_state
       \<Rightarrow> (string + unit) \<times> scan_state" where
  "record_notification L W S key h oid pk d version s =
     then_do (seal_order L W key oid d, s) (\<lambda>blob s.
     let (r, rows) = worker_update W (set_blob_expiry d blob) oid version (sc_orders s) in
     then_do (r, s\<lparr>sc_orders := rows\<rparr>) (\<lambda>_ s.
       track S \<lparr>tx_hash = h, nt_order_id = oid, nt_buyer_pubkey = pk, processed_at = floor_timestamp_6h (w_time W)\<rparr> s))"

definition scan_tx ::
    "ext \<Rightarrow> app \<Rightarrow> wenv \<Rightarrow> scan_env \<Rightarrow> btc_network \<Rightarrow> list_since_entry \<Rightarrow> scan_state \<Rightarrow> (string + unit) \<times> scan_state" where
  "scan_tx L A W S net tx s =
     (if ls_confirmations tx < 1 then (Inr (), s)
      else then_do (ok_or (hex_error L (ls_txid tx)) (hex_decode L (ls_txid tx)), s) (\<lambda>h s.
        case se_tracker_read S h of
          Some e \<Rightarrow> (Inl e, s)
        | None \<Rightarrow>
           (if select_by tx_hash h (sc_tracker s) \<noteq> None then (Inr (), s)
            else case fetch_notification L S (ls_txid tx) s of
              (None, s) \<Rightarrow> (Inr (), s)
            | (Some (oid, pk), s) \<Rightarrow>
               (if length oid \<noteq> 32 then (Inr (), s)
                else case w_read_fault W oid of
                  Some e \<Rightarrow> (Inl e, s)
                | None \<Rightarrow>
                   (case select_order oid (sc_orders s) of
                      None \<Rightarrow> (Inr (), s)
                    | Some r \<Rightarrow>
                       (case app_worker_key A of
                          None \<Rightarrow> (Inr (), s)
                        | Some key \<Rightarrow>
                           (case notified_data L S net key oid pk r s of
                              (None, s) \<Rightarrow> (Inr (), s)
                            | (Some d, s) \<Rightarrow> record_notification L W S key h oid pk d (o_version r) s)))))))"

definition scan_notifications :: "ext \<Rightarrow> app \<Rightarrow> wenv \<Rightarrow> scan_env \<Rightarrow> scan_state \<Rightarrow> (string + unit) \<times> scan_state" where
  "scan_notifications L A W S s =
     then_do (map_err (\<lambda>e. ''Config error: '' @ e) (configured_network (se_config S)), s\<lparr>sc_client := new_btc_client\<rparr>) (\<lambda>net s.
     case sc_last_block s of
       None \<Rightarrow>
         then_do (with_client (get_block_height (se_node S) (se_config S)) s) (\<lambda>height s.
         then_do (with_client (btc_get_block_hash (se_node S) (se_config S) height) s) (\<lambda>hash s.
           (Inr (), s\<lparr>sc_last_block := Some hash\<rparr>)))
     | Some block_hash \<Rightarrow>
        (case with_client (list_since_block (se_node S) (se_config S) block_hash) s of
           (Inl _, s) \<Rightarrow> (Inr (), s)
         | (Inr (txs, new_last_block), s) \<Rightarrow>
             then_do (for_each (scan_tx L A W S net) txs s) (\<lambda>_ s. (Inr (), s\<lparr>sc_last_block := Some new_last_block\<rparr>))))"

section \<open>Facts\<close>

lemma with_client_frame [simp]:
  "sc_orders (snd (with_client f s)) = sc_orders s" "sc_tracker (snd (with_client f s)) = sc_tracker s"
  "sc_last_block (snd (with_client f s)) = sc_last_block s"
  by (simp_all add: with_client_def split_beta)

lemma with_client_frameD: "with_client f s = (r, s') \<Longrightarrow> sc_orders s' = sc_orders s \<and> sc_tracker s' = sc_tracker s"
  using with_client_frame [of f s] by simp

lemma fetch_notification_frame [simp]:
  "sc_orders (snd (fetch_notification L S t s)) = sc_orders s" "sc_tracker (snd (fetch_notification L S t s)) = sc_tracker s"
  by (auto simp: fetch_notification_def split: prod.split sum.split dest!: with_client_frameD)

lemma notified_data_frame [simp]:
  "sc_orders (snd (notified_data L S net key oid pk r s)) = sc_orders s"
  "sc_tracker (snd (notified_data L S net key oid pk r s)) = sc_tracker s"
  by (auto simp: notified_data_def split: option.split prod.split sum.split dest!: with_client_frameD)

lemma track_frame [simp]: "sc_orders (snd (track S n s)) = sc_orders s"
  by (simp add: track_def split: option.split)

definition given_address :: "ext \<Rightarrow> bytes \<Rightarrow> order \<Rightarrow> order \<Rightarrow> bool" where
  "given_address L key r r' \<longleftrightarrow> (\<exists>d a pk. open_order L key r = Some d \<and> escrow_address d = None
     \<and> rewritten L key (d\<lparr>escrow_address := Some a, buyer_pubkey := Some pk\<rparr>) r r')"

lemma notified_data_Some:
  assumes "notified_data L S net key oid pk r s = (Some d', s')"
  obtains d a pk' where "open_order L key r = Some d" "escrow_address d = None"
    "d' = d\<lparr>escrow_address := Some a, buyer_pubkey := Some pk'\<rparr>"
  using assms by (auto simp: notified_data_def split: option.splits if_splits prod.splits sum.splits)

lemma record_notification_orders:
  "sc_orders (snd (record_notification L W S key h oid pk d version s)) =
     (case seal_order L W key oid d of
        Inl _ \<Rightarrow> sc_orders s
      | Inr blob \<Rightarrow> snd (worker_update W (set_blob_expiry d blob) oid version (sc_orders s)))"
  by (auto simp: record_notification_def then_do_def split_beta Let_def split: sum.split)

text \<open>What one write may do to a row.\<close>

definition scanned :: "ext \<Rightarrow> app \<Rightarrow> wenv \<Rightarrow> bytes \<Rightarrow> order \<Rightarrow> order \<Rightarrow> bool" where
  "scanned L A W i r r' \<longleftrightarrow> r' = r \<or> (length i = 32 \<and> (\<exists>key. app_worker_key A = Some key \<and>
     (worker_laws L W \<longrightarrow> given_address L key r r')))"

lemma scanned_trans:
  assumes "scanned L A W i r r'" "scanned L A W i r' r''"
  shows "scanned L A W i r r''"
  using assms by (auto simp: scanned_def given_address_def rewritten_def)

lemma record_notification_row:
  assumes "orders_wf (sc_orders s)" "select_order i (sc_orders s) = Some x" "length oid = 32"
    and "select_order oid (sc_orders s) = Some r" "app_worker_key A = Some key" "open_order L key r = Some d"
    and "escrow_address d = None" "d' = d\<lparr>escrow_address := Some a, buyer_pubkey := Some pk'\<rparr>"
  shows "\<exists>x'. select_order i (sc_orders (snd (record_notification L W S key h oid pk d' v s))) = Some x' \<and> scanned L A W i x x'"
proof (cases "i = oid")
  case False
  then show ?thesis
    using assms(2) by (auto simp: record_notification_orders worker_update_other scanned_def split: sum.split)
next
  case True
  then have x: "x = r" "o_id r = oid" using assms(2,4) by (auto dest: select_by_Some)
  show ?thesis
  proof (cases "seal_order L W key oid d'")
    case (Inl e)
    then show ?thesis using assms(2) by (simp add: record_notification_orders scanned_def)
  next
    case (Inr blob)
    have "worker_laws L W \<Longrightarrow> rewritten L key d' r (apply_order_write (set_blob_expiry d' blob) r)"
      using Inr x(2) by (intro sealed_rewritten) simp_all
    then have "scanned L A W i r (apply_order_write (set_blob_expiry d' blob) r)"
      using assms(3,5-8) True by (auto simp: scanned_def given_address_def)
    then show ?thesis
      using Inr True x(1) checked_update_row [OF assms(1,4), of W "set_blob_expiry d' blob" v]
      by (auto simp: record_notification_orders checked_update_snd scanned_def)
  qed
qed

lemma record_notification_wf:
  "orders_wf (sc_orders s) \<Longrightarrow> orders_wf (sc_orders (snd (record_notification L W S key h oid pk d version s)))"
  by (auto simp: record_notification_orders worker_update_wf split: sum.split)

text \<open>A transaction leaves the orders or ends in a write.\<close>

lemma scan_tx_cases:
  obtains (stay) "sc_orders (snd (scan_tx L A W S net tx s)) = sc_orders s"
  | (written) key h oid pk r d a pk' v s1 where "length oid = 32" "select_order oid (sc_orders s) = Some r" "app_worker_key A = Some key"
      "open_order L key r = Some d" "escrow_address d = None" "sc_orders s1 = sc_orders s"
      "scan_tx L A W S net tx s =
         record_notification L W S key h oid pk (d\<lparr>escrow_address := Some a, buyer_pubkey := Some pk'\<rparr>) v s1"
proof (cases "1 \<le> ls_confirmations tx \<and> hex_decode L (ls_txid tx) \<noteq> None \<and> se_tracker_read S (the (hex_decode L (ls_txid tx))) = None
      \<and> select_by tx_hash (the (hex_decode L (ls_txid tx))) (sc_tracker s) = None")
  case False
  then have "sc_orders (snd (scan_tx L A W S net tx s)) = sc_orders s"
    by (auto simp: scan_tx_def then_do_def ok_or_def split: option.split)
  then show ?thesis by (rule stay)
next
  case True
  then obtain h where h: "hex_decode L (ls_txid tx) = Some h" by auto
  obtain f s0 where f: "fetch_notification L S (ls_txid tx) s = (f, s0)" by fastforce
  have s0: "sc_orders s0 = sc_orders s" using fetch_notification_frame(1) [of L S "ls_txid tx" s] f by simp
  show ?thesis
  proof (cases "\<exists>oid pk r key. f = Some (oid, pk) \<and> length oid = 32 \<and> w_read_fault W oid = None
      \<and> select_order oid (sc_orders s) = Some r \<and> app_worker_key A = Some key")
    case False
    then have "sc_orders (snd (scan_tx L A W S net tx s)) = sc_orders s"
      using True h f s0 by (auto simp: scan_tx_def split: option.split prod.split)
    then show ?thesis by (rule stay)
  next
    case c: True
    then obtain oid pk r key where c: "f = Some (oid, pk)" "length oid = 32" "w_read_fault W oid = None"
      "select_order oid (sc_orders s) = Some r" "app_worker_key A = Some key" by blast
    obtain nd s1 where nd: "notified_data L S net key oid pk r s0 = (nd, s1)" by fastforce
    have s1: "sc_orders s1 = sc_orders s" using notified_data_frame(1) [of L S net key oid pk r s0] nd s0 by simp
    have run: "scan_tx L A W S net tx s = (case nd of None \<Rightarrow> (Inr (), s1)
        | Some d \<Rightarrow> record_notification L W S key h oid pk d (o_version r) s1)"
      using True h f c s0 nd by (simp add: scan_tx_def)
    show ?thesis
    proof (cases nd)
      case None
      then show ?thesis using run s1 by (intro stay) simp
    next
      case (Some d')
      from nd [unfolded Some] obtain d a pk' where "open_order L key r = Some d" "escrow_address d = None"
        "d' = d\<lparr>escrow_address := Some a, buyer_pubkey := Some pk'\<rparr>" by (rule notified_data_Some)
      then show ?thesis using run Some c s1 by (intro written) simp_all
    qed
  qed
qed

lemma scan_tx_row:
  assumes "orders_wf (sc_orders s)" "select_order i (sc_orders s) = Some x"
  shows "orders_wf (sc_orders (snd (scan_tx L A W S net tx s)))
     \<and> (\<exists>x'. select_order i (sc_orders (snd (scan_tx L A W S net tx s))) = Some x' \<and> scanned L A W i x x')"
proof (cases rule: scan_tx_cases [of L A W S net tx s])
  case stay
  then show ?thesis using assms by (simp add: scanned_def)
next
  case (written key h oid pk r d a pk' v s1)
  then show ?thesis
    using record_notification_row [of s1 i x oid r A key L d, OF _ _ written(1) _ written(3,4,5) refl]
      record_notification_wf [of s1] assms by simp
qed

lemma scan_row:
  assumes "orders_wf (sc_orders s)" "select_order i (sc_orders s) = Some x"
  shows "\<exists>x'. select_order i (sc_orders (snd (for_each (scan_tx L A W S net) txs s))) = Some x' \<and> scanned L A W i x x'"
  using assms
proof (induction txs arbitrary: s x)
  case (Cons tx txs)
  obtain x1 where x1: "orders_wf (sc_orders (snd (scan_tx L A W S net tx s)))"
    "select_order i (sc_orders (snd (scan_tx L A W S net tx s))) = Some x1" "scanned L A W i x x1"
    using scan_tx_row [OF Cons.prems] by blast
  with Cons.IH [OF x1(1,2)] show ?case
    by (auto simp: then_do_def split: sum.split intro: scanned_trans)
qed (auto simp: scanned_def)

section \<open>Properties\<close>

lemma scan_notifications_orders:
  "sc_orders (snd (scan_notifications L A W S s)) = sc_orders s
     \<or> (\<exists>net txs s1. sc_orders s1 = sc_orders s
          \<and> sc_orders (snd (scan_notifications L A W S s)) = sc_orders (snd (for_each (scan_tx L A W S net) txs s1)))"
proof (cases "configured_network (se_config S)")
  case (Inr net)
  let ?s = "s\<lparr>sc_client := new_btc_client\<rparr>"
  show ?thesis
  proof (cases "sc_last_block s")
    case None
    have "sc_orders (snd (scan_notifications L A W S s)) = sc_orders s"
      unfolding scan_notifications_def Inr
      by (simp add: None) (intro then_do_frame [where g = sc_orders] conjI; simp add: with_client_def split_beta)
    then show ?thesis by simp
  next
    case (Some b)
    obtain r s1 where c: "with_client (list_since_block (se_node S) (se_config S) b) ?s = (r, s1)" by fastforce
    then have s1: "sc_orders s1 = sc_orders s" by (auto dest: with_client_frameD)
    show ?thesis
    proof (cases r)
      case (Inr p)
      then have "sc_orders (snd (scan_notifications L A W S s)) = sc_orders (snd (for_each (scan_tx L A W S net) (fst p) s1))"
        using \<open>configured_network (se_config S) = Inr net\<close> Some c
        by (auto simp: scan_notifications_def then_do_def split_beta split: sum.split)
      with s1 show ?thesis by blast
    qed (use \<open>configured_network (se_config S) = Inr net\<close> Some c s1 in \<open>simp add: scan_notifications_def\<close>)
  qed
qed (simp add: scan_notifications_def)

text \<open>Against a Bitcoin Core node the first scan never ends well, so the scan never begins.\<close>

lemma scan_never_begins:
  assumes "core_block_count (se_node S) (se_config S)" "sc_last_block s = None"
  shows "\<not> is_ok (fst (scan_notifications L A W S s)) \<and> sc_last_block (snd (scan_notifications L A W S s)) = None"
proof (cases "configured_network (se_config S)")
  case (Inr net)
  let ?s = "s\<lparr>sc_client := new_btc_client\<rparr>"
  obtain r s1 where c: "with_client (get_block_height (se_node S) (se_config S)) ?s = (r, s1)" by fastforce
  moreover have "\<not> is_ok r" using core_height [OF assms(1)] c by (auto simp: with_client_def split_beta)
  moreover have "sc_last_block s1 = None" using with_client_frame(3) [of "get_block_height (se_node S) (se_config S)" ?s] c assms(2) by simp
  ultimately show ?thesis
    using Inr assms(2) by (cases r) (simp_all add: scan_notifications_def)
qed (simp add: scan_notifications_def assms(2))



text \<open>
  An announcement can be lost for good: when another writer changed the order between the scanner's read and its
  write, the write affects no row, the scanner reports success and records the transaction as
  processed, and no later scan, with whatever node and keys, looks at it again.
\<close>

theorem notification_lost:
  assumes "orders_wf (sc_orders s)" "select_order oid (sc_orders s) = Some r" "o_version r \<noteq> version"
    and "is_ok (seal_order L W key oid d)" "w_write_fault W oid = None" "se_tracker_write S h = None"
    and "record_notification L W S key h oid pk d version s = (res, s')"
    and "hex_decode L (ls_txid tx) = Some h" "se_tracker_read S' h = None"
  shows "res = Inr () \<and> sc_orders s' = sc_orders s \<and> scan_tx L A' W' S' net tx s' = (Inr (), s')"
proof -
  obtain blob where blob: "seal_order L W key oid d = Inr blob" using assms(4) by (auto simp: is_ok_iff)
  have "snd (update_orders (set_blob_expiry d blob) oid version (sc_orders s)) = 0"
    using ord.affected_pos [of "sc_orders s" "set_blob_expiry d blob" oid version] assms(1-3)
    by (simp add: update_orders_def orders_wf_def)
  then have "worker_update W (set_blob_expiry d blob) oid version (sc_orders s) = (Inr 0, sc_orders s)"
    using assms(5) ord.affected_0_unchanged by (simp add: worker_update_def update_orders_def split_beta)
  with blob assms(6,7) have "res = Inr ()" "sc_orders s' = sc_orders s" "h \<in> tx_hash ` set (sc_tracker s')"
    by (auto simp: record_notification_def track_def insert_row_def split: if_splits)
  moreover from this have "select_by tx_hash h (sc_tracker s') \<noteq> None" by (simp add: select_by_None)
  ultimately show ?thesis
    using assms(8,9) by (simp add: scan_tx_def)
qed

definition demo_entry :: list_since_entry where
  "demo_entry = \<lparr>ls_txid = hex_encode demo_ext [8], ls_address = None, ls_amount = Finite 0, ls_confirmations = 6\<rparr>"

definition demo_scan_env :: scan_env where
  "demo_scan_env = \<lparr>se_node = demo_btc_node (JPosInt 0), se_config = default_bitcoin_config, se_crates = demo_crates,
     se_tracker_read = (\<lambda>_. None), se_tracker_write = (\<lambda>_. None)\<rparr>"

lemma notification_lost_witness:
  "let L = demo_worker [demo_order]; r = new_order_row (replicate 32 1) (demo_blob 0) 0 None;
       s = \<lparr>sc_orders = [r], sc_tracker = [], sc_client = new_btc_client, sc_last_block = None\<rparr>
   in \<exists>s'. record_notification L (demo_wenv 7) demo_scan_env (replicate 32 3) [8] (replicate 32 1) [2] demo_order 0 s = (Inr (), s')
     \<and> sc_orders s' = [r] \<and> scan_tx L demo_app (demo_wenv 30000) demo_scan_env Bitcoin demo_entry s' = (Inr (), s')"
proof -
  let ?L = "demo_worker [demo_order]" and ?r = "new_order_row (replicate 32 1) (demo_blob 0) 0 None"
  let ?s = "\<lparr>sc_orders = [?r], sc_tracker = [], sc_client = new_btc_client, sc_last_block = None\<rparr>"
  obtain res s' where run: "record_notification ?L (demo_wenv 7) demo_scan_env (replicate 32 3) [8] (replicate 32 1) [2] demo_order 0 ?s
      = (res, s')" by fastforce
  have row: "orders_wf (sc_orders ?s)" "select_order (replicate 32 1) (sc_orders ?s) = Some ?r" "o_version ?r \<noteq> 0"
    by (simp_all add: orders_wf_def select_by_def new_order_row_def)
  have "demo_to_json [demo_order] demo_order = Some (replicate 0 0)" by (simp add: demo_to_json_def)
  then have seal: "is_ok (seal_order ?L (demo_wenv 7) (replicate 32 3) (replicate 32 1) demo_order)"
    by (simp add: demo_seal)
  have env: "w_write_fault (demo_wenv 7) (replicate 32 1) = None" "se_tracker_write demo_scan_env [8] = None"
    "se_tracker_read demo_scan_env [8] = None" "hex_decode ?L (ls_txid demo_entry) = Some [8]"
    using demo_hex_ok by (simp_all add: demo_wenv_def demo_scan_env_def demo_entry_def demo_worker_def)
  from notification_lost [OF row seal env(1,2) run env(4,3), of demo_app "demo_wenv 30000" Bitcoin] run
  show ?thesis by (auto simp: Let_def)
qed

end
