(* ===== verification/Worker_Tasks.thy ===== *)
theory Worker_Tasks
  imports Orders Worker_Process Payment_Poller Notification_Scanner Dummy_Worker
begin

text \<open>
  \<^verbatim>\<open>run_workers\<close> of \<^verbatim>\<open>worker/mod.rs\<close>: the five tasks of the worker, each a loop that sleeps, looks at the shutdown
  flag and runs its job.  The turns of the tasks come in any order; what happens between the steps of two jobs
  is the subject of \<open>Concurrency\<close>.  A panic aborts the process (\<^verbatim>\<open>panic = "abort"\<close> in \<^verbatim>\<open>Cargo.toml\<close>).
\<close>

section \<open>Jobs\<close>

datatype job = Poll_Payments | Check_Time_Locks | Check_Listings | Scan_Notifications | Make_Dummies

text \<open>The state the tasks share: the database and the fields of \<^verbatim>\<open>AppState\<close> they change.\<close>

record world =
  wd_pay :: worker_state
  wd_listings :: listings
  wd_tracker :: "notification_tracker list"
  wd_last_block :: "string option"

abbreviation wd_orders :: "world \<Rightarrow> orders" where
  "wd_orders s \<equiv> ws_orders (wd_pay s)"

text \<open>What a job meets when it runs.\<close>

record meets =
  mt_wenv :: wenv
  mt_pay :: pay_env
  mt_scan :: scan_env
  mt_draws :: draws

definition on_table :: "(orders \<Rightarrow> (string + unit) \<times> orders) \<Rightarrow> world \<Rightarrow> (worker_error + unit) \<times> world" where
  "on_table f s = (let (res, p) = on_orders f (wd_pay s) in (res, s\<lparr>wd_pay := p\<rparr>))"

definition run_job :: "ext \<Rightarrow> app \<Rightarrow> meets \<Rightarrow> job \<Rightarrow> world \<Rightarrow> (worker_error + unit) \<times> world" where
  "run_job L A M j s =
     (case j of
        Poll_Payments \<Rightarrow>
          (let (res, p) = check_pending_payments L A (mt_wenv M) (mt_pay M) (wd_pay s) in (res, s\<lparr>wd_pay := p\<rparr>))
      | Check_Time_Locks \<Rightarrow> on_table (check_time_locks L A (mt_wenv M)) s
      | Check_Listings \<Rightarrow>
          (let (res, ls) = check_listing_expiry L A (mt_wenv M) (wd_listings s)
           in (map_err Failed res, s\<lparr>wd_listings := ls\<rparr>))
      | Scan_Notifications \<Rightarrow>
          (let (res, c) = scan_notifications L A (mt_wenv M) (mt_scan M)
                 \<lparr>sc_orders = wd_orders s, sc_tracker = wd_tracker s, sc_client = new_btc_client, sc_last_block = wd_last_block s\<rparr>
           in (map_err Failed res,
               s\<lparr>wd_pay := (wd_pay s)\<lparr>ws_orders := sc_orders c\<rparr>, wd_tracker := sc_tracker c, wd_last_block := sc_last_block c\<rparr>))
      | Make_Dummies \<Rightarrow>
          (case run_dummy_worker L A (mt_wenv M) (mt_draws M) (wd_orders s) of
             None \<Rightarrow> (Inl Panicked, s)
           | Some r \<Rightarrow> on_table (\<lambda>_. r) s))"

section \<open>Tasks\<close>

text \<open>
  What the \<open>select!\<close> of a task wakes up with: the shutdown flag changed (to this value), or the
  jittered sleep ended.
\<close>

datatype wake = Changed bool | Slept

definition should_stop :: "wake \<Rightarrow> bool" where
  "should_stop w = (case w of Changed v \<Rightarrow> v | Slept \<Rightarrow> False)"

datatype process =
    Running "job list" world  \<comment> \<open>the tasks that have not left their loop\<close>
  | Aborted world

text \<open>One round of the loop of task \<open>j\<close>; the error of a job is dropped.\<close>

definition task_turn :: "ext \<Rightarrow> app \<Rightarrow> job \<times> wake \<times> meets \<Rightarrow> process \<Rightarrow> process" where
  "task_turn L A e p =
     (case (e, p) of
        ((j, w, M), Running js s) \<Rightarrow>
          (if j \<notin> set js then p
           else if should_stop w then Running (removeAll j js) s
           else let (res, s) = run_job L A M j s in if res = Inl Panicked then Aborted s else Running js s)
      | (_, Aborted _) \<Rightarrow> p)"

definition over :: "process \<Rightarrow> bool" where
  "over p \<longleftrightarrow> (case p of Running js _ \<Rightarrow> js = [] | Aborted _ \<Rightarrow> True)"

partial_function (option) run_tasks :: "ext \<Rightarrow> app \<Rightarrow> (nat \<Rightarrow> job \<times> wake \<times> meets) \<Rightarrow> nat \<Rightarrow> process \<Rightarrow> process option" where
  "run_tasks L A ev n p = (if over p then Some p else run_tasks L A ev (Suc n) (task_turn L A (ev n) p))"

definition all_jobs :: "job list" where
  "all_jobs = [Poll_Payments, Check_Time_Locks, Check_Listings, Scan_Notifications, Make_Dummies]"

text \<open>\<^const>\<open>None\<close>: the worker runs for ever.\<close>

definition run_workers :: "ext \<Rightarrow> app \<Rightarrow> outside \<Rightarrow> (nat \<Rightarrow> job \<times> wake \<times> meets) \<Rightarrow> world \<Rightarrow> process option" where
  "run_workers L A X ev s =
     (case assert_worker_state X A of
        Inl _ \<Rightarrow> Some (Running [] s)
      | Inr _ \<Rightarrow> run_tasks L A ev 0 (Running all_jobs s))"

section \<open>The loop unrolled\<close>

primrec after_turns :: "ext \<Rightarrow> app \<Rightarrow> (nat \<Rightarrow> job \<times> wake \<times> meets) \<Rightarrow> process \<Rightarrow> nat \<Rightarrow> process" where
  "after_turns L A ev p 0 = p"
| "after_turns L A ev p (Suc n) = task_turn L A (ev n) (after_turns L A ev p n)"

lemma over_stays: "over p \<Longrightarrow> task_turn L A e p = p"
  by (cases e) (auto simp: over_def task_turn_def split: process.splits)

lemma after_turns_shift: "after_turns L A ev p (Suc n) = after_turns L A (\<lambda>k. ev (Suc k)) (task_turn L A (ev 0) p) n"
  by (induction n) simp_all

lemma over_for_good: "over (after_turns L A ev p n) \<Longrightarrow> after_turns L A ev p (n + k) = after_turns L A ev p n"
  by (induction k) (simp_all add: over_stays)

lemma over_unique: "over (after_turns L A ev p m) \<Longrightarrow> over (after_turns L A ev p n) \<Longrightarrow> after_turns L A ev p m = after_turns L A ev p n"
  using over_for_good [of L A ev p m "n - m"] over_for_good [of L A ev p n "m - n"] by (cases "m \<le> n") simp_all

lemma run_tasks_reaches:
  "run_tasks L A ev n p = Some q \<Longrightarrow> \<exists>k. q = after_turns L A (\<lambda>i. ev (n + i)) p k \<and> over q"
proof (induction rule: run_tasks.raw_induct [rotated, consumes 1, case_names turn])
  case (turn run L A ev n p q)
  show ?case
  proof (cases "over p")
    case True
    then have "q = after_turns L A (\<lambda>i. ev (n + i)) p 0 \<and> over q" using turn.hyps by simp
    then show ?thesis by blast
  next
    case False
    then obtain k where "q = after_turns L A (\<lambda>i. ev (Suc n + i)) (task_turn L A (ev n) p) k" "over q"
      using turn by fastforce
    then show ?thesis
      using after_turns_shift [of L A "\<lambda>i. ev (n + i)" p k] by (intro exI [of _ "Suc k"]) simp
  qed
qed

lemma run_tasks_ends:
  "over (after_turns L A (\<lambda>i. ev (n + i)) p k) \<Longrightarrow> run_tasks L A ev n p = Some (after_turns L A (\<lambda>i. ev (n + i)) p k)"
proof (induction k arbitrary: n p)
  case (Suc k)
  show ?case
  proof (cases "over p")
    case True
    then have "after_turns L A (\<lambda>i. ev (n + i)) p (Suc k) = p" using over_for_good [of L A "\<lambda>i. ev (n + i)" p 0 "Suc k"] by simp
    with True show ?thesis by (simp add: run_tasks.simps)
  next
    case False
    have "after_turns L A (\<lambda>i. ev (n + i)) p (Suc k) = after_turns L A (\<lambda>i. ev (Suc n + i)) (task_turn L A (ev n) p) k"
      using after_turns_shift [of L A "\<lambda>i. ev (n + i)" p k] by simp
    with Suc.IH [of "Suc n" "task_turn L A (ev n) p"] Suc.prems False show ?thesis
      by (simp add: run_tasks.simps [of L A ev n p])
  qed
qed (simp add: run_tasks.simps)

lemma run_tasks_iff:
  "run_tasks L A ev 0 p = Some q \<longleftrightarrow> (\<exists>n. q = after_turns L A ev p n \<and> over q)"
  using run_tasks_reaches [of L A ev 0 p q] run_tasks_ends [of L A ev 0 p] by auto

definition told :: "(nat \<Rightarrow> job \<times> wake \<times> meets) \<Rightarrow> job \<Rightarrow> nat \<Rightarrow> bool" where
  "told ev j n \<longleftrightarrow> fst (ev n) = j \<and> should_stop (fst (snd (ev n)))"

lemma after_turns_live:
  "after_turns L A ev (Running js0 s) n = Running js t \<Longrightarrow> set js = {j \<in> set js0. \<forall>k<n. \<not> told ev j k}"
proof (induction n arbitrary: js t)
  case (Suc n)
  obtain j w M where e: "ev n = (j, w, M)" by (cases "ev n")
  show ?case
  proof (cases "after_turns L A ev (Running js0 s) n")
    case (Running js1 t1)
    then have "set js = set js1 - (if should_stop w then {j} else {})"
      using Suc.prems e by (auto simp: task_turn_def split: if_splits prod.splits)
    with Suc.IH [OF Running] show ?thesis
      by (auto simp: told_def e less_Suc_eq)
  next
    case (Aborted t1)
    then show ?thesis using Suc.prems e by (simp add: task_turn_def)
  qed
qed auto

lemma all_jobs_all [simp]: "set all_jobs = UNIV"
proof -
  have "j \<in> set all_jobs" for j by (cases j) (simp_all add: all_jobs_def)
  then show ?thesis by auto
qed

lemma finite_deadline:
  assumes "finite J" "\<And>j. j \<in> J \<Longrightarrow> \<exists>n::nat. P j n"
  shows "\<exists>m. \<forall>j\<in>J. \<exists>k<m. P j k"
  using assms
proof (induction J rule: finite_induct)
  case (insert x J)
  then obtain m where m: "\<forall>j\<in>J. \<exists>k<m. P j k" by auto
  obtain n where "P x n" using insert.prems by blast
  with m have "\<forall>j\<in>J. \<exists>k<m. P j k" "P x n" by simp_all
  then have "\<forall>j\<in>insert x J. \<exists>k<max m (Suc n). P j k" by (auto simp: less_max_iff_disj)
  then show ?case by blast
qed simp

lemma over_some_time:
  "(\<exists>n. over (after_turns L A ev (Running all_jobs s) n)) \<longleftrightarrow>
     (\<forall>j. \<exists>n. told ev j n) \<or> (\<exists>n t. after_turns L A ev (Running all_jobs s) n = Aborted t)"
  (is "?l \<longleftrightarrow> ?r")
proof
  assume ?l
  then obtain n where n: "over (after_turns L A ev (Running all_jobs s) n)" by blast
  show ?r
  proof (cases "after_turns L A ev (Running all_jobs s) n")
    case (Running js t)
    with n have "js = []" by (simp add: over_def)
    with after_turns_live [OF Running] have "\<forall>j. \<exists>k<n. told ev j k" by auto
    then show ?thesis by blast
  qed blast
next
  assume ?r
  then show ?l
  proof
    assume "\<forall>j. \<exists>n. told ev j n"
    then obtain m where m: "\<forall>j\<in>set all_jobs. \<exists>k<m. told ev j k"
      using finite_deadline [OF finite_set, of all_jobs "told ev"] by blast
    have "over (after_turns L A ev (Running all_jobs s) m)"
    proof (cases "after_turns L A ev (Running all_jobs s) m")
      case (Running js t)
      then have "set js = {}" using after_turns_live [OF Running] m by auto
      with Running show ?thesis by (simp add: over_def)
    qed (simp add: over_def)
    then show ?l by blast
  next
    assume "\<exists>n t. after_turns L A ev (Running all_jobs s) n = Aborted t"
    then show ?l by (metis over_def process.simps(6))
  qed
qed

section \<open>What the jobs do to the tables\<close>

text \<open>Rows stay, and an order whose data is rewritten moves along the order state machine.\<close>

definition moves :: "ext \<Rightarrow> bytes \<Rightarrow> order \<Rightarrow> order \<Rightarrow> bool" where
  "moves L key r r' \<longleftrightarrow> r' = r \<or> (o_version r < o_version r' \<and> (\<exists>d d'. open_order L key r = Some d
     \<and> open_order L key r' = Some d' \<and> order_path (order_state d) (order_state d')))"

lemma moves_trans: "moves L key r r1 \<Longrightarrow> moves L key r1 r2 \<Longrightarrow> moves L key r r2"
  by (auto simp: moves_def intro: order_path_trans)

lemma moves_rewritten:
  "open_order L key r = Some d \<Longrightarrow> rewritten L key d' r r' \<Longrightarrow> order_path (order_state d) (order_state d') \<Longrightarrow> moves L key r r'"
  by (auto simp: moves_def rewritten_def)

definition rows_move :: "ext \<Rightarrow> bytes \<Rightarrow> orders \<Rightarrow> orders \<Rightarrow> bool" where
  "rows_move L key os os' \<longleftrightarrow> (orders_wf os \<longrightarrow> orders_wf os'
     \<and> (\<forall>i r. select_order i os = Some r \<longrightarrow> (\<exists>r'. select_order i os' = Some r' \<and> moves L key r r')))"

lemma rows_move_refl [simp]: "rows_move L key os os"
  by (auto simp: rows_move_def moves_def)

lemma rows_move_trans: "rows_move L key a b \<Longrightarrow> rows_move L key b c \<Longrightarrow> rows_move L key a c"
  unfolding rows_move_def using moves_trans by meson

lemma rows_move_insert: "insert_order r os = Some os' \<Longrightarrow> rows_move L key os os'"
  by (auto simp: rows_move_def moves_def insert_order_def insert_row_Some orders_wf_def select_by_append split: option.splits)

text \<open>The payment poller\<close>

lemma then_do_keeps:
  "Q (snd p) \<Longrightarrow> (\<And>x s. Q s \<Longrightarrow> Q (snd (f x s))) \<Longrightarrow> Q (snd (then_do p f))"
  by (auto simp: then_do_def split: sum.splits)

lemma funds_path: "funds now d d' \<Longrightarrow> order_path (order_state d) (order_state d')"
  by (auto simp: funds_def transitions_of_def intro: order_path.step [OF order_path.stay])

lemma cancels_path: "cancels d d' \<Longrightarrow> order_path (order_state d) (order_state d')"
  by (auto simp: cancels_def transitions_of_def intro: order_path.step [OF order_path.stay])

lemma settle_keeps_state:
  "settle_stealth_order L B N G k i d = Inr d' \<Longrightarrow> order_state d' = order_state d"
  by (auto simp: settle_stealth_order_def Let_def split_beta split: if_splits)

lemma settles_path: "settles L A P i d d' \<Longrightarrow> order_path (order_state d) (order_state d')"
  by (auto simp: settles_def dest!: settle_keeps_state intro: order_path.stay)

lemma poll_step_path: "poll_step L A P now i d0 d d' \<Longrightarrow> order_path (order_state d) (order_state d')"
  by (auto simp: poll_step_def xmr_step_def btc_step_def split: work.splits intro: funds_path cancels_path settles_path)

lemma check_pending_payments_wf:
  assumes "orders_wf (ws_orders s)"
  shows "orders_wf (ws_orders (snd (check_pending_payments L A W P s)))"
  unfolding check_pending_payments_def Let_def
  by (intro then_do_keeps [where Q = "\<lambda>s. orders_wf (ws_orders s)"])
     (auto simp: assms split_beta check_xmr_payments_def check_btc_payments_def
       intro!: then_do_keeps [where Q = "\<lambda>s. orders_wf (ws_orders s)"]
         xmr_pass.pass_wf [folded orders_wf_def] btc_pass.pass_wf [folded orders_wf_def] settle_pass.pass_wf [folded orders_wf_def])

lemma payments_move:
  assumes "worker_laws L (mt_wenv M)" "hash_keys_ok (mt_pay M)" "app_worker_key A = Some key"
  shows "rows_move L key (wd_orders s) (wd_orders (snd (run_job L A M Poll_Payments s)))"
proof -
  let ?s = "snd (check_pending_payments L A (mt_wenv M) (mt_pay M) (wd_pay s))"
  have "\<exists>r'. select_order i (ws_orders ?s) = Some r' \<and> moves L key r r'"
    if row: "orders_wf (wd_orders s)" "select_order i (wd_orders s) = Some r" for i r
  proof -
    obtain r' where r': "select_order i (ws_orders ?s) = Some r'" "r' = r \<or> (\<exists>sk. derive_domain_key L key ''payment-decrypt'' = Some sk
        \<and> polled L A (mt_wenv M) (mt_pay M) (floor_timestamp_6h (w_time (mt_wenv M))) sk key UNIV i r r')"
      using poll_row [OF assms(2,3) row] by blast
    from r'(2) have "moves L key r r'"
      using assms(1,3) by (auto simp: polled_def data_step_def moves_def [of L key r r] intro: moves_rewritten poll_step_path)
    with r'(1) show ?thesis by blast
  qed
  then show ?thesis
    using check_pending_payments_wf [of "wd_pay s" L A "mt_wenv M" "mt_pay M"]
    by (auto simp: rows_move_def run_job_def split_beta)
qed

text \<open>The other jobs\<close>

lemma time_locks_move:
  assumes "worker_laws L (mt_wenv M)" "app_worker_key A = Some key"
  shows "rows_move L key (wd_orders s) (wd_orders (snd (run_job L A M Check_Time_Locks s)))"
proof -
  let ?os = "snd (check_time_locks L A (mt_wenv M) (wd_orders s))"
  have "\<exists>r'. select_order i ?os = Some r' \<and> moves L key r r'"
    if wf: "orders_wf (wd_orders s)" and r: "select_order i (wd_orders s) = Some r" for i r
  proof -
    obtain r' where "select_order i ?os = Some r'"
      "time_lock_done L (mt_wenv M) key (floor_timestamp_6h (w_time (mt_wenv M))) r r r' \<or> r' = r"
      using check_time_locks_row [OF assms(2) wf r prod.collapse [symmetric]] by blast
    then show ?thesis
      using assms(1) by (auto simp: time_lock_done_def moves_def [of L key r r]
          intro: moves_rewritten time_lock.step_path split: option.splits)
  qed
  then show ?thesis
    using check_time_locks_wf [of "wd_orders s" L A "mt_wenv M"]
    by (auto simp: rows_move_def run_job_def on_table_def on_orders_def)
qed

lemma scan_wf: "orders_wf (sc_orders s) \<Longrightarrow> orders_wf (sc_orders (snd (scan_notifications L A W S s)))"
proof -
  have "orders_wf (sc_orders s) \<Longrightarrow> orders_wf (sc_orders (snd (scan_tx L A W S net tx s)))" for net tx s
    by (cases rule: scan_tx_cases [of L A W S net tx s]) (simp_all add: record_notification_wf)
  then have "orders_wf (sc_orders s) \<Longrightarrow> orders_wf (sc_orders (snd (for_each (scan_tx L A W S net) txs s)))" for net txs s
    by (induction txs arbitrary: s) (auto simp: then_do_def split: sum.split)
  then show "orders_wf (sc_orders s) \<Longrightarrow> orders_wf (sc_orders (snd (scan_notifications L A W S s)))"
    using scan_notifications_orders [of L A W S s] by auto
qed

lemma scan_moves:
  assumes "worker_laws L (mt_wenv M)" "app_worker_key A = Some key"
  shows "rows_move L key (wd_orders s) (wd_orders (snd (run_job L A M Scan_Notifications s)))"
proof -
  define c where "c = \<lparr>sc_orders = wd_orders s, sc_tracker = wd_tracker s, sc_client = new_btc_client, sc_last_block = wd_last_block s\<rparr>"
  let ?c = "snd (scan_notifications L A (mt_wenv M) (mt_scan M) c)"
  have "\<exists>r'. select_order i (sc_orders ?c) = Some r' \<and> moves L key r r'"
    if row: "orders_wf (sc_orders c)" "select_order i (sc_orders c) = Some r" for i r
  proof -
    obtain r' where "select_order i (sc_orders ?c) = Some r'" "scanned L A (mt_wenv M) i r r'"
      using scan_notifications_orders [of L A "mt_wenv M" "mt_scan M" c] scan_row [of _ i r L A "mt_wenv M" "mt_scan M"] row
      by (metis scanned_def)
    then show ?thesis
      using assms by (auto simp: scanned_def given_address_def moves_def rewritten_def order_path.stay)
  qed
  then show ?thesis
    using scan_wf [of c L A "mt_wenv M" "mt_scan M"]
    by (auto simp: rows_move_def run_job_def split_beta c_def)
qed

lemma dummies_move: "rows_move L key (wd_orders s) (wd_orders (snd (run_job L A M Make_Dummies s)))"
proof (cases "run_dummy_worker L A (mt_wenv M) (mt_draws M) (wd_orders s)")
  case (Some p)
  obtain res os where p: "p = (res, os)" by (cases p)
  have "os = wd_orders s \<or> (\<exists>r. insert_order r (wd_orders s) = Some os)"
    using run_dummy_worker_row [OF Some [unfolded p]] by blast
  with Some p show ?thesis by (auto simp: run_job_def on_table_def on_orders_def rows_move_insert)
qed (simp add: run_job_def)

lemma job_moves:
  assumes "worker_laws L (mt_wenv M)" "hash_keys_ok (mt_pay M)" "app_worker_key A = Some key"
  shows "rows_move L key (wd_orders s) (wd_orders (snd (run_job L A M j s)))"
  using payments_move [OF assms] time_locks_move [OF assms(1,3)] scan_moves [OF assms(1,3)] dummies_move
  by (cases j) (simp_all add: run_job_def [where j = Check_Listings] split_beta)

text \<open>The state of a process, whether it goes on or not.\<close>

definition world_of :: "process \<Rightarrow> world" where
  "world_of p = (case p of Running _ s \<Rightarrow> s | Aborted s \<Rightarrow> s)"

lemma turn_moves:
  assumes "worker_laws L (mt_wenv (snd (snd e)))" "hash_keys_ok (mt_pay (snd (snd e)))" "app_worker_key A = Some key"
  shows "rows_move L key (wd_orders (world_of p)) (wd_orders (world_of (task_turn L A e p)))"
proof -
  have "rows_move L key (wd_orders s) (wd_orders (world_of (task_turn L A (j, w, M) (Running js s))))" if "snd (snd e) = M" for j w M js s
    using job_moves [of L M A key s j] assms that by (simp add: task_turn_def world_of_def split_beta)
  then show ?thesis
    by (cases e; cases p) (auto simp: task_turn_def [where p = "Aborted t" for t] world_of_def)
qed

lemma turns_move:
  assumes "\<And>n. worker_laws L (mt_wenv (snd (snd (ev n))))" "\<And>n. hash_keys_ok (mt_pay (snd (snd (ev n))))"
    and "app_worker_key A = Some key"
  shows "rows_move L key (wd_orders (world_of p)) (wd_orders (world_of (after_turns L A ev p n)))"
proof (induction n)
  case (Suc n)
  from rows_move_trans [OF this turn_moves [OF assms(1)[of n] assms(2)[of n] assms(3)]] show ?case by simp
qed simp

section \<open>An order that stops the worker\<close>

text \<open>An error of a visit to a Monero order is a panic, and the text of the amount alone decides it.\<close>

lemma check_xmr_order_result:
  "fst (check_xmr_order L A W P now (i, d) s) =
     (if escrow_address d \<noteq> None \<and> parse_xmr_amount_safe (unwrap_or (escrow_amount d) ''0'') = None then Inl Panicked else Inr ())"
  by (auto simp: check_xmr_order_def Let_def split_beta split: option.split sum.split verdict.split)

lemma check_xmr_payments_panics:
  assumes "(i, d) \<in> set xs" "escrow_address d \<noteq> None" "parse_xmr_amount_safe (unwrap_or (escrow_amount d) ''0'') = None"
  shows "fst (check_xmr_payments L A W P now xs s) = Inl Panicked"
  unfolding check_xmr_payments_def
  using assms(1)
proof (induction xs arbitrary: s)
  case (Cons x xs)
  obtain j d0 where x: "x = (j, d0)" by (cases x)
  show ?case
  proof (cases "fst (check_xmr_order L A W P now x s)")
    case (Inl e)
    then show ?thesis
      unfolding x using check_xmr_order_result [of L A W P now j d0 s] by (simp add: then_do_def split: if_splits)
  next
    case (Inr u)
    then have "(i, d) \<in> set xs"
      using Cons.prems assms(2,3) check_xmr_order_result [of L A W P now i d s] by auto
    then show ?thesis using Cons.IH Inr by (simp add: then_do_def)
  qed
qed simp

text \<open>The wallet's chain looks right to the client the process has.\<close>

definition chain_ok :: "pay_env \<Rightarrow> worker_state \<Rightarrow> bool" where
  "chain_ok P s \<longleftrightarrow> fst (with_xmr (xmr_check_for_fork (pe_xmr_node P) (cfg_monero (pe_config P)))
     (get_or_init_btc_client (get_or_init_xmr_client s))) = Inr False"

lemma poisoned_pass:
  assumes "app_worker_key A = Some key" "derive_domain_key L key ''payment-decrypt'' = Some sk" "hash_keys_ok P"
    and "orders_wf (ws_orders s)" "select_order i (ws_orders s) = Some r"
    and "load_order_data L sk key r = Some d" "classify d = XmrOrder"
    and "parse_xmr_amount_safe (unwrap_or (escrow_amount d) ''0'') = None"
    and "w_load_fault W = None" "chain_ok P s"
  shows "fst (check_pending_payments L A W P s) = Inl Panicked
     \<and> select_order i (ws_orders (snd (check_pending_payments L A W P s))) = Some r"
proof
  have d: "escrow_address d \<noteq> None" using assms(7) by (auto simp: classify_def split: if_splits)
  have r: "r \<in> set (ws_orders s)" "o_id r = i" using select_by_Some [OF assms(5)] by simp_all
  let ?items = "work_items L sk key XmrOrder (ws_orders s)"
  have mem: "(i, d) \<in> set ?items"
    using r assms(6,7) by (force simp: work_items_def List.map_filter_def image_iff)
  then have ne: "?items \<noteq> []" by auto
  obtain s1 where s1: "with_xmr (xmr_check_for_fork (pe_xmr_node P) (cfg_monero (pe_config P)))
      (get_or_init_btc_client (get_or_init_xmr_client s)) = (Inr False, s1)"
    using assms(10) by (cases "with_xmr (xmr_check_for_fork (pe_xmr_node P) (cfg_monero (pe_config P)))
      (get_or_init_btc_client (get_or_init_xmr_client s))") (simp add: chain_ok_def)
  have "fst (check_xmr_payments L A W P (floor_timestamp_6h (w_time W)) ?items s1) = Inl Panicked"
    using check_xmr_payments_panics [OF mem d assms(8)] .
  with ne s1 show "fst (check_pending_payments L A W P s) = Inl Panicked"
    using assms(1,2,9) by (simp add: check_pending_payments_def get_worker_key_def Let_def then_do_def split: sum.split)
next
  have none: "\<not> xmr_step P now d d1 d2" for now d1 d2
    using assms(8) by (simp add: xmr_step_def asked_def)
  obtain r' where r': "select_order i (ws_orders (snd (check_pending_payments L A W P s))) = Some r'"
    "r' = r \<or> (\<exists>sk. derive_domain_key L key ''payment-decrypt'' = Some sk
        \<and> polled L A W P (floor_timestamp_6h (w_time W)) sk key UNIV i r r')"
    using poll_row [OF assms(3,1,4,5)] by blast
  from r'(2) assms(2,6,7) none have "r' = r"
    by (auto simp: polled_def data_step_def poll_step_def)
  with r' show "select_order i (ws_orders (snd (check_pending_payments L A W P s))) = Some r" by simp
qed

text \<open>What a client has sealed and the API has stored is such an order.\<close>

lemma create_order_keeps_wf: "orders_wf (db_orders st) \<Longrightarrow> orders_wf (db_orders (snd (create_order L A E req st)))"
  by (cases rule: create_order_cases [of L A E req st]) (auto intro: orders_wf_insert)

lemma client_order_loads:
  assumes "aead_ok L" "x25519_ok L" "hex_ok L" "b64_ok L" "length nonce = 12"
    and "payment_pubkey_hex_from_worker_key L key = Some published" "hex_decode L published = Some pk"
    and "order_from_json L json = Inr d" "wasm_encrypt_order L esk nonce json pk = Inr blob"
    and "create_order L A E \<lparr>co_blob = b64_encode L blob, co_time_lock_days = days, co_nonce = n\<rparr> st = (Inr resp, st')"
  shows "\<exists>sk r. derive_domain_key L key ''payment-decrypt'' = Some sk \<and> select_order (random_id E) (db_orders st') = Some r
     \<and> load_order_data L sk key r = Some d"
proof -
  let ?req = "\<lparr>co_blob = b64_encode L blob, co_time_lock_days = days, co_nonce = n\<rparr>"
  obtain sk where sk: "derive_domain_key L key ''payment-decrypt'' = Some sk" "decrypt_ecdh_blob L blob sk = Some json"
    using client_order_opens [OF assms(1,2,3,5,6,7,9)] by blast
  have ok: "fst (create_order L A E ?req st) \<noteq> Inl e" for e using assms(10) by simp
  obtain b rows where b: "check_order_blob L (co_blob ?req) = Inr b"
    and rows: "insert_order (created_row A E ?req b) (db_orders st) = Some rows"
    and res: "create_order L A E ?req st = (Inr (created_response L ?req (created_row A E ?req b)),
       st\<lparr>order_create_nonces := insert (co_nonce ?req) (order_create_nonces st), db_orders := rows\<rparr>)"
    by (cases rule: create_order_cases [of L A E ?req st]) (use ok in auto)
  have "b = blob" using b assms(4) by (simp add: check_order_blob_Inr b64_ok_def)
  moreover have "select_order (random_id E) rows = Some (created_row A E ?req b)"
    using select_inserted [of o_id "created_row A E ?req b"] rows by (simp add: insert_order_def created_row_def new_order_row_def)
  ultimately show ?thesis
    using sk res assms(8,10) by (auto simp: load_order_data_def created_row_def new_order_row_def)
qed

section \<open>Properties\<close>


text \<open>
  C5. The worker as a whole keeps to the order state machine: whatever the five tasks do in whatever order and however
  often, and whatever the coin nodes answer, no order row disappears or gets a lower version, and a row that changes
  held an order that opens with the worker's key and now holds one in a state the machine reaches from the old one.
\<close>

theorem worker_follows_state_machine:
  assumes "\<And>n. worker_laws L (mt_wenv (snd (snd (ev n))))" "\<And>n. hash_keys_ok (mt_pay (snd (snd (ev n))))"
    and "app_worker_key A = Some key" "orders_wf (wd_orders s)" "select_order i (wd_orders s) = Some r"
  shows "\<exists>r'. select_order i (wd_orders (world_of (after_turns L A ev (Running all_jobs s) n))) = Some r'
     \<and> (r' = r \<or> (o_version r < o_version r' \<and> (\<exists>d d'. open_order L key r = Some d \<and> open_order L key r' = Some d'
          \<and> order_path (order_state d) (order_state d'))))"
  using turns_move [of L ev A key "Running all_jobs s" n, OF assms(1-3)] assms(4,5)
  by (simp add: rows_move_def moves_def world_of_def)

text \<open>
  C2. One order of one client stops the worker for good: a pending Monero order whose amount the parser cannot
  divide (\<open>1e-64\<close>), sealed by the client for the worker and accepted by the API, aborts the whole worker process at its next
  look at the payments, if the wallet answers; its row is still there afterwards, so that the same happens after every restart.
\<close>

theorem client_order_stops_worker:
  assumes "aead_ok L" "x25519_ok L" "hex_ok L" "b64_ok L" "length nonce = 12"
    and "payment_pubkey_hex_from_worker_key L key = Some published" "hex_decode L published = Some pk"
    and "order_from_json L json = Inr d" "classify d = XmrOrder" "parse_xmr_amount_safe (unwrap_or (escrow_amount d) ''0'') = None"
    and "wasm_encrypt_order L esk nonce json pk = Inr blob"
    and "create_order L A E \<lparr>co_blob = b64_encode L blob, co_time_lock_days = days, co_nonce = n\<rparr> st = (Inr resp, st')"
    and "app_worker_key B = Some key" "after_turns L B ev (Running all_jobs s) k = Running js t"
    and "ev k = (Poll_Payments, w, M)" "Poll_Payments \<in> set js" "\<not> should_stop w"
    and "orders_wf (wd_orders t)" "select_order (random_id E) (wd_orders t) = select_order (random_id E) (db_orders st')"
    and "w_load_fault (mt_wenv M) = None" "hash_keys_ok (mt_pay M)" "chain_ok (mt_pay M) (wd_pay t)"
  shows "\<exists>t'. run_workers L B X ev s = Some (Aborted t')
     \<and> select_order (random_id E) (wd_orders t') = select_order (random_id E) (db_orders st')"
proof -
  obtain sk r where r: "derive_domain_key L key ''payment-decrypt'' = Some sk" "select_order (random_id E) (db_orders st') = Some r"
    "load_order_data L sk key r = Some d"
    using client_order_loads [OF assms(1-8,11,12)] by blast
  have row: "select_order (random_id E) (ws_orders (wd_pay t)) = Some r" using assms(19) r(2) by simp
  let ?run = "check_pending_payments L B (mt_wenv M) (mt_pay M) (wd_pay t)"
  let ?t = "t\<lparr>wd_pay := snd ?run\<rparr>"
  have p: "fst ?run = Inl Panicked" "select_order (random_id E) (wd_orders ?t) = Some r"
    using poisoned_pass [OF assms(13) r(1) assms(21,18) row r(3) assms(9,10,20,22)] by simp_all
  have "after_turns L B ev (Running all_jobs s) (Suc k) = Aborted ?t"
    using assms(14-17) p(1) by (simp add: task_turn_def run_job_def split_beta)
  then have "run_tasks L B ev 0 (Running all_jobs s) = Some (Aborted ?t)"
    unfolding run_tasks_iff by (intro exI [of _ "Suc k"]) (simp add: over_def)
  then show ?thesis
    using p(2) r(2) assms(13) by (simp add: run_workers_def assert_worker_state_def)
qed

section \<open>Witnesses\<close>

definition demo_meets :: meets where
  "demo_meets = \<lparr>mt_wenv = demo_wenv 7, mt_pay = demo_pay_env, mt_scan = demo_scan_env, mt_draws = demo_draws\<rparr>"

definition demo_world :: "orders \<Rightarrow> world" where
  "demo_world os = \<lparr>wd_pay = \<lparr>ws_orders = os, ws_xmr = None, ws_btc = None, ws_sent = []\<rparr>, wd_listings = [],
     wd_tracker = [], wd_last_block = None\<rparr>"

definition demo_turns :: "nat \<Rightarrow> job \<times> wake \<times> meets" where
  "demo_turns n = (Poll_Payments, Slept, demo_meets)"

lemma demo_turns_ok:
  "worker_laws (demo_worker ds) (mt_wenv (snd (snd (demo_turns n))))" "hash_keys_ok (mt_pay (snd (snd (demo_turns n))))"
  by (simp_all add: demo_turns_def demo_meets_def demo_worker_laws demo_pay_env_ok)

lemma worker_follows_state_machine_witness:
  "\<exists>r'. select_order [1] (wd_orders (world_of (after_turns (demo_worker [demo_order]) demo_app demo_turns
        (Running all_jobs (demo_world [new_order_row [1] (demo_blob 0) 0 None])) 5))) = Some r' \<and> 1 \<le> o_version r'"
proof -
  let ?r = "new_order_row [1] (demo_blob 0) 0 None"
  have "orders_wf (wd_orders (demo_world [?r]))" "select_order [1] (wd_orders (demo_world [?r])) = Some ?r"
    by (simp_all add: demo_world_def orders_wf_def select_by_def new_order_row_def)
  from worker_follows_state_machine [where L = "demo_worker [demo_order]" and ev = demo_turns and n = 5, OF demo_turns_ok demo_pay_env_ok(2) this]
  show ?thesis by (auto simp: new_order_row_def)
qed

definition bad_order :: order_data where
  "bad_order = demo_order\<lparr>escrow_amount := Some ''1e-64''\<rparr>"

lemma demo_worker_laws_api:
  "x25519_ok (demo_worker ds)" "hex_ok (demo_worker ds)" "b64_ok (demo_worker ds)"
  using demo_x25519_ok demo_hex_ok demo_b64_ok by (simp_all add: demo_worker_def x25519_ok_def hex_ok_def b64_ok_def)

lemma demo_chain_ok: "chain_ok demo_pay_env (wd_pay (demo_world os))"
proof -
  note calls = serves_chain_calls [OF demo_serves, of 20 "\<lambda>_. ''a''" "[demo_tx]"]
  show ?thesis
    by (simp add: chain_ok_def demo_world_def demo_pay_env_def with_xmr_def get_or_init_xmr_client_def get_or_init_btc_client_def
        xmr_check_for_fork_def calls new_xmr_client_def split_beta)
qed

lemma client_order_stops_worker_witness:
  "\<exists>published pk blob resp st' t'. payment_pubkey_hex_from_worker_key (demo_worker [bad_order]) (replicate 32 3) = Some published
     \<and> hex_decode (demo_worker [bad_order]) published = Some pk
     \<and> wasm_encrypt_order (demo_worker [bad_order]) [1] (replicate 12 0) [] pk = Inr blob
     \<and> create_order (demo_worker [bad_order]) plain_app plain_env
         \<lparr>co_blob = b64_encode (demo_worker [bad_order]) blob, co_time_lock_days = None, co_nonce = ''n''\<rparr> empty_api = (Inr resp, st')
     \<and> run_workers (demo_worker [bad_order]) demo_app (demo_outside default_config []) demo_turns (demo_world (db_orders st')) = Some (Aborted t')
     \<and> select_order [2] (wd_orders t') \<noteq> None"
proof -
  let ?L = "demo_worker [bad_order]"
  obtain published pk where p: "payment_pubkey_hex_from_worker_key ?L (replicate 32 3) = Some published"
    "hex_decode ?L published = Some pk" "length pk = 32"
    by (simp add: payment_pubkey_hex_from_worker_key_def derive_domain_key_def demo_worker_def demo_ext_sel demo_unhex_hex)
  obtain blob where blob: "wasm_encrypt_order ?L [1] (replicate 12 0) [] pk = Inr blob" "length blob = 60"
    using p(3) by (simp add: wasm_encrypt_order_def demo_worker_def demo_ext_sel cipher_new_def)
  let ?req = "\<lparr>co_blob = b64_encode ?L blob, co_time_lock_days = None, co_nonce = ''n''\<rparr>"
  have "check_order_blob ?L (co_blob ?req) = Inr blob"
    using demo_worker_laws_api(3) [of "[bad_order]"] blob(2)
    by (auto simp: check_order_blob_Inr b64_ok_def max_order_blob_bytes_def)
  then have "is_ok (fst (create_order ?L plain_app plain_env ?req empty_api))"
    using create_order_fresh [of ?L ?req blob empty_api plain_app plain_env]
    by (simp add: plain_env_def empty_api_def insert_order_def insert_row_def Let_def)
  then obtain resp st' where run: "create_order ?L plain_app plain_env ?req empty_api = (Inr resp, st')"
    by (auto simp: is_ok_iff prod_eq_iff)
  have bad: "order_from_json ?L [] = Inr bad_order" "classify bad_order = XmrOrder"
    "parse_xmr_amount_safe (unwrap_or (escrow_amount bad_order) ''0'') = None" "length (replicate 12 0 :: bytes) = 12"
    using xmr_amount_panics_witness
    by (simp_all add: demo_worker_def demo_from_json_def bad_order_def classify_def demo_order_def)
  have wf: "orders_wf (wd_orders (demo_world (db_orders st')))"
    using create_order_keeps_wf [of empty_api ?L plain_app plain_env ?req] run
    by (simp add: demo_world_def empty_api_def orders_wf_def)
  have turn: "after_turns ?L demo_app demo_turns (Running all_jobs (demo_world (db_orders st'))) 0
      = Running all_jobs (demo_world (db_orders st'))"
    "demo_turns 0 = (Poll_Payments, Slept, demo_meets)" "Poll_Payments \<in> set all_jobs" "\<not> should_stop Slept"
    "select_order (random_id plain_env) (wd_orders (demo_world (db_orders st'))) = select_order (random_id plain_env) (db_orders st')"
    "w_load_fault (mt_wenv demo_meets) = None" "hash_keys_ok (mt_pay demo_meets)"
    "chain_ok (mt_pay demo_meets) (wd_pay (demo_world (db_orders st')))"
    using demo_chain_ok demo_pay_env_ok by (simp_all add: demo_turns_def should_stop_def demo_world_def demo_meets_def demo_wenv_def)
  obtain t' where "run_workers ?L demo_app (demo_outside default_config []) demo_turns (demo_world (db_orders st')) = Some (Aborted t')"
    "select_order (random_id plain_env) (wd_orders t') = select_order (random_id plain_env) (db_orders st')"
    using client_order_stops_worker [OF demo_worker_ok(1) demo_worker_laws_api bad(4) p(1,2) bad(1-3) blob(1) run demo_pay_env_ok(2)
        turn(1-4) wf turn(5-8)] by blast
  moreover have "select_order (random_id plain_env) (db_orders st') \<noteq> None"
    using client_order_loads [OF demo_worker_ok(1) demo_worker_laws_api bad(4) p(1,2) bad(1) blob(1) run] by auto
  ultimately show ?thesis using p(1,2) blob(1) run by (intro exI conjI) (assumption | simp add: plain_env_def)+
qed

end
