(* ===== verification/Key_Material.thy ===== *)
theory Key_Material
  imports Worker_Process Admin
begin

text \<open>
  How keys and the configuration are made, stored and read back: the administrator's key pair of
  \<^verbatim>\<open>crypto/blind_sig.rs\<close> and its choice in \<^verbatim>\<open>build_router\<close>, the key-encryption and content keys of \<^verbatim>\<open>crypto/zk.rs\<close>, the
  random challenges of \<^verbatim>\<open>crypto/wallet.rs\<close>, \<^verbatim>\<open>Config::save\<close>, and \<^verbatim>\<open>validate_json\<close> of \<^verbatim>\<open>gateway/validation.rs\<close>.
  Random bytes are arguments.
\<close>

section \<open>The administrator's key pair\<close>

text \<open>The \<^verbatim>\<open>rsa\<close> crate: PKCS#1 DER of a private key, and a new key of so many bits (\<^const>\<open>None\<close>: \<open>expect\<close> panics).\<close>

record rsa_crate =
  to_pkcs1_der :: "rsa_private \<Rightarrow> string + bytes"
  from_pkcs1_der :: "bytes \<Rightarrow> string + rsa_private"
  rsa_new :: "nat \<Rightarrow> rsa_private option"

definition rsa_der_ok :: "rsa_crate \<Rightarrow> bool" where
  "rsa_der_ok R \<longleftrightarrow> (\<forall>sk der. to_pkcs1_der R sk = Inr der \<longrightarrow> from_pkcs1_der R der = Inr sk)"

definition keypair_of :: "rsa_private \<Rightarrow> admin_keypair" where
  "keypair_of private = \<lparr>kp_private = private, kp_public = rsa_public_from private\<rparr>"

definition keypair_from_hex :: "ext \<Rightarrow> rsa_crate \<Rightarrow> string \<Rightarrow> string + admin_keypair" where
  "keypair_from_hex L R hex_str =
     and_then (ok_or (''invalid hex: '' @ hex_error L hex_str) (hex_decode L hex_str)) (\<lambda>der.
     and_then (map_err (\<lambda>e. ''invalid PKCS#1 DER: '' @ e) (from_pkcs1_der R der)) (\<lambda>private.
       Inr (keypair_of private)))"

definition privkey_hex :: "ext \<Rightarrow> rsa_crate \<Rightarrow> admin_keypair \<Rightarrow> string + string" where
  "privkey_hex L R kp =
     and_then (map_err (\<lambda>e. ''PKCS#1 DER encoding: '' @ e) (to_pkcs1_der R (kp_private kp))) (\<lambda>der.
       Inr (hex_encode L der))"

definition blind_sig_min_bits :: nat where "blind_sig_min_bits = 2048"
definition blind_sig_max_bits :: nat where "blind_sig_max_bits = 4096"

definition generate_admin_keypair :: "rsa_crate \<Rightarrow> nat \<Rightarrow> admin_keypair option" where
  "generate_admin_keypair R bits =
     (let bits = max blind_sig_min_bits (min blind_sig_max_bits bits)
      in map_option keypair_of (rsa_new R bits))"

text \<open>The choice \<open>build_router\<close> makes; the outer \<^const>\<open>None\<close> is the panic of the key generation.\<close>

definition router_keypair :: "ext \<Rightarrow> rsa_crate \<Rightarrow> config \<Rightarrow> admin_keypair option option" where
  "router_keypair L R G =
     (case admin_privkey_hex (cfg_security G) of
        Some hex_str \<Rightarrow> (case keypair_from_hex L R hex_str of Inr kp \<Rightarrow> Some (Some kp) | Inl e \<Rightarrow> Some None)
      | None \<Rightarrow> map_option Some (generate_admin_keypair R 2048))"

lemma router_keypair_app:
  "router_keypair L R G = Some ko \<Longrightarrow>
     ko = app_admin_keypair (api_app (keypair_from_hex L R) (the (generate_admin_keypair R 2048)) G)"
  by (auto simp: router_keypair_def api_app_def split: option.splits sum.splits)

lemma keypair_roundtrip:
  assumes "hex_ok L" "rsa_der_ok R" "privkey_hex L R (keypair_of sk) = Inr h"
  shows "keypair_from_hex L R h = Inr (keypair_of sk)"
  using assms by (auto simp: privkey_hex_def keypair_from_hex_def keypair_of_def rsa_der_ok_def hex_ok_def)

lemma generated_bits:
  "generate_admin_keypair R bits = Some kp \<Longrightarrow>
     \<exists>b sk. 2048 \<le> b \<and> b \<le> 4096 \<and> rsa_new R b = Some sk \<and> kp = keypair_of sk"
  by (auto simp: generate_admin_keypair_def blind_sig_min_bits_def blind_sig_max_bits_def Let_def
      intro!: exI [of _ "max 2048 (min 4096 bits)"])

section \<open>Symmetric keys\<close>

text \<open>A key of 32 bytes is the list of its bytes; \<open>new\<close> is given the bytes of the operating system.\<close>

definition kek_from_bytes :: "bytes \<Rightarrow> bytes" where "kek_from_bytes bs = bs"
definition kek_new :: "bytes \<Rightarrow> bytes" where "kek_new random = random"

text \<open>\<open>pbkdf2\<close> is \<^verbatim>\<open>pbkdf2_hmac::<Sha256>\<close>: password, salt, rounds and length of the key.\<close>

definition kek_from_password :: "(bytes \<Rightarrow> bytes \<Rightarrow> nat \<Rightarrow> nat \<Rightarrow> bytes) \<Rightarrow> string \<Rightarrow> bytes \<Rightarrow> bytes" where
  "kek_from_password pbkdf2 password salt = pbkdf2 (as_bytes password) salt 600000 32"

definition generate_from_text :: "ext \<Rightarrow> string \<Rightarrow> bytes \<Rightarrow> bytes list" where
  "generate_from_text L text_input search_key = map (\<lambda>word. search_token_generate L word search_key) (words_from [] text_input)"

definition content_key_new :: "bytes \<Rightarrow> bytes" where "content_key_new random = random"

definition generate_challenge :: "bytes \<Rightarrow> bytes" where "generate_challenge random = random"

text \<open>The tokens the browser computes for a text are those of the server, short words left out.\<close>

lemma browser_tokens:
  "generate_search_tokens L s k = map (\<lambda>w. search_token_generate L w k) (filter (\<lambda>w. \<not> length w < 2) (words_from [] s))
     \<and> set (generate_search_tokens L s k) \<subseteq> set (generate_from_text L s k)"
  by (auto simp: generate_search_tokens_def generate_from_text_def search_token_generate_def)

section \<open>Saving the configuration\<close>

text \<open>\<open>toml\<close>: \<^verbatim>\<open>toml::to_string_pretty\<close>; \<open>fault\<close>: the error of writing the file.\<close>

definition save_config :: "(config \<Rightarrow> string + string) \<Rightarrow> string option \<Rightarrow> outside \<Rightarrow> config \<Rightarrow> (string + unit) \<times> outside" where
  "save_config toml fault X c =
     then_do (map_err (\<lambda>e. ''Failed to serialize config: '' @ e) (toml c), X) (\<lambda>toml_string X.
       case fault of
         Some e \<Rightarrow> (Inl (''Failed to write config file: '' @ e), X)
       | None \<Rightarrow> (Inr (), X\<lparr>file_exists := (file_exists X)(config_path X := True),
                          read_file := (read_file X)(config_path X := Inr toml_string)\<rparr>))"

lemma apply_env_overrides_env: "env_var X' = env_var X \<Longrightarrow> apply_env_overrides X' c = apply_env_overrides X c"
  by (simp add: apply_env_overrides_def override_def Let_def)

lemma saved_then_loaded:
  assumes "toml c = Inr s" "toml_parse X s = Inr c" "save_config toml None X c = (Inr (), X')"
  shows "load_config X' = Inr (apply_env_overrides X c)"
proof -
  have X': "X' = X\<lparr>file_exists := (file_exists X)(config_path X := True), read_file := (read_file X)(config_path X := Inr s)\<rparr>"
    using assms by (simp add: save_config_def then_do_def)
  then have "config_path X' = config_path X" by (simp add: config_path_def)
  with X' assms(2) show ?thesis
    using apply_env_overrides_env [of X' X c] by (simp add: load_config_def)
qed

section \<open>Validated request bodies\<close>

text \<open>\<open>from_str\<close>: \<^verbatim>\<open>serde_json::from_str\<close>; \<open>validate\<close>: the trait's method.\<close>

definition validate_json :: "(string \<Rightarrow> string + 'a) \<Rightarrow> ('a \<Rightarrow> string + unit) \<Rightarrow> string \<Rightarrow> string + 'a" where
  "validate_json from_str validate b =
     and_then (map_err (\<lambda>e. ''Invalid JSON: '' @ e) (from_str b)) (\<lambda>v.
     and_then (validate v) (\<lambda>_. Inr v))"

section \<open>Properties\<close>

text \<open>
  C40. The administrator's key survives a restart: when the private key of a pair is exported in hex, stored in the
  configuration and the configuration saved to the file the process reads, the API process that starts afterwards signs
  with exactly this key and publishes its public key.
\<close>

theorem admin_key_survives:
  assumes "hex_ok L" "rsa_der_ok R" "privkey_hex L R (keypair_of sk) = Inr h"
    and "admin_privkey_hex (cfg_security c) = Some h"
    and "toml c = Inr s" "toml_parse X s = Inr c" "save_config toml fault X c = (Inr (), X')"
    and "api_main L X' H random (keypair_from_hex L R) generated K = (Inr (A, pool, kek, limiter), K')"
  shows "app_admin_keypair A = Some (keypair_of sk)
     \<and> get_admin_pubkey L A = map_err (\<lambda>e. Internal (''Failed to serialize pubkey: '' @ e)) (pubkey_hex L (keypair_of sk))"
proof -
  have "fault = None" using assms(5,7) by (cases fault) (auto simp: save_config_def then_do_def)
  with saved_then_loaded assms(5-7) have load: "load_config X' = Inr (apply_env_overrides X c)" by blast
  have "cfg_security (apply_env_overrides X c) = cfg_security c"
    by (simp add: apply_env_overrides_def override_def Let_def split: option.split)
  moreover have "A = api_app (keypair_from_hex L R) generated (apply_env_overrides X c)"
    using assms(8) load by (auto simp: api_main_def then_do_Inr)
  ultimately have "app_admin_keypair A = Some (keypair_of sk)"
    using keypair_roundtrip [OF assms(1-3)] assms(4) by (simp add: api_app_def)
  then show ?thesis by (simp add: get_admin_pubkey_def)
qed

definition demo_rsa_key :: rsa_private where
  "demo_rsa_key = \<lparr>sk_n = 3233, sk_e = 17, sk_d = 413\<rparr>"

definition demo_rsa :: rsa_crate where
  "demo_rsa = \<lparr>to_pkcs1_der = (\<lambda>sk. if sk = demo_rsa_key then Inr [1, 2] else Inl ''unknown''),
     from_pkcs1_der = (\<lambda>_. Inr demo_rsa_key), rsa_new = (\<lambda>_. Some demo_rsa_key)\<rparr>"

definition demo_admin_config :: config where
  "demo_admin_config = default_config
     \<lparr>cfg_server := default_server_config\<lparr>server_secret := replicate 32 CHR ''s''\<rparr>,
      cfg_security := default_security_config\<lparr>admin_privkey_hex := Some (demo_hex [1, 2])\<rparr>\<rparr>"

lemma admin_key_survives_witness:
  "let X = demo_outside demo_admin_config (hex_encode demo_ext (replicate 32 4)) in
     \<exists>X' A pool kek limiter K'. save_config (\<lambda>_. Inr []) None X demo_admin_config = (Inr (), X')
       \<and> api_main demo_ext X' demo_host [] (keypair_from_hex demo_ext demo_rsa) (keypair_of demo_rsa_key) demo_disk
           = (Inr (A, pool, kek, limiter), K')
       \<and> app_admin_keypair A = Some (keypair_of demo_rsa_key)"
proof -
  let ?X = "demo_outside demo_admin_config (hex_encode demo_ext (replicate 32 4))"
  obtain X' where X': "save_config (\<lambda>_. Inr []) None ?X demo_admin_config = (Inr (), X')"
    "X' = ?X\<lparr>file_exists := (file_exists ?X)(config_path ?X := True), read_file := (read_file ?X)(config_path ?X := Inr [])\<rparr>"
    by (simp add: save_config_def then_do_def)
  have rsa: "rsa_der_ok demo_rsa" "privkey_hex demo_ext demo_rsa (keypair_of demo_rsa_key) = Inr (demo_hex [1, 2])"
    "admin_privkey_hex (cfg_security demo_admin_config) = Some (demo_hex [1, 2])"
    by (simp_all add: rsa_der_ok_def demo_rsa_def privkey_hex_def keypair_of_def demo_ext_sel demo_admin_config_def)
  have toml: "(\<lambda>_. Inr []) demo_admin_config = (Inr [] :: string + string)" "toml_parse ?X [] = Inr demo_admin_config"
    by (simp_all add: demo_outside_def)
  have env: "apply_env_overrides X' demo_admin_config = demo_admin_config"
    by (simp add: X'(2) demo_outside_def apply_env_overrides_def override_def Let_def)
  have load: "load_config X' = Inr demo_admin_config"
    using saved_then_loaded [OF toml X'(1)] env apply_env_overrides_env [of X' ?X] by (simp add: X'(2))
  have checks: "api_startup_checks X' demo_admin_config = Inr ()"
    by (simp add: api_startup_checks_def production_def X'(2) demo_outside_def demo_admin_config_def default_config_def
        default_server_config_def default_monero_config_def default_bitcoin_config_def default_security_config_def)
  have kek: "api_load_kek demo_ext X' [] = Inr (replicate 32 4)"
    using kek_from_env_ok [OF demo_hex_ok, of "replicate 32 4"] by (simp add: api_load_kek_def X'(2) demo_outside_def)
  obtain pool K' where res: "open_resources demo_host api_no_postgres demo_admin_config demo_disk = (Inr pool, K')"
    using demo_resources [of demo_admin_config "''data/marketplace.db''" api_no_postgres]
    by (fastforce simp: demo_admin_config_def default_config_def default_database_config_def)
  obtain A limiter where run: "api_main demo_ext X' demo_host [] (keypair_from_hex demo_ext demo_rsa) (keypair_of demo_rsa_key) demo_disk
      = (Inr (A, pool, replicate 32 4, limiter), K')"
    using load checks kek res by (simp add: api_main_def then_do_def)
  from admin_key_survives [OF demo_hex_ok rsa toml X'(1) run] X'(1) run show ?thesis by (auto simp: Let_def)
qed

end
