(* ===== verification/Timing.thy ===== *)
theory Timing
  imports Worker_Tasks Float64
begin

text \<open>
  The lengths of the random pauses: between two rounds of a worker task (\<^verbatim>\<open>jittered_interval\<close> of
  \<^verbatim>\<open>worker/mod.rs\<close>) and around an RPC call (\<^verbatim>\<open>services/payments/xmr.rs\<close> and \<^verbatim>\<open>btc.rs\<close>).  A draw is an
  argument; \<open>in_range\<close> is what \<^verbatim>\<open>gen_range(lo..hi)\<close> promises of it.
\<close>

section \<open>Definitions\<close>

definition in_range :: "rat \<Rightarrow> rat \<Rightarrow> f64 \<Rightarrow> bool" where
  "in_range lo hi x = (case x of Finite y \<Rightarrow> (lo \<le> y \<and> y < hi) | _ \<Rightarrow> False)"

definition jittered_interval :: "nat \<Rightarrow> f64 \<Rightarrow> nat" where
  "jittered_interval base_secs jitter = f64_as_u64 (f64_mul (u64_as_f64 base_secs) jitter)"

definition base_secs :: "job \<Rightarrow> nat" where
  "base_secs j =
     (case j of Poll_Payments \<Rightarrow> 60 | Check_Time_Locks \<Rightarrow> 120 | Check_Listings \<Rightarrow> 240
      | Scan_Notifications \<Rightarrow> 60 | Make_Dummies \<Rightarrow> 300)"

definition jitter_baseline_ms :: nat where "jitter_baseline_ms = 1000"

definition xmr_jitter_ms :: "f64 \<Rightarrow> nat" where
  "xmr_jitter_ms draw = f64_as_u64 (f64_mul (u64_as_f64 jitter_baseline_ms) draw)"

text \<open>The range of \<^verbatim>\<open>jitter_delay\<close>, in whole milliseconds.\<close>

definition btc_jitter_range :: "nat \<times> nat" where
  "btc_jitter_range = (jitter_baseline_ms * 7 div 10, jitter_baseline_ms * 13 div 10)"

section \<open>Bounds\<close>

lemma scaled_between:
  assumes "of_nat a \<le> of_nat n * x" "of_nat n * x \<le> of_nat b" "b < 2 ^ 53" "n < 2 ^ 53"
  shows "a \<le> f64_as_u64 (f64_mul (u64_as_f64 n) (Finite x)) \<and> f64_as_u64 (f64_mul (u64_as_f64 n) (Finite x)) \<le> b"
proof -
  let ?y = "of_nat n * x"
  have b: "of_nat b < (2 ^ 53 :: rat)" using assms(3) by (metis of_nat_less_iff of_nat_numeral of_nat_power)
  have pos: "0 \<le> ?y" using assms(1) by (rule order.trans [rotated]) simp
  with assms(2) b have small: "\<bar>?y\<bar> < 2 ^ 53" by simp
  then have near: "of_nat a \<le> nearest ?y" "nearest ?y \<le> of_nat b"
    using nearest_ge [OF small, of "int a"] nearest_le [OF small, of "int b"] assms(1,2) by simp_all
  then have "int a \<le> \<lfloor>nearest ?y\<rfloor>" "\<lfloor>nearest ?y\<rfloor> \<le> int b"
    by (simp_all add: le_floor_iff floor_le_iff)
  moreover have "0 \<le> nearest ?y" using near(1) by (rule order.trans [rotated]) simp
  moreover have "b \<le> u64_max" using assms(3) by (simp add: u64_max_def)
  ultimately show ?thesis
    using assms(4) by (simp add: u64_as_f64_small to_f64_Finite [OF small] round_to_zero_def) linarith
qed

lemma even_scaled:
  fixes y :: rat
  assumes "1 / 2 \<le> y" "y < 3 / 2"
  shows "of_nat k \<le> of_nat (2 * k) * y" "of_nat (2 * k) * y \<le> of_nat (3 * k)"
  using mult_left_mono [OF assms(1), of "of_nat (2 * k)"] mult_left_mono [OF less_imp_le [OF assms(2)], of "of_nat (2 * k)"]
  by simp_all

lemma xmr_endpoints: "nearest (1000 * nearest (7 / 10)) = 700" "nearest (1000 * nearest (13 / 10)) = 1300"
  "0 < nearest (7 / 10)" "nearest (13 / 10) \<le> 2"
  by code_simp+

lemma xmr_pause:
  assumes "in_range (nearest (7 / 10)) (nearest (13 / 10)) x"
  shows "700 \<le> xmr_jitter_ms x \<and> xmr_jitter_ms x \<le> 1300"
proof -
  obtain y where y: "x = Finite y" "nearest (7 / 10) \<le> y" "y < nearest (13 / 10)"
    using assms by (auto simp: in_range_def split: f64.splits)
  then have pos: "0 < 1000 * nearest (7 / 10)" "0 < 1000 * y" "1000 * y \<le> 2000"
    using xmr_endpoints(3,4) by simp_all
  have "700 \<le> nearest (1000 * y)"
    using nearest_mono [OF pos(1), of "1000 * y"] y(2) xmr_endpoints(1) by simp
  moreover have "nearest (1000 * y) \<le> 1300"
    using nearest_mono [OF pos(2), of "1000 * nearest (13 / 10)"] y(3) xmr_endpoints(2) by simp
  ultimately have "700 \<le> \<lfloor>nearest (1000 * y)\<rfloor>" "\<lfloor>nearest (1000 * y)\<rfloor> \<le> 1300" "0 \<le> nearest (1000 * y)"
    by (simp_all add: le_floor_iff floor_le_iff)
  moreover have "u64_as_f64 jitter_baseline_ms = Finite 1000"
    using u64_as_f64_small [of 1000] by (simp add: jitter_baseline_ms_def)
  ultimately show ?thesis
    using pos by (simp add: xmr_jitter_ms_def y(1) to_f64_Finite round_to_zero_def u64_max_def) linarith
qed

text \<open>
  The pauses are as long as the comments say.  Between two rounds of a worker task pass 30 to 90 seconds for the
  payment poller and the notification scanner, 60 to 180 for the time locks, 120 to 360 for the listings and 150 to
  450 for the dummy orders; around a Monero call pass 700 to 1300 milliseconds, though the float 0.7 is less than
  seven tenths and 1.3 more than thirteen; these are the ends of the interval the Bitcoin client draws from.
\<close>

theorem pauses_in_their_intervals:
  assumes "in_range (1 / 2) (3 / 2) x" "in_range (nearest (7 / 10)) (nearest (13 / 10)) z"
  shows "base_secs j div 2 \<le> jittered_interval (base_secs j) x
    \<and> jittered_interval (base_secs j) x \<le> base_secs j + base_secs j div 2
    \<and> fst btc_jitter_range \<le> xmr_jitter_ms z \<and> xmr_jitter_ms z \<le> snd btc_jitter_range"
proof -
  obtain y where y: "x = Finite y" "1 / 2 \<le> y" "y < 3 / 2" using assms(1) by (auto simp: in_range_def split: f64.splits)
  obtain k where k: "base_secs j = 2 * k" "3 * k < 2 ^ 53" "base_secs j div 2 = k" "base_secs j + base_secs j div 2 = 3 * k"
  proof (rule that [of "base_secs j div 2"])
  qed (simp_all add: base_secs_def split: job.split)
  have "k \<le> jittered_interval (2 * k) x \<and> jittered_interval (2 * k) x \<le> 3 * k"
    unfolding jittered_interval_def y(1) using k(2) by (intro scaled_between even_scaled y(2,3)) simp_all
  with k(1,3,4) xmr_pause [OF assms(2)] show ?thesis by (simp add: btc_jitter_range_def jitter_baseline_ms_def)
qed

lemma pauses_in_their_intervals_witness:
  "30 \<le> jittered_interval 60 (Finite (3 / 4)) \<and> jittered_interval 60 (Finite (3 / 4)) \<le> 90"
proof -
  have "in_range (nearest (7 / 10)) (nearest (13 / 10)) (Finite 1)" by code_simp
  with pauses_in_their_intervals [of "Finite (3 / 4)" "Finite 1" Poll_Payments]
  show ?thesis by (simp add: in_range_def base_secs_def)
qed

end
