(* ===== verification/Btc_Amounts.thy ===== *)
theory Btc_Amounts
  imports Amounts Btc_Client
begin

text \<open>
  The two readers of a bitcoin amount: \<^verbatim>\<open>parse_btc_amount\<close> of \<^verbatim>\<open>services/payments/btc.rs\<close> goes through a float,
  \<^verbatim>\<open>parse_btc_amount_safe\<close> of \<^verbatim>\<open>background/payment_poller.rs\<close> stays with integers.
\<close>

lemma parse_exponent_none [simp]: "parse_exponent [] = Some 0"
  by (simp add: parse_exponent_def)

lemma parse_decimal_point:
  assumes "digits w" "digits f" "w @ f \<noteq> []"
  shows "parse_decimal (w @ CHR ''.'' # f) = Some (of_nat (digits_val (w @ f)) / 10 ^ length f)"
proof -
  have "\<not> is_digit CHR ''.''" by (simp add: is_digit_def)
  then have cut: "takeWhile is_digit (w @ CHR ''.'' # f) = w" "dropWhile is_digit (w @ CHR ''.'' # f) = CHR ''.'' # f"
    using assms(1) by (simp_all add: takeWhile_append dropWhile_append list_all_iff)
  have all: "takeWhile is_digit f = f" "dropWhile is_digit f = []"
    using assms(2) by (simp_all add: takeWhile_eq_all_conv dropWhile_eq_Nil_conv list_all_iff)
  show ?thesis
    using assms(3) by (simp add: parse_decimal_def cut all power_int_minus divide_inverse)
qed

lemma parse_f64_point:
  assumes "digits w" "digits f" "w @ f \<noteq> []"
  shows "parse_f64 (w @ CHR ''.'' # f) = Some (to_f64 (of_nat (digits_val (w @ f)) / 10 ^ length f))"
proof -
  obtain c s where c: "w @ CHR ''.'' # f = c # s" by (cases "w @ CHR ''.'' # f") auto
  then have "is_digit c \<or> c = CHR ''.''" using assms(1) by (cases w) auto
  then have "lower_ascii c = c" "c \<notin> set ''+-in''" by (auto simp: lower_ascii_def is_digit_def)
  then show ?thesis
    using parse_decimal_point [OF assms] by (simp add: c parse_f64_def take_sign_def)
qed



text \<open>
  They differ on words: the float reader takes every spelling of infinity for the largest amount there is.
\<close>

lemma parse_btc_amount_infinite: "parse_btc_amount ''inf'' = Inr u64_max"
  by (simp add: parse_btc_amount_def parse_f64_def take_sign_def lower_ascii_def btc_f64_to_sats_def
      dust_threshold_sats_def u64_max_def Let_def)

end
