(* ===== verification/Differential_Privacy.thy ===== *)
theory Differential_Privacy
  imports Zk Float64
begin

text \<open>
  \<^verbatim>\<open>src/src/crypto/differential_privacy.rs\<close>: Laplace noise on timestamps.  The natural logarithm of the platform
  is the parameter \<open>lnf\<close>.  \<^verbatim>\<open>rng.gen::<f64>()\<close> is \<open>k / 2 ^ 53\<close> for a uniform \<open>k < 2 ^ 53\<close>, and \<open>k\<close> is an argument.
\<close>

section \<open>Definitions\<close>

definition default_epsilon :: f64 where "default_epsilon = Finite 1"
definition bucket_sensitivity :: f64 where "bucket_sensitivity = Finite 21600"

definition uniform :: "nat \<Rightarrow> f64" where "uniform k = Finite (of_nat k / 2 ^ 53)"

definition laplace_noise :: "(f64 \<Rightarrow> f64) \<Rightarrow> f64 \<Rightarrow> nat \<Rightarrow> f64" where
  "laplace_noise lnf scale k =
     (if f64_le_zero scale then Finite 0
      else let s = f64_sub (uniform k) (Finite (1 / 2));
               log_arg = f64_max_pos (f64_sub (Finite 1) (f64_mul (Finite 2) (f64_abs s))) min_positive;
               sign = (if f64_ge_zero s then Finite 1 else Finite (- 1))
           in f64_mul (f64_mul (f64_neg scale) sign) (lnf log_arg))"

definition noisy_offset :: "(f64 \<Rightarrow> f64) \<Rightarrow> f64 \<Rightarrow> f64 \<Rightarrow> nat \<Rightarrow> int" where
  "noisy_offset lnf epsilon sensitivity k =
     (if f64_le_zero epsilon then 0
      else f64_as_i64 (f64_round (laplace_noise lnf (f64_div sensitivity epsilon) k)))"

definition noisy_timestamp :: "(f64 \<Rightarrow> f64) \<Rightarrow> int \<Rightarrow> f64 \<Rightarrow> f64 \<Rightarrow> nat \<Rightarrow> int" where
  "noisy_timestamp lnf timestamp epsilon sensitivity k =
     saturating_add_i64 timestamp (noisy_offset lnf epsilon sensitivity k)"

definition floor_to_bucket :: "int \<Rightarrow> int \<Rightarrow> int" where
  "floor_to_bucket timestamp bucket_size = trunc_div timestamp bucket_size * bucket_size"

definition noisy_bucket :: "(f64 \<Rightarrow> f64) \<Rightarrow> int \<Rightarrow> f64 \<Rightarrow> nat \<Rightarrow> int" where
  "noisy_bucket lnf timestamp epsilon k =
     floor_to_bucket (noisy_timestamp lnf timestamp epsilon bucket_sensitivity k) 21600"

section \<open>The draws\<close>

text \<open>Everything up to the logarithm is exact.\<close>

lemma draw_exact:
  assumes "k < 2 ^ 53"
  shows "f64_sub (uniform k) (Finite (1 / 2)) = Finite (of_nat k / 2 ^ 53 - 1 / 2)"
    and "f64_sub (Finite 1) (f64_mul (Finite 2) (f64_abs (Finite (of_nat k / 2 ^ 53 - 1 / 2))))
      = Finite (1 - 2 * \<bar>of_nat k / 2 ^ 53 - 1 / 2\<bar>)"
    and "\<bar>of_nat k / 2 ^ 53 - 1 / 2 :: rat\<bar> \<le> 1 / 2"
proof -
  define s :: rat where "s = of_nat k / 2 ^ 53 - 1 / 2"
  have m: "s * 2 ^ 53 = of_int (int k - 2 ^ 52)" by (simp add: s_def left_diff_distrib)
  have "of_nat k \<le> (2 ^ 53 :: rat)" using assms by (metis less_imp_le of_nat_le_iff of_nat_numeral of_nat_power)
  then have "of_nat k / (2 ^ 53 :: rat) \<le> 1" "0 \<le> of_nat k / (2 ^ 53 :: rat)" by simp_all
  then have s: "\<bar>s\<bar> \<le> 1 / 2" unfolding s_def abs_le_iff by linarith
  have "2 * \<bar>s\<bar> * 2 ^ 53 = 2 * \<bar>s * 2 ^ 53\<bar>" by (simp add: abs_mult)
  then have m2: "2 * \<bar>s\<bar> * 2 ^ 53 = of_int (2 * \<bar>int k - 2 ^ 52\<bar>)" by (simp only: m of_int_abs of_int_mult of_int_numeral)
  then have m3: "(1 - 2 * \<bar>s\<bar>) * 2 ^ 53 = of_int (2 ^ 53 - 2 * \<bar>int k - 2 ^ 52\<bar>)" by (simp only: left_diff_distrib) simp
  have "to_f64 s = Finite s" "to_f64 (2 * \<bar>s\<bar>) = Finite (2 * \<bar>s\<bar>)" "to_f64 (1 - 2 * \<bar>s\<bar>) = Finite (1 - 2 * \<bar>s\<bar>)"
    using s by (auto intro: to_f64_fraction [OF _ m] to_f64_fraction [OF _ m2] to_f64_fraction [OF _ m3])
  moreover have "of_nat k / 2 ^ 53 + - (1 / 2) = s" by (simp add: s_def)
  ultimately show "f64_sub (uniform k) (Finite (1 / 2)) = Finite (of_nat k / 2 ^ 53 - 1 / 2)"
    and "f64_sub (Finite 1) (f64_mul (Finite 2) (f64_abs (Finite (of_nat k / 2 ^ 53 - 1 / 2))))
      = Finite (1 - 2 * \<bar>of_nat k / 2 ^ 53 - 1 / 2\<bar>)"
    and "\<bar>of_nat k / 2 ^ 53 - 1 / 2 :: rat\<bar> \<le> 1 / 2"
    unfolding s_def [symmetric] f64_sub_def uniform_def using s by (simp_all only: f64_neg.simps f64_add.simps f64_abs.simps f64_mul.simps) simp_all
qed

text \<open>
  What is used of a logarithm: it is zero at one, and from \<^verbatim>\<open>f64::MIN_POSITIVE\<close>, whose logarithm is
  - 708.4, to one it is neither positive nor below - 709.
\<close>

definition ln_ok :: "(f64 \<Rightarrow> f64) \<Rightarrow> bool" where
  "ln_ok lnf \<longleftrightarrow> lnf (Finite 1) = Finite 0
     \<and> (\<forall>x. min_positive \<le> x \<and> x \<le> 1 \<longrightarrow> (\<exists>y. lnf (Finite x) = Finite y \<and> - 709 \<le> y \<and> y \<le> 0))"

section \<open>No noise is enough\<close>

lemma middle_draw:
  assumes "lnf (Finite 1) = Finite 0"
  shows "noisy_offset lnf epsilon sensitivity (2 ^ 52) = 0"
proof -
  have "f64_as_i64 (f64_round (f64_mul (f64_mul (f64_neg x) (Finite 1)) (Finite 0))) = 0" for x
  proof -
    have "f64_mul y (Finite 0) \<in> {Finite 0, Not_A_Number}" for y by (cases y) simp_all
    from this [of "f64_mul (f64_neg x) (Finite 1)"] show ?thesis
      by (auto simp: i64_min_def i64_max_def)
  qed
  moreover have "max 1 min_positive = 1"
    using power_int_increasing [of "- 1022" 0 "2::rat"] by (simp add: min_positive_def)
  ultimately show ?thesis
    using assms draw_exact(1,2) [of "2 ^ 52"]
    by (simp add: noisy_offset_def laplace_noise_def Let_def i64_min_def i64_max_def)
qed

text \<open>
  The comment promises epsilon-differential privacy: what one timestamp may become, its neighbour may become
  too.  For no epsilon is it so: there are finitely many draws, and the earliest result for the timestamp one
  second earlier can never come out for the later one.
\<close>

theorem noise_tells_neighbours_apart:
  assumes "ln_ok lnf" "0 < t" "t \<le> i64_max"
  shows "\<exists>k < 2 ^ 53. \<forall>j < 2 ^ 53.
    noisy_timestamp lnf t epsilon sensitivity j \<noteq> noisy_timestamp lnf (t - 1) epsilon sensitivity k"
proof -
  let ?o = "noisy_offset lnf epsilon sensitivity"
  have one: "lnf (Finite 1) = Finite 0" using assms(1) by (simp add: ln_ok_def)
  have "finite (?o ` {..< 2 ^ 53})" "?o ` {..< 2 ^ 53} \<noteq> {}" by (auto simp: lessThan_empty_iff)
  then obtain k where k: "k < 2 ^ 53" "?o k = Min (?o ` {..< 2 ^ 53})"
    by (metis (no_types, lifting) Min_in imageE lessThan_iff)
  have least: "?o k \<le> ?o j" if "j < 2 ^ 53" for j
    unfolding k(2) using that by (intro Min_le) auto
  have "?o k \<le> 0" using least [of "2 ^ 52"] middle_draw [where lnf = lnf, OF one] by simp
  moreover have "i64_min \<le> ?o k"
    by (cases "f64_round (laplace_noise lnf (f64_div sensitivity epsilon) k)")
       (auto simp: noisy_offset_def i64_min_def i64_max_def)
  ultimately have "noisy_timestamp lnf (t - 1) epsilon sensitivity k < noisy_timestamp lnf t epsilon sensitivity j"
    if "j < 2 ^ 53" for j
    using least [OF that] assms(2,3)
    by (auto simp: noisy_timestamp_def saturating_add_i64_def sat_i64_def)
  then show ?thesis using k(1) by (metis less_irrefl)
qed

definition flat_ln :: "f64 \<Rightarrow> f64" where
  "flat_ln x = (if x = Finite 1 then Finite 0 else Finite (- 36))"

lemma flat_ln_ok: "ln_ok flat_ln" by (simp add: ln_ok_def flat_ln_def)

lemma noise_tells_neighbours_apart_witness:
  "\<exists>k < 2 ^ 53. \<forall>j < 2 ^ 53. noisy_timestamp flat_ln 1700000000 default_epsilon bucket_sensitivity j
     \<noteq> noisy_timestamp flat_ln (1700000000 - 1) default_epsilon bucket_sensitivity k"
  by (rule noise_tells_neighbours_apart) (simp_all add: flat_ln_ok i64_max_def)

text \<open>
  The noise is bounded: with the default budget a timestamp moves by at most 709 buckets, half a year.
\<close>

theorem noise_bounded:
  assumes "ln_ok lnf" "k < 2 ^ 53"
  shows "\<bar>noisy_offset lnf default_epsilon bucket_sensitivity k\<bar> \<le> 709 * 21600"
proof -
  let ?s = "of_nat k / 2 ^ 53 - 1 / 2 :: rat"
  have minpos: "min_positive \<le> 1"
    using power_int_increasing [of "- 1022" 0 "2::rat"] by (simp add: min_positive_def)
  then have "min_positive \<le> max (1 - 2 * \<bar>?s\<bar>) min_positive \<and> max (1 - 2 * \<bar>?s\<bar>) min_positive \<le> 1" by simp
  with assms(1) obtain y where y: "lnf (Finite (max (1 - 2 * \<bar>?s\<bar>) min_positive)) = Finite y" "- 709 \<le> y" "y \<le> 0"
    unfolding ln_ok_def by blast
  have scale: "f64_div bucket_sensitivity default_epsilon = Finite 21600"
    using to_f64_of_int [of 21600] by (simp add: bucket_sensitivity_def default_epsilon_def)
  have signed: "f64_mul (Finite (- 21600)) (if b then Finite 1 else Finite (- 1)) = Finite (if b then - 21600 else 21600)" for b
    using to_f64_of_int [of 21600] to_f64_of_int [of "- 21600"] by simp
  define z where "z = (if f64_ge_zero (Finite ?s) then - 21600 else 21600) * y"
  have z: "- 15314400 \<le> z" "z \<le> 15314400" using y by (auto simp: z_def)
  then have "\<bar>z\<bar> < 2 ^ 53" by (simp add: abs_less_iff)
  then have fin: "to_f64 z = Finite (nearest z)"
    and near: "- 15314400 \<le> nearest z" "nearest z \<le> 15314400"
    using nearest_ge [of z "- 15314400"] nearest_le [of z 15314400] z by (simp_all add: to_f64_Finite)
  have "laplace_noise lnf (Finite 21600) k = to_f64 z"
    using draw_exact(1,2) [OF assms(2)] y(1) signed [of "f64_ge_zero (Finite ?s)"]
    by (simp only: laplace_noise_def Let_def f64_max_pos.simps f64_neg.simps z_def f64_mul.simps) simp
  moreover have "- 15314400 \<le> round_half_away (nearest z) \<and> round_half_away (nearest z) \<le> 15314400"
    using round_half_away_between [of "- 15314400" "nearest z" 15314400] near by simp
  ultimately show ?thesis
    using scale fin by (auto simp: noisy_offset_def default_epsilon_def i64_min_def i64_max_def)
qed

lemma noise_bounded_witness: "\<bar>noisy_offset flat_ln default_epsilon bucket_sensitivity 0\<bar> \<le> 709 * 21600"
  using noise_bounded [OF flat_ln_ok, of 0] by simp

end
